(* ===== verification/SNS_Prelude.thy ===== *)
theory SNS_Prelude
  imports Main "HOL-Library.Word" "HOL-Library.Multiset"
begin

text \<open>
  Shared vocabulary of the development: the exception monad in which JavaScript
  statements are sequenced (a thrown exception is \<open>Inl\<close>, a normal completion is
  \<open>Inr\<close>), the theorem collections the component theories fill, and generic lemmas on
  lists and association lists that several components use.
\<close>

named_theorems js_simps
  \<open>evaluation rules of the modelled JavaScript runtime\<close>
named_theorems dispatch_simps
  \<open>evaluation rules of the per-device dispatch model\<close>

type_synonym byte = "8 word"

text \<open>Sequencing of two statements of which the first may throw.\<close>

definition ebind :: "'e + 'a \<Rightarrow> ('a \<Rightarrow> 'e + 'b) \<Rightarrow> 'e + 'b" where
  "ebind m f = (case m of Inl e \<Rightarrow> Inl e | Inr a \<Rightarrow> f a)"

lemma ebind_Inl [simp]: "ebind (Inl e) f = Inl e"
  by (simp add: ebind_def)

lemma ebind_Inr [simp]: "ebind (Inr a) f = f a"
  by (simp add: ebind_def)

lemma ebind_eq_Inr:
  "ebind m f = Inr b \<longleftrightarrow> (\<exists>a. m = Inr a \<and> f a = Inr b)"
  by (cases m) simp_all

lemma ebind_eq_Inl:
  "ebind m f = Inl e \<longleftrightarrow> m = Inl e \<or> (\<exists>a. m = Inr a \<and> f a = Inl e)"
  by (cases m) simp_all

subsection \<open>Association lists as JavaScript objects\<close>

text \<open>
  Assigning a property keeps the position of an existing key and appends a new key at
  the end, as JavaScript's property insertion order does.
\<close>

fun assoc_set :: "'k \<Rightarrow> 'v \<Rightarrow> ('k \<times> 'v) list \<Rightarrow> ('k \<times> 'v) list" where
  "assoc_set k v [] = [(k, v)]"
| "assoc_set k v ((k', v') # kvs) =
     (if k' = k then (k, v) # kvs else (k', v') # assoc_set k v kvs)"

lemma map_of_assoc_set [simp]: "map_of (assoc_set k v kvs) = (map_of kvs)(k \<mapsto> v)"
  by (induction kvs) (auto simp: fun_eq_iff)

lemma keys_assoc_set: "map fst (assoc_set k v kvs) =
    (if k \<in> set (map fst kvs) then map fst kvs else map fst kvs @ [k])"
  by (induction kvs) (auto simp: rev_image_eqI)

lemma distinct_assoc_set:
  "distinct (map fst kvs) \<Longrightarrow> distinct (map fst (assoc_set k v kvs))"
  by (simp add: keys_assoc_set)

subsection \<open>Lists\<close>

text \<open>Joining strings with a separator, the shape of \<^verbatim>\<open>Array.prototype.join\<close>.\<close>

fun join_sep :: "'a list \<Rightarrow> 'a list list \<Rightarrow> 'a list" where
  "join_sep sep [] = []"
| "join_sep sep [x] = x"
| "join_sep sep (x # y # zs) = x @ sep @ join_sep sep (y # zs)"

lemma nth_list_update_other [simp]:
  "i \<noteq> j \<Longrightarrow> xs[i := x] ! j = xs ! j"
  by simp

lemma count_list_pos:
  "i < length xs \<Longrightarrow> xs ! i = a \<Longrightarrow> 0 < count_list xs a"
  by (metis count_list_0_iff in_set_conv_nth not_gr0)

text \<open>Overwriting a slot that held \<open>a\<close> with another value removes one \<open>a\<close>.\<close>

lemma count_list_update_away:
  "i < length xs \<Longrightarrow> xs ! i = a \<Longrightarrow> b \<noteq> a \<Longrightarrow>
   count_list (xs[i := b]) a = count_list xs a - 1"
proof (induction xs arbitrary: i)
  case Nil
  then show ?case by simp
next
  case (Cons x xs)
  show ?case
  proof (cases i)
    case 0
    with Cons.prems show ?thesis by simp
  next
    case (Suc j)
    with Cons.prems have "j < length xs" "xs ! j = a" by simp_all
    with Cons.IH Cons.prems(3) have "count_list (xs[j := b]) a = count_list xs a - 1" by blast
    moreover from \<open>j < length xs\<close> \<open>xs ! j = a\<close> have "0 < count_list xs a"
      by (rule count_list_pos)
    ultimately show ?thesis using Suc by simp
  qed
qed

lemma count_None_pos:
  "i < length xs \<Longrightarrow> xs ! i = None \<Longrightarrow> 0 < count_list xs None"
  by (rule count_list_pos)

lemma count_None_update_Some:
  "i < length xs \<Longrightarrow> xs ! i = None \<Longrightarrow>
   count_list (xs[i := Some v]) None = count_list xs None - 1"
  by (rule count_list_update_away) simp_all

lemma count_list_replicate_same [simp]: "count_list (replicate n x) x = n"
  by (induction n) auto

lemma count_None_zero_iff: "count_list xs None = 0 \<longleftrightarrow> (\<forall>x\<in>set xs. x \<noteq> None)"
  by (metis count_list_0_iff)

end
