(* ===== verification/JS_Values.thy ===== *)
theory JS_Values
  imports SNS_Prelude
begin

text \<open>
  The fragment of JavaScript's value domain and runtime semantics that
  \<^verbatim>\<open>src/src/SNS.js\<close> relies on: values (with Node's \<^verbatim>\<open>Buffer\<close> for device tokens),
  exceptions, truthiness (\<^verbatim>\<open>!x\<close>, \<^verbatim>\<open>x || y\<close>, \<^verbatim>\<open>x && y\<close>), \<^verbatim>\<open>typeof\<close>, loose
  comparison with \<^verbatim>\<open>null\<close>, property reads and writes on plain objects, the \<^verbatim>\<open>ToString\<close>
  conversion used by string concatenation, and the method call \<^verbatim>\<open>x.toString('hex')\<close>
  with its dispatch on the receiver's type. Numbers are modelled as integers plus
  \<^verbatim>\<open>NaN\<close>; fractions, infinities and \<^verbatim>\<open>-0\<close> do not occur in the adapter's data
  paths. Objects are association lists in property insertion order; only own
  properties are read (no key the adapter reads is inherited from \<^verbatim>\<open>Object.prototype\<close>).
\<close>

datatype jsval =
    JUndefined
  | JNull
  | JBool bool
  | JNum int
  | JNaN
  | JStr string
  | JBuf "byte list"
  | JArr "jsval list"
  | JObj "(string \<times> jsval) list"

datatype js_error =
    TypeError string
  | ReferenceError string
  | RangeError string
  | ParseError int string
  | JSError string
  | Thrown jsval

subsection \<open>Truthiness, typeof and loose equality\<close>

fun js_truthy :: "jsval \<Rightarrow> bool" where
  "js_truthy JUndefined = False"
| "js_truthy JNull = False"
| "js_truthy (JBool b) = b"
| "js_truthy (JNum n) = (n \<noteq> 0)"
| "js_truthy JNaN = False"
| "js_truthy (JStr s) = (s \<noteq> [])"
| "js_truthy (JBuf _) = True"
| "js_truthy (JArr _) = True"
| "js_truthy (JObj _) = True"

fun js_typeof :: "jsval \<Rightarrow> string" where
  "js_typeof JUndefined = ''undefined''"
| "js_typeof JNull = ''object''"
| "js_typeof (JBool _) = ''boolean''"
| "js_typeof (JNum _) = ''number''"
| "js_typeof JNaN = ''number''"
| "js_typeof (JStr _) = ''string''"
| "js_typeof (JBuf _) = ''object''"
| "js_typeof (JArr _) = ''object''"
| "js_typeof (JObj _) = ''object''"

text \<open>\<^verbatim>\<open>x != null\<close> is false exactly for \<^verbatim>\<open>null\<close> and \<^verbatim>\<open>undefined\<close>.\<close>

definition js_nullish :: "jsval \<Rightarrow> bool" where
  "js_nullish v \<longleftrightarrow> v = JNull \<or> v = JUndefined"

text \<open>\<^verbatim>\<open>a || b\<close> returns its left operand when that is truthy, else its right one.\<close>

definition js_or :: "jsval \<Rightarrow> jsval \<Rightarrow> jsval" where
  "js_or a b = (if js_truthy a then a else b)"

subsection \<open>Property access\<close>

text \<open>The value of an own property of a plain object, \<^verbatim>\<open>undefined\<close> when absent.\<close>

definition obj_prop :: "(string \<times> jsval) list \<Rightarrow> string \<Rightarrow> jsval" where
  "obj_prop kvs k = (case map_of kvs k of None \<Rightarrow> JUndefined | Some v \<Rightarrow> v)"

fun js_get :: "jsval \<Rightarrow> string \<Rightarrow> js_error + jsval" where
  "js_get JUndefined k = Inl (TypeError (''Cannot read properties of undefined (reading '' @ k @ '')''))"
| "js_get JNull k = Inl (TypeError (''Cannot read properties of null (reading '' @ k @ '')''))"
| "js_get (JObj kvs) k = Inr (obj_prop kvs k)"
| "js_get (JStr s) k = Inr (if k = ''length'' then JNum (int (length s)) else JUndefined)"
| "js_get (JBuf bs) k = Inr (if k = ''length'' then JNum (int (length bs)) else JUndefined)"
| "js_get (JArr vs) k = Inr (if k = ''length'' then JNum (int (length vs)) else JUndefined)"
| "js_get _ k = Inr JUndefined"

text \<open>Assignment \<^verbatim>\<open>o.k = v\<close>; the module is in strict mode, so writing to a primitive throws.\<close>

fun js_set :: "jsval \<Rightarrow> string \<Rightarrow> jsval \<Rightarrow> js_error + jsval" where
  "js_set (JObj kvs) k v = Inr (JObj (assoc_set k v kvs))"
| "js_set JUndefined k v = Inl (TypeError (''Cannot set properties of undefined (setting '' @ k @ '')''))"
| "js_set JNull k v = Inl (TypeError (''Cannot set properties of null (setting '' @ k @ '')''))"
| "js_set x k v = Inl (TypeError (''Cannot create property '' @ k @ '' on primitive''))"

text \<open>The value a read \<^verbatim>\<open>v.k\<close> gives when it does not throw.\<close>

definition js_prop :: "jsval \<Rightarrow> string \<Rightarrow> jsval" where
  "js_prop v k = (case js_get v k of Inl _ \<Rightarrow> JUndefined | Inr w \<Rightarrow> w)"

lemma js_get_eq_prop: "\<not> js_nullish v \<Longrightarrow> js_get v k = Inr (js_prop v k)"
  by (cases v) (auto simp: js_nullish_def js_prop_def)

lemma js_prop_JObj [simp]: "js_prop (JObj kvs) k = obj_prop kvs k"
  by (simp add: js_prop_def)

lemma js_get_Inr_iff: "js_get v k = Inr w \<longleftrightarrow> \<not> js_nullish v \<and> w = js_prop v k"
  by (cases v) (auto simp: js_nullish_def js_prop_def)

lemma js_truthy_not_nullish: "js_truthy v \<Longrightarrow> \<not> js_nullish v"
  by (auto simp: js_nullish_def)

lemma js_truthy_get: "js_truthy v \<Longrightarrow> js_get v k = Inr (js_prop v k)"
  by (simp add: js_get_eq_prop js_truthy_not_nullish)

lemma js_get_nullish: "js_nullish v \<Longrightarrow> \<exists>e. js_get v k = Inl e"
  by (auto simp: js_nullish_def)

lemma js_get_not_nullish: "\<not> js_nullish v \<Longrightarrow> \<exists>w. js_get v k = Inr w"
  by (cases v) (auto simp: js_nullish_def)

subsection \<open>Decimal and hexadecimal digits\<close>

definition digit_char :: "nat \<Rightarrow> char" where
  "digit_char d = char_of (48 + d)"

fun nat_decimal :: "nat \<Rightarrow> string" where
  "nat_decimal n = (if n < 10 then [digit_char n] else nat_decimal (n div 10) @ [digit_char (n mod 10)])"

declare nat_decimal.simps [simp del]

definition int_decimal :: "int \<Rightarrow> string" where
  "int_decimal i = (if i < 0 then CHR ''-'' # nat_decimal (nat (- i)) else nat_decimal (nat i))"

text \<open>Lower-case hexadecimal digit, as Node's \<^verbatim>\<open>buf.toString('hex')\<close> writes it.\<close>

definition hex_digit :: "nat \<Rightarrow> char" where
  "hex_digit d = (if d < 10 then char_of (48 + d) else char_of (87 + d))"

definition byte_hex :: "byte \<Rightarrow> string" where
  "byte_hex b = [hex_digit (unat b div 16), hex_digit (unat b mod 16)]"

definition hex_encode :: "byte list \<Rightarrow> string" where
  "hex_encode bs = concat (map byte_hex bs)"

subsection \<open>ToString and toString('hex')\<close>

text \<open>
  The abstract operation \<^verbatim>\<open>ToString\<close>, as used by \<^verbatim>\<open>"..." + x\<close>. A \<^verbatim>\<open>Buffer\<close>
  is read byte by byte as characters (Node decodes UTF-8; the two agree on ASCII).
\<close>

fun js_to_string :: "jsval \<Rightarrow> string" where
  "js_to_string JUndefined = ''undefined''"
| "js_to_string JNull = ''null''"
| "js_to_string (JBool b) = (if b then ''true'' else ''false'')"
| "js_to_string (JNum n) = int_decimal n"
| "js_to_string JNaN = ''NaN''"
| "js_to_string (JStr s) = s"
| "js_to_string (JBuf bs) = map (\<lambda>b. char_of (unat b)) bs"
| "js_to_string (JArr vs) =
     join_sep '','' (map (\<lambda>v. if js_nullish v then [] else js_to_string v) vs)"
| "js_to_string (JObj _) = ''[object Object]''"

text \<open>
  The call \<^verbatim>\<open>x.toString('hex')\<close> dispatches on the receiver: a \<^verbatim>\<open>Buffer\<close> is
  hex-encoded; \<^verbatim>\<open>String\<close>, \<^verbatim>\<open>Boolean\<close>, \<^verbatim>\<open>Array\<close> and \<^verbatim>\<open>Object\<close> ignore the
  argument; \<^verbatim>\<open>Number\<close> reads it as a radix, and \<^verbatim>\<open>'hex'\<close> converts to radix 0,
  a \<^verbatim>\<open>RangeError\<close>; \<^verbatim>\<open>null\<close> and \<^verbatim>\<open>undefined\<close> have no methods.
\<close>

fun js_to_string_hex :: "jsval \<Rightarrow> js_error + string" where
  "js_to_string_hex (JBuf bs) = Inr (hex_encode bs)"
| "js_to_string_hex (JStr s) = Inr s"
| "js_to_string_hex (JBool b) = Inr (js_to_string (JBool b))"
| "js_to_string_hex (JNum n) = Inl (RangeError ''toString() radix must be between 2 and 36'')"
| "js_to_string_hex JNaN = Inl (RangeError ''toString() radix must be between 2 and 36'')"
| "js_to_string_hex JUndefined = Inl (TypeError ''Cannot read properties of undefined (reading toString)'')"
| "js_to_string_hex JNull = Inl (TypeError ''Cannot read properties of null (reading toString)'')"
| "js_to_string_hex (JArr vs) = Inr (js_to_string (JArr vs))"
| "js_to_string_hex (JObj kvs) = Inr (js_to_string (JObj kvs))"

subsection \<open>Reading the hex form back\<close>

text \<open>
  Decoding lower-case hex, the inverse of \<open>hex_encode\<close>; it is what makes the
  \<^verbatim>\<open>deviceToken\<close> string of an outcome identify the device's token.
\<close>

definition hex_value :: "char \<Rightarrow> nat option" where
  "hex_value c = (let n = of_char c in
     if 48 \<le> n \<and> n < 58 then Some (n - 48)
     else if 97 \<le> n \<and> n < 103 then Some (n - 87) else None)"

fun hex_decode :: "string \<Rightarrow> byte list option" where
  "hex_decode [] = Some []"
| "hex_decode [c] = None"
| "hex_decode (c1 # c2 # cs) =
     (case (hex_value c1, hex_value c2) of
        (Some h, Some l) \<Rightarrow> map_option (\<lambda>bs. of_nat (16 * h + l) # bs) (hex_decode cs)
      | _ \<Rightarrow> None)"

declare char_of_eq_iff [js_simps]

lemma hex_value_hex_digit: "d < 16 \<Longrightarrow> hex_value (hex_digit d) = Some d"
  by (auto simp: hex_value_def hex_digit_def Let_def)

lemma hex_decode_byte_hex: "hex_decode (byte_hex b @ cs) = map_option (Cons b) (hex_decode cs)"
proof -
  have "unat b < 256" using unsigned_less[of b] by simp
  then have "unat b div 16 < 16" by simp
  moreover have "unat b mod 16 < 16" by simp
  ultimately show ?thesis
    by (simp add: byte_hex_def hex_value_hex_digit)
qed

lemma hex_decode_encode: "hex_decode (hex_encode bs) = Some bs"
  by (induction bs) (simp_all add: hex_encode_def hex_decode_byte_hex)

lemma length_hex_encode: "length (hex_encode bs) = 2 * length bs"
  by (induction bs) (simp_all add: hex_encode_def byte_hex_def)

lemma hex_encode_inj: "hex_encode bs = hex_encode bs' \<longleftrightarrow> bs = bs'"
  by (metis hex_decode_encode option.inject)

end
