(* ===== verification/JSON.thy ===== *)
theory JSON
  imports JS_Values
begin

text \<open>
  \<^verbatim>\<open>JSON.stringify\<close> on the modelled values (ECMAScript SerializeJSONProperty with no
  replacer and no indentation): \<^verbatim>\<open>undefined\<close> has no serialisation (the result is
  \<^verbatim>\<open>undefined\<close>, here \<open>None\<close>), object members whose value has none are skipped,
  array elements whose value has none are written \<^verbatim>\<open>null\<close>, \<^verbatim>\<open>NaN\<close> is written
  \<^verbatim>\<open>null\<close>, strings are quoted by QuoteJSONString, and a \<^verbatim>\<open>Buffer\<close> is written
  through its \<^verbatim>\<open>toJSON\<close> method as \<^verbatim>\<open>{"type":"Buffer","data":[...]}\<close>.
  The adapter calls it on every payload entry and on the whole payload bundle.
\<close>

definition dquote :: char where
  "dquote = char_of (34::nat)"

definition bslash :: char where
  "bslash = char_of (92::nat)"

definition json_escape_char :: "char \<Rightarrow> string" where
  "json_escape_char c = (let n = of_char c :: nat in
     if n = 8 then [bslash, CHR ''b'']
     else if n = 9 then [bslash, CHR ''t'']
     else if n = 10 then [bslash, CHR ''n'']
     else if n = 12 then [bslash, CHR ''f'']
     else if n = 13 then [bslash, CHR ''r'']
     else if n = 34 then [bslash, dquote]
     else if n = 92 then [bslash, bslash]
     else if n < 32 then [bslash, CHR ''u'', CHR ''0'', CHR ''0'', hex_digit (n div 16), hex_digit (n mod 16)]
     else [c])"

definition json_quote :: "string \<Rightarrow> string" where
  "json_quote s = dquote # concat (map json_escape_char s) @ [dquote]"

fun json_stringify :: "jsval \<Rightarrow> string option"
and json_elems :: "jsval list \<Rightarrow> string list"
and json_members :: "(string \<times> jsval) list \<Rightarrow> string list" where
  "json_stringify JUndefined = None"
| "json_stringify JNull = Some ''null''"
| "json_stringify (JBool b) = Some (if b then ''true'' else ''false'')"
| "json_stringify (JNum n) = Some (int_decimal n)"
| "json_stringify JNaN = Some ''null''"
| "json_stringify (JStr s) = Some (json_quote s)"
| "json_stringify (JBuf bs) =
     Some (''{'' @ json_quote ''type'' @ '':'' @ json_quote ''Buffer'' @ '','' @
           json_quote ''data'' @ '':['' @ join_sep '','' (map (\<lambda>b. int_decimal (uint b)) bs) @ '']}'')"
| "json_stringify (JArr vs) = Some (''['' @ join_sep '','' (json_elems vs) @ '']'')"
| "json_stringify (JObj kvs) = Some (''{'' @ join_sep '','' (json_members kvs) @ ''}'')"
| "json_elems [] = []"
| "json_elems (v # vs) =
     (case json_stringify v of None \<Rightarrow> ''null'' | Some t \<Rightarrow> t) # json_elems vs"
| "json_members [] = []"
| "json_members ((k, v) # kvs) =
     (case json_stringify v of
        None \<Rightarrow> json_members kvs
      | Some t \<Rightarrow> (json_quote k @ '':'' @ t) # json_members kvs)"

text \<open>The result of \<^verbatim>\<open>JSON.stringify(v)\<close> as a JavaScript value.\<close>

definition json_stringify_val :: "jsval \<Rightarrow> jsval" where
  "json_stringify_val v = (case json_stringify v of None \<Rightarrow> JUndefined | Some s \<Rightarrow> JStr s)"

lemma json_stringify_None_iff [simp]: "json_stringify v = None \<longleftrightarrow> v = JUndefined"
  by (cases v) simp_all

lemma json_stringify_val_JStr: "v \<noteq> JUndefined \<Longrightarrow> \<exists>s. json_stringify_val v = JStr s"
  by (cases "json_stringify v") (auto simp: json_stringify_val_def)

lemma json_stringify_val_is_str: "(\<exists>s. json_stringify_val v = JStr s) \<longleftrightarrow> v \<noteq> JUndefined"
  by (cases "json_stringify v") (auto simp: json_stringify_val_def)

lemma json_stringify_val_undefined [simp]: "json_stringify_val JUndefined = JUndefined"
  by (simp add: json_stringify_val_def)

lemma json_members_map_JStr:
  "json_members (map (\<lambda>(k, s). (k, JStr s)) kss) = map (\<lambda>(k, s). json_quote k @ '':'' @ json_quote s) kss"
  by (induction kss) auto

end
