(* ===== verification/SNS_Config.thy ===== *)
theory SNS_Config
  imports JSON
begin

text \<open>
  The adapter's constructor \<^verbatim>\<open>function SNS(args)\<close> (\<^verbatim>\<open>src/src/SNS.js\<close> lines 13--25)
  and the module constants. The constructor validates its argument, writes the
  credentials into the process-wide \<^verbatim>\<open>AWS.config\<close> singleton and instantiates an
  \<^verbatim>\<open>AWS.SNS\<close> client, which copies the global configuration when it is created.
  The global configuration is explicit state: the constructor takes it and returns it.
\<close>

definition LOG_PREFIX :: string where
  "LOG_PREFIX = ''parse-server-push-adapter SNS''"

definition DEFAULT_REGION :: string where
  "DEFAULT_REGION = ''us-east-1''"

text \<open>\<^verbatim>\<open>Parse.Error.PUSH_MISCONFIGURED\<close> of the Parse SDK.\<close>

definition PUSH_MISCONFIGURED :: int where
  "PUSH_MISCONFIGURED = 115"

definition sns_config_error :: js_error where
  "sns_config_error = ParseError PUSH_MISCONFIGURED ''SNS Configuration is invalid''"

type_synonym aws_config = "(string \<times> jsval) list"

text \<open>An \<^verbatim>\<open>AWS.SNS\<close> service object holds the configuration it was created with.\<close>

record sns_client =
  client_config :: aws_config

text \<open>The adapter object: \<^verbatim>\<open>this.sns\<close>.\<close>

record adapter =
  sns :: sns_client

text \<open>\<^verbatim>\<open>AWS.config.update(options)\<close> assigns every option into the global configuration.\<close>

definition aws_config_update :: "(string \<times> jsval) list \<Rightarrow> aws_config \<Rightarrow> aws_config" where
  "aws_config_update opts cfg = fold (\<lambda>(k, v). assoc_set k v) opts cfg"

text \<open>
  \<^verbatim>\<open>new SNS(args)\<close>: the guard of line 14 evaluates \<^verbatim>\<open>typeof args !== 'object'\<close>,
  then \<^verbatim>\<open>!args.accessKey\<close>, then \<^verbatim>\<open>!args.secretKey\<close>, left to right with
  short-circuit; a property read on \<^verbatim>\<open>null\<close> throws. The options object of line 19
  reads the three fields and applies \<^verbatim>\<open>||\<close> to the region. The result pairs the
  outcome (the exception, or the new adapter) with the global configuration afterwards.
\<close>

definition SNS :: "jsval \<Rightarrow> aws_config \<Rightarrow> (js_error + adapter) \<times> aws_config" where
  "SNS args cfg =
     (if js_typeof args \<noteq> ''object'' then (Inl sns_config_error, cfg)
      else case js_get args ''accessKey'' of
        Inl e \<Rightarrow> (Inl e, cfg)
      | Inr ak \<Rightarrow>
          if \<not> js_truthy ak then (Inl sns_config_error, cfg)
          else case js_get args ''secretKey'' of
            Inl e \<Rightarrow> (Inl e, cfg)
          | Inr sk \<Rightarrow>
              if \<not> js_truthy sk then (Inl sns_config_error, cfg)
              else case js_get args ''region'' of
                Inl e \<Rightarrow> (Inl e, cfg)
              | Inr r \<Rightarrow>
                  let cfg' = aws_config_update
                               [(''accessKeyId'', ak), (''secretAccessKey'', sk),
                                (''region'', js_or r (JStr DEFAULT_REGION))] cfg
                  in (Inr \<lparr>sns = \<lparr>client_config = cfg'\<rparr>\<rparr>, cfg'))"

subsection \<open>Reading the configuration back\<close>

lemma obj_prop_config_update:
  "obj_prop (aws_config_update opts cfg) k =
     (case map_of (rev opts) k of None \<Rightarrow> obj_prop cfg k | Some v \<Rightarrow> v)"
proof (induction opts arbitrary: cfg)
  case Nil
  then show ?case by (simp add: aws_config_update_def)
next
  case (Cons kv opts)
  then show ?case
    by (cases kv) (auto simp: aws_config_update_def obj_prop_def map_add_def split: option.splits)
qed

lemma SNS_failure_keeps_config: "fst (SNS args cfg) = Inl e \<Longrightarrow> snd (SNS args cfg) = cfg"
  by (auto simp: SNS_def Let_def split: sum.splits if_splits)

lemma SNS_client_config:
  assumes "SNS args cfg = (Inr a, cfg')"
  shows "client_config (sns a) = cfg' \<and> obj_prop cfg' ''accessKeyId'' = js_prop args ''accessKey''
    \<and> obj_prop cfg' ''secretAccessKey'' = js_prop args ''secretKey''
    \<and> obj_prop cfg' ''region'' = js_or (js_prop args ''region'') (JStr DEFAULT_REGION)"
  using assms
  by (cases args) (auto simp: SNS_def Let_def obj_prop_config_update split: if_splits)

subsection \<open>Properties of the constructor\<close>

text \<open>
  C14. Construction succeeds exactly for a plain object whose \<^verbatim>\<open>accessKey\<close> and
  \<^verbatim>\<open>secretKey\<close> are truthy; arrays, buffers and primitives are refused.
\<close>

theorem SNS_accepts_iff:
  "(\<exists>a cfg'. SNS args cfg = (Inr a, cfg')) \<longleftrightarrow>
   (\<exists>kvs. args = JObj kvs \<and> js_truthy (obj_prop kvs ''accessKey'') \<and> js_truthy (obj_prop kvs ''secretKey''))"
  by (cases args) (auto simp: SNS_def Let_def)

text \<open>
  C15. Every refused argument other than \<^verbatim>\<open>null\<close> raises the
  \<^verbatim>\<open>PUSH_MISCONFIGURED\<close> Parse error, and \<^verbatim>\<open>AWS.config\<close> is left as it was.
\<close>

theorem SNS_rejects:
  assumes "args \<noteq> JNull"
    and "\<not> (\<exists>kvs. args = JObj kvs \<and> js_truthy (obj_prop kvs ''accessKey'') \<and> js_truthy (obj_prop kvs ''secretKey''))"
  shows "SNS args cfg = (Inl sns_config_error, cfg)"
  using assms by (cases args) (auto simp: SNS_def Let_def)

text \<open>
  \<^verbatim>\<open>typeof null\<close> is \<^verbatim>\<open>'object'\<close>, so \<^verbatim>\<open>new SNS(null)\<close> passes the type
  test and throws a \<^verbatim>\<open>TypeError\<close> reading \<^verbatim>\<open>null.accessKey\<close>, not the
  misconfiguration error.
\<close>

lemma SNS_null_TypeError:
  "SNS JNull cfg = (Inl (TypeError ''Cannot read properties of null (reading accessKey)''), cfg)
   \<and> fst (SNS JNull cfg) \<noteq> Inl sns_config_error"
  by (simp add: SNS_def sns_config_error_def)

text \<open>
  C16. After a successful construction the new client and the global configuration
  carry the given access key and secret key, the region is the given one when truthy
  and \<^verbatim>\<open>us-east-1\<close> otherwise, and no other configuration key changes.
\<close>

theorem SNS_credentials:
  assumes "SNS args cfg = (Inr a, cfg')"
  shows "client_config (sns a) = cfg'
    \<and> (\<exists>kvs. args = JObj kvs
        \<and> obj_prop cfg' ''accessKeyId'' = obj_prop kvs ''accessKey''
        \<and> obj_prop cfg' ''secretAccessKey'' = obj_prop kvs ''secretKey''
        \<and> obj_prop cfg' ''region'' =
            (if js_truthy (obj_prop kvs ''region'') then obj_prop kvs ''region'' else JStr DEFAULT_REGION)
        \<and> (\<forall>k. k \<notin> {''accessKeyId'', ''secretAccessKey'', ''region''} \<longrightarrow> obj_prop cfg' k = obj_prop cfg k))"
  using assms
  by (cases args) (auto simp: SNS_def Let_def obj_prop_config_update js_or_def split: if_splits)

subsection \<open>Witnesses\<close>

theorem SNS_rejects_witness:
  "JObj [(''accessKey'', JStr ''AK'')] \<noteq> JNull
   \<and> \<not> (\<exists>kvs. JObj [(''accessKey'', JStr ''AK'')] = JObj kvs \<and> js_truthy (obj_prop kvs ''accessKey'')
          \<and> js_truthy (obj_prop kvs ''secretKey''))
   \<and> SNS (JObj [(''accessKey'', JStr ''AK'')]) [] = (Inl sns_config_error, [])"
proof -
  have h: "\<not> (\<exists>kvs. JObj [(''accessKey'', JStr ''AK'')] = JObj kvs \<and> js_truthy (obj_prop kvs ''accessKey'')
          \<and> js_truthy (obj_prop kvs ''secretKey''))"
    by (simp add: obj_prop_def)
  show ?thesis using h SNS_rejects [OF _ h, of "[]"] by simp
qed

theorem SNS_credentials_witness:
  "SNS (JObj [(''accessKey'', JStr ''AK''), (''secretKey'', JStr ''SK'')]) [(''maxRetries'', JNum 3)] =
     (Inr \<lparr>sns = \<lparr>client_config = [(''maxRetries'', JNum 3), (''accessKeyId'', JStr ''AK''),
        (''secretAccessKey'', JStr ''SK''), (''region'', JStr ''us-east-1'')]\<rparr>\<rparr>,
      [(''maxRetries'', JNum 3), (''accessKeyId'', JStr ''AK''), (''secretAccessKey'', JStr ''SK''),
       (''region'', JStr ''us-east-1'')])
   \<and> obj_prop [(''maxRetries'', JNum 3), (''accessKeyId'', JStr ''AK''), (''secretAccessKey'', JStr ''SK''),
       (''region'', JStr ''us-east-1'')] ''region'' = JStr DEFAULT_REGION"
proof -
  have run: "SNS (JObj [(''accessKey'', JStr ''AK''), (''secretKey'', JStr ''SK'')]) [(''maxRetries'', JNum 3)] =
     (Inr \<lparr>sns = \<lparr>client_config = [(''maxRetries'', JNum 3), (''accessKeyId'', JStr ''AK''),
        (''secretAccessKey'', JStr ''SK''), (''region'', JStr ''us-east-1'')]\<rparr>\<rparr>,
      [(''maxRetries'', JNum 3), (''accessKeyId'', JStr ''AK''), (''secretAccessKey'', JStr ''SK''),
       (''region'', JStr ''us-east-1'')])"
    by (simp add: SNS_def obj_prop_def aws_config_update_def js_or_def DEFAULT_REGION_def Let_def)
  show ?thesis using SNS_credentials [OF run] run by (simp add: obj_prop_def)
qed

end
