(* ===== verification/SNS_Payload.thy ===== *)
theory SNS_Payload
  imports SNS_Config
begin

text \<open>
  The payload builder \<^verbatim>\<open>generatePayload(data)\<close> (\<^verbatim>\<open>src/src/SNS.js\<close> lines 28--42)
  and the attribute builder \<^verbatim>\<open>generateMessageAttributes(data)\<close> (lines 45--56).
  The collaborators the builder calls and that are not part of this file (the GCM and
  APNS encoders of \<^verbatim>\<open>./GCM\<close> and \<^verbatim>\<open>./APNS\<close>, \<^verbatim>\<open>randomString\<close> of
  \<^verbatim>\<open>./PushAdapterUtils\<close> and \<^verbatim>\<open>Date.now\<close>) are fields of a record passed in, so that every
  lemma holds for any encoder; an encoder may throw (\<open>Inl\<close>), and the exception
  propagates out of \<^verbatim>\<open>generatePayload\<close>.
\<close>

record collaborators =
  generateGCMPayload :: "jsval \<Rightarrow> string \<Rightarrow> int \<Rightarrow> jsval \<Rightarrow> js_error + jsval"
  generateNotification :: "jsval \<Rightarrow> jsval \<Rightarrow> js_error + jsval"
  randomString :: "nat \<Rightarrow> string"
  date_now :: int

text \<open>
  The argument expressions are evaluated left to right: \<^verbatim>\<open>data.data\<close> (which throws
  when \<^verbatim>\<open>data\<close> is \<^verbatim>\<open>null\<close> or \<^verbatim>\<open>undefined\<close>), \<^verbatim>\<open>randomString(10)\<close>,
  \<^verbatim>\<open>Date.now()\<close>, \<^verbatim>\<open>data.expirationTime\<close>; the GCM encoder runs before the APNS
  encoder. The bundle's keys are in the order of the object literal.
\<close>

definition generatePayload :: "collaborators \<Rightarrow> jsval \<Rightarrow> js_error + jsval" where
  "generatePayload env data =
     ebind (js_get data ''data'') (\<lambda>d.
     ebind (js_get data ''expirationTime'') (\<lambda>exp.
     ebind (generateGCMPayload env d (randomString env 10) (date_now env) exp) (\<lambda>gcmPayload.
     ebind (generateNotification env d exp) (\<lambda>apnsPayload.
       let admPayload = JObj [(''data'', d)];
           wnsPayload = d
       in Inr (JObj
            [(''GCM'', json_stringify_val gcmPayload),
             (''APNS'', json_stringify_val apnsPayload),
             (''APNS_SANDBOX'', json_stringify_val apnsPayload),
             (''ADM'', json_stringify_val admPayload),
             (''WNS'', json_stringify_val wnsPayload),
             (''default'', json_stringify_val d)])))))"

text \<open>The attribute builder ignores its argument and returns two WNS routing hints.\<close>

definition generateMessageAttributes :: "jsval \<Rightarrow> jsval" where
  "generateMessageAttributes data =
     JObj [(''AWS.SNS.MOBILE.WNS.Type'',
              JObj [(''DataType'', JStr ''String''), (''StringValue'', JStr ''wns/raw'')]),
           (''AWS.SNS.MOBILE.WNS.CachePolicy'',
              JObj [(''DataType'', JStr ''String''), (''StringValue'', JStr ''cache'')])]"

definition platform_keys :: "string list" where
  "platform_keys = [''GCM'', ''APNS'', ''APNS_SANDBOX'', ''ADM'', ''WNS'', ''default'']"

lemma generatePayload_Inr:
  "generatePayload env data = Inr b \<longleftrightarrow>
   (\<exists>g a. \<not> js_nullish data
      \<and> generateGCMPayload env (js_prop data ''data'') (randomString env 10) (date_now env)
          (js_prop data ''expirationTime'') = Inr g
      \<and> generateNotification env (js_prop data ''data'') (js_prop data ''expirationTime'') = Inr a
      \<and> b = JObj
            [(''GCM'', json_stringify_val g),
             (''APNS'', json_stringify_val a),
             (''APNS_SANDBOX'', json_stringify_val a),
             (''ADM'', json_stringify_val (JObj [(''data'', js_prop data ''data'')])),
             (''WNS'', json_stringify_val (js_prop data ''data'')),
             (''default'', json_stringify_val (js_prop data ''data''))])"
  by (auto simp: generatePayload_def ebind_eq_Inr Let_def js_get_Inr_iff)

subsection \<open>Properties of the payload bundle\<close>

text \<open>
  C10. A built bundle has exactly the six platform keys in the fixed order; the
  \<^verbatim>\<open>APNS\<close> and \<^verbatim>\<open>APNS_SANDBOX\<close> entries are the same value; \<^verbatim>\<open>ADM\<close> is always
  a string; \<^verbatim>\<open>WNS\<close> and \<^verbatim>\<open>default\<close> are equal, and are strings exactly when
  \<^verbatim>\<open>data.data\<close> is not \<^verbatim>\<open>undefined\<close>.
\<close>

theorem generatePayload_bundle:
  assumes "generatePayload env data = Inr b"
  shows "\<exists>kvs. b = JObj kvs \<and> map fst kvs = platform_keys
     \<and> obj_prop kvs ''APNS'' = obj_prop kvs ''APNS_SANDBOX''
     \<and> (\<exists>s. obj_prop kvs ''ADM'' = JStr s)
     \<and> obj_prop kvs ''WNS'' = obj_prop kvs ''default''
     \<and> ((\<exists>s. obj_prop kvs ''default'' = JStr s) \<longleftrightarrow> js_prop data ''data'' \<noteq> JUndefined)"
proof -
  from assms obtain g a where b: "b = JObj
            [(''GCM'', json_stringify_val g),
             (''APNS'', json_stringify_val a),
             (''APNS_SANDBOX'', json_stringify_val a),
             (''ADM'', json_stringify_val (JObj [(''data'', js_prop data ''data'')])),
             (''WNS'', json_stringify_val (js_prop data ''data'')),
             (''default'', json_stringify_val (js_prop data ''data''))]"
    by (auto simp: generatePayload_Inr)
  have adm: "\<exists>s. json_stringify_val (JObj [(''data'', js_prop data ''data'')]) = JStr s"
    by (simp add: json_stringify_val_is_str)
  show ?thesis
    by (rule exI, rule conjI [OF b]) (simp add: platform_keys_def obj_prop_def adm json_stringify_val_is_str)
qed

text \<open>
  C11. Building twice from the same request, with any random identifier, clock or GCM
  encoder, gives bundles that differ at most in the \<^verbatim>\<open>GCM\<close> entry.
\<close>

theorem generatePayload_only_gcm_varies:
  assumes "generatePayload env data = Inr (JObj kvs)"
    and "generatePayload env' data = Inr (JObj kvs')"
    and "generateNotification env' = generateNotification env"
  shows "map fst kvs = map fst kvs' \<and> tl kvs = tl kvs'"
  using assms by (auto simp: generatePayload_Inr)

text \<open>
  C12. When the request has no \<^verbatim>\<open>data\<close> field, \<^verbatim>\<open>JSON.stringify(undefined)\<close> is
  \<^verbatim>\<open>undefined\<close>: the \<^verbatim>\<open>WNS\<close> and \<^verbatim>\<open>default\<close> entries are \<^verbatim>\<open>undefined\<close> and
  \<^verbatim>\<open>ADM\<close> is the string \<^verbatim>\<open>{}\<close>.
\<close>

theorem generatePayload_no_data:
  assumes "generatePayload env data = Inr (JObj kvs)"
    and "js_prop data ''data'' = JUndefined"
  shows "obj_prop kvs ''WNS'' = JUndefined \<and> obj_prop kvs ''default'' = JUndefined
     \<and> obj_prop kvs ''ADM'' = JStr ''{}''"
  using assms by (auto simp: generatePayload_Inr obj_prop_def json_stringify_val_def)

text \<open>
  C13. Errors of the builder: a \<^verbatim>\<open>null\<close> or \<^verbatim>\<open>undefined\<close> request throws a
  \<^verbatim>\<open>TypeError\<close>; an exception of the GCM encoder propagates unchanged; so does one
  of the APNS encoder when the GCM encoder returned.
\<close>

theorem generatePayload_errors:
  "(js_nullish data \<longrightarrow> (\<exists>e. generatePayload env data = Inl (TypeError e)))
   \<and> (generateGCMPayload env (js_prop data ''data'') (randomString env 10) (date_now env)
          (js_prop data ''expirationTime'') = Inl e \<longrightarrow> \<not> js_nullish data \<longrightarrow>
        generatePayload env data = Inl e)
   \<and> (\<forall>g. generateGCMPayload env (js_prop data ''data'') (randomString env 10) (date_now env)
          (js_prop data ''expirationTime'') = Inr g \<longrightarrow> \<not> js_nullish data \<longrightarrow>
        generateNotification env (js_prop data ''data'') (js_prop data ''expirationTime'') = Inl e \<longrightarrow>
        generatePayload env data = Inl e)"
  by (auto simp: generatePayload_def js_nullish_def js_get_eq_prop)

subsection \<open>Example collaborators and witnesses\<close>

text \<open>Two stand-in environments that differ in the random identifier and the clock.\<close>

definition example_env :: collaborators where
  "example_env =
     \<lparr>generateGCMPayload = (\<lambda>d pid t e. Inr (JObj [(''push_id'', JStr pid), (''time'', JNum t), (''data'', d)])),
      generateNotification = (\<lambda>d e. Inr (JObj [(''aps'', d)])),
      randomString = (\<lambda>n. replicate n (CHR ''a'')),
      date_now = 1000\<rparr>"

definition example_env' :: collaborators where
  "example_env' = example_env\<lparr>randomString := (\<lambda>n. replicate n (CHR ''b'')), date_now := 2000\<rparr>"

definition example_request :: jsval where
  "example_request = JObj [(''data'', JObj [(''alert'', JStr ''hi'')]), (''expirationTime'', JNum 1000)]"

lemma example_payload_Inr:
  "\<exists>kvs. generatePayload example_env example_request = Inr (JObj kvs)"
  "\<exists>kvs. generatePayload example_env' example_request = Inr (JObj kvs)"
  "\<exists>kvs. generatePayload example_env (JObj [(''badge'', JNum 1)]) = Inr (JObj kvs)"
  unfolding generatePayload_def example_env'_def example_env_def example_request_def
  by simp_all

theorem generatePayload_bundle_witness:
  "\<exists>b. generatePayload example_env example_request = Inr b \<and>
     (\<exists>kvs. b = JObj kvs \<and> map fst kvs = platform_keys
        \<and> obj_prop kvs ''APNS'' = obj_prop kvs ''APNS_SANDBOX''
        \<and> (\<exists>s. obj_prop kvs ''ADM'' = JStr s)
        \<and> obj_prop kvs ''WNS'' = obj_prop kvs ''default''
        \<and> ((\<exists>s. obj_prop kvs ''default'' = JStr s) \<longleftrightarrow> js_prop example_request ''data'' \<noteq> JUndefined))"
proof -
  obtain kvs where r: "generatePayload example_env example_request = Inr (JObj kvs)"
    using example_payload_Inr(1) by blast
  show ?thesis
    by (rule exI [of _ "JObj kvs"], rule conjI [OF r], rule generatePayload_bundle [OF r])
qed

theorem generatePayload_only_gcm_varies_witness:
  "\<exists>kvs kvs'. generatePayload example_env example_request = Inr (JObj kvs)
     \<and> generatePayload example_env' example_request = Inr (JObj kvs')
     \<and> generateNotification example_env' = generateNotification example_env
     \<and> map fst kvs = map fst kvs' \<and> tl kvs = tl kvs'"
proof -
  obtain kvs kvs' where r: "generatePayload example_env example_request = Inr (JObj kvs)"
      "generatePayload example_env' example_request = Inr (JObj kvs')"
    using example_payload_Inr(1,2) by blast
  have n: "generateNotification example_env' = generateNotification example_env"
    by (simp add: example_env'_def)
  show ?thesis using generatePayload_only_gcm_varies [OF r n] r n by blast
qed

theorem generatePayload_no_data_witness:
  "\<exists>kvs. generatePayload example_env (JObj [(''badge'', JNum 1)]) = Inr (JObj kvs)
     \<and> js_prop (JObj [(''badge'', JNum 1)]) ''data'' = JUndefined
     \<and> obj_prop kvs ''WNS'' = JUndefined \<and> obj_prop kvs ''default'' = JUndefined
     \<and> obj_prop kvs ''ADM'' = JStr ''{}''"
proof -
  obtain kvs where r: "generatePayload example_env (JObj [(''badge'', JNum 1)]) = Inr (JObj kvs)"
    using example_payload_Inr(3) by blast
  have d: "js_prop (JObj [(''badge'', JNum 1)]) ''data'' = JUndefined"
    by (simp add: obj_prop_def)
  show ?thesis using generatePayload_no_data [OF r d] r d by blast
qed

theorem generatePayload_errors_witness:
  "\<exists>e. generatePayload example_env JNull = Inl (TypeError e)"
  using generatePayload_errors [of JNull example_env] by (simp add: js_nullish_def)

end
