(* ===== verification/SNS_Publish.thy ===== *)
theory SNS_Publish
  imports SNS_Payload
begin

text \<open>
  One delivery: the parameters \<^verbatim>\<open>publishToSNS\<close> hands to \<^verbatim>\<open>sns.publish\<close>
  (\<^verbatim>\<open>src/src/SNS.js\<close> lines 70--75) and the completion callback the transport invokes
  with \<^verbatim>\<open>(err, data)\<close> (lines 77--102). The callback is a function of the device it
  closes over, the transport's two arguments and the global bindings visible to the
  module; it returns the log records it wrote and either the exception it threw or
  the value it passed to \<^verbatim>\<open>promise.resolve\<close>. Line 86 reads the identifier
  \<^verbatim>\<open>arn\<close>, which no scope of the module declares: the read resolves in the global
  object, and throws a \<^verbatim>\<open>ReferenceError\<close> when that has no such binding.
\<close>

datatype log_entry = LogError "jsval list" | LogVerbose "jsval list"

type_synonym global_env = "string \<Rightarrow> jsval option"

definition js_lookup_var :: "global_env \<Rightarrow> string \<Rightarrow> js_error + jsval" where
  "js_lookup_var g x = (case g x of None \<Rightarrow> Inl (ReferenceError (x @ '' is not defined'')) | Some v \<Rightarrow> Inr v)"

text \<open>The \<^verbatim>\<open>params\<close> object of lines 70--75.\<close>

definition publish_params :: "jsval \<Rightarrow> jsval \<Rightarrow> jsval \<Rightarrow> js_error + jsval" where
  "publish_params device payload messageAttributes =
     ebind (js_get device ''deviceToken'') (\<lambda>tok.
       Inr (JObj [(''Message'', json_stringify_val payload),
                  (''MessageStructure'', JStr ''json''),
                  (''TargetArn'', tok),
                  (''MessageAttributes'', messageAttributes)]))"

text \<open>
  The callback of lines 77--102. The \<^verbatim>\<open>response\<close> literal reads
  \<^verbatim>\<open>device.deviceType\<close> and calls \<^verbatim>\<open>device.deviceToken.toString('hex')\<close>. On the
  error branch the arguments of \<^verbatim>\<open>log.error\<close> are evaluated before the call, so the
  read of \<^verbatim>\<open>arn\<close> throws before anything is logged; otherwise the branch sets
  \<^verbatim>\<open>transmitted\<close> to false and copies a truthy \<^verbatim>\<open>err.stack\<close> into
  \<^verbatim>\<open>response\<close>. The success branch logs the message id when
  \<^verbatim>\<open>data && data.MessageId\<close> is truthy and records \<^verbatim>\<open>data\<close> as the response.
\<close>

definition publish_callback ::
    "global_env \<Rightarrow> jsval \<Rightarrow> jsval \<Rightarrow> jsval \<Rightarrow> log_entry list \<times> (js_error + jsval)" where
  "publish_callback g device err data =
     (case ebind (js_get device ''deviceType'') (\<lambda>dt.
           ebind (js_get device ''deviceToken'') (\<lambda>tok.
           ebind (js_to_string_hex tok) (\<lambda>hex.
             Inr (JObj [(''device'', JObj [(''deviceType'', dt), (''deviceToken'', JStr hex)])])))) of
        Inl e \<Rightarrow> ([], Inl e)
      | Inr response \<Rightarrow>
          if \<not> js_nullish err then
            (case js_lookup_var g ''arn'' of
               Inl e \<Rightarrow> ([], Inl e)
             | Inr arn \<Rightarrow>
                 ([LogError [JStr LOG_PREFIX, JStr ''Error sending push: '', arn],
                   LogVerbose [JStr LOG_PREFIX, JStr ''Error details: '', err]],
                  ebind (js_set response ''transmitted'' (JBool False)) (\<lambda>r.
                  ebind (js_get err ''stack'') (\<lambda>st.
                    if js_truthy st then js_set r ''response'' st else Inr r))))
          else
            (case (if js_truthy data then js_get data ''MessageId'' else Inr data) of
               Inl e \<Rightarrow> ([], Inl e)
             | Inr mid \<Rightarrow>
                 (if js_truthy mid
                  then [LogVerbose [JStr LOG_PREFIX, JStr (''Successfully sent push to '' @ js_to_string mid)]]
                  else [],
                  ebind (js_set response ''transmitted'' (JBool True)) (\<lambda>r.
                    js_set r ''response'' data))))"

subsection \<open>The outcome records\<close>

text \<open>The \<^verbatim>\<open>device\<close> part of an outcome, when the device's fields can be read.\<close>

definition device_record :: "jsval \<Rightarrow> js_error + jsval" where
  "device_record device =
     ebind (js_get device ''deviceType'') (\<lambda>dt.
     ebind (js_get device ''deviceToken'') (\<lambda>tok.
     ebind (js_to_string_hex tok) (\<lambda>hex.
       Inr (JObj [(''deviceType'', dt), (''deviceToken'', JStr hex)]))))"

text \<open>A device the callback can describe: a non-null object whose token has a hex form.\<close>

definition device_ok :: "jsval \<Rightarrow> bool" where
  "device_ok device \<longleftrightarrow> (\<exists>r. device_record device = Inr r)"

lemma device_ok_token:
  "\<not> js_nullish device \<Longrightarrow> device_ok device \<longleftrightarrow>
     (\<exists>hex. js_to_string_hex (js_prop device ''deviceToken'') = Inr hex)"
  by (auto simp: device_ok_def device_record_def js_get_eq_prop ebind_eq_Inr)

lemma device_ok_not_nullish: "device_ok device \<Longrightarrow> \<not> js_nullish device"
  by (auto simp: device_ok_def device_record_def js_nullish_def)

lemma publish_callback_response:
  "publish_callback g device err data =
     (case device_record device of
        Inl e \<Rightarrow> ([], Inl e)
      | Inr dev \<Rightarrow>
          let response = JObj [(''device'', dev)] in
          if \<not> js_nullish err then
            (case js_lookup_var g ''arn'' of
               Inl e \<Rightarrow> ([], Inl e)
             | Inr arn \<Rightarrow>
                 ([LogError [JStr LOG_PREFIX, JStr ''Error sending push: '', arn],
                   LogVerbose [JStr LOG_PREFIX, JStr ''Error details: '', err]],
                  ebind (js_set response ''transmitted'' (JBool False)) (\<lambda>r.
                  ebind (js_get err ''stack'') (\<lambda>st.
                    if js_truthy st then js_set r ''response'' st else Inr r))))
          else
            (case (if js_truthy data then js_get data ''MessageId'' else Inr data) of
               Inl e \<Rightarrow> ([], Inl e)
             | Inr mid \<Rightarrow>
                 (if js_truthy mid
                  then [LogVerbose [JStr LOG_PREFIX, JStr (''Successfully sent push to '' @ js_to_string mid)]]
                  else [],
                  ebind (js_set response ''transmitted'' (JBool True)) (\<lambda>r.
                    js_set r ''response'' data))))"
  unfolding publish_callback_def device_record_def
  by (auto simp: ebind_def Let_def split: sum.splits)

lemma callback_error_result:
  assumes "device_record device = Inr dev" and "\<not> js_nullish err" and "g ''arn'' = None"
  shows "snd (publish_callback g device err data) = Inl (ReferenceError ''arn is not defined'')"
  using assms by (simp add: publish_callback_response js_lookup_var_def)

lemma device_record_JObj:
  "device_record (JObj kvs) =
     ebind (js_to_string_hex (obj_prop kvs ''deviceToken'')) (\<lambda>hex.
       Inr (JObj [(''deviceType'', obj_prop kvs ''deviceType''), (''deviceToken'', JStr hex)]))"
  by (simp add: device_record_def)

lemma js_falsy_prop: "\<not> js_truthy v \<Longrightarrow> \<not> js_truthy (js_prop v k)"
  by (cases v) (auto simp: js_prop_def)

text \<open>The guard \<^verbatim>\<open>data && data.MessageId\<close> of line 92.\<close>

lemma success_message_id:
  "(if js_truthy data then js_get data ''MessageId'' else Inr data) = Inr mid \<Longrightarrow>
     js_truthy mid \<longleftrightarrow> js_truthy (js_prop data ''MessageId'')"
  "(if js_truthy data then js_get data ''MessageId'' else Inr data) = Inr mid \<Longrightarrow>
     js_truthy mid \<Longrightarrow> mid = js_prop data ''MessageId''"
  by (auto simp: js_truthy_get js_falsy_prop split: if_splits)

lemma callback_success_logs:
  assumes "device_record device = Inr dev" and "js_nullish err"
  shows "fst (publish_callback g device err data) =
     (if js_truthy (js_prop data ''MessageId'')
      then [LogVerbose [JStr LOG_PREFIX, JStr (''Successfully sent push to '' @ js_to_string (js_prop data ''MessageId''))]]
      else [])"
proof -
  obtain mid where m: "(if js_truthy data then js_get data ''MessageId'' else Inr data) = Inr mid"
    by (cases "js_truthy data") (auto simp: js_truthy_get)
  show ?thesis
    using assms m success_message_id [OF m] by (simp add: publish_callback_response)
qed

text \<open>With \<^verbatim>\<open>arn\<close> bound, the callback always resolves, flagging the transport's verdict.\<close>

lemma callback_resolves_with_arn:
  assumes "device_record device = Inr dev" and "g ''arn'' = Some a"
  shows "\<exists>v. snd (publish_callback g device err data) = Inr v
     \<and> js_prop v ''device'' = dev \<and> js_prop v ''transmitted'' = JBool (js_nullish err)"
proof (cases "js_nullish err")
  case True
  obtain mid where m: "(if js_truthy data then js_get data ''MessageId'' else Inr data) = Inr mid"
    by (cases "js_truthy data") (auto simp: js_truthy_get)
  show ?thesis using assms True m by (simp add: publish_callback_response obj_prop_def)
next
  case False
  have "js_get err ''stack'' = Inr (js_prop err ''stack'')" using False by (rule js_get_eq_prop)
  then show ?thesis using assms False
    by (simp add: publish_callback_response js_lookup_var_def obj_prop_def)
qed

lemma device_record_shape:
  "device_record d = Inr dev \<Longrightarrow> \<exists>dt h. dev = JObj [(''deviceType'', dt), (''deviceToken'', JStr h)]"
  by (auto simp: device_record_def ebind_eq_Inr)

subsection \<open>Behaviour of the completion callback\<close>

text \<open>
  C5. On a transport error (\<^verbatim>\<open>err != null\<close>) the callback throws
  \<^verbatim>\<open>ReferenceError: arn is not defined\<close> at line 86, before it logs anything and
  before \<^verbatim>\<open>promise.resolve\<close>, whenever the global object has no \<^verbatim>\<open>arn\<close>: the
  per-device promise is never settled.
\<close>

theorem callback_error_throws:
  assumes "device_record device = Inr dev" and "\<not> js_nullish err" and "g ''arn'' = None"
  shows "publish_callback g device err data = ([], Inl (ReferenceError ''arn is not defined''))"
  using assms by (simp add: publish_callback_response js_lookup_var_def)

text \<open>
  C6. On success (\<^verbatim>\<open>err\<close> is \<^verbatim>\<open>null\<close> or \<^verbatim>\<open>undefined\<close>) the callback resolves
  with \<^verbatim>\<open>{device, transmitted: true, response: data}\<close>, whatever \<^verbatim>\<open>data\<close> is.
\<close>

theorem callback_success:
  assumes "device_record device = Inr dev" and "js_nullish err"
  shows "snd (publish_callback g device err data) =
           Inr (JObj [(''device'', dev), (''transmitted'', JBool True), (''response'', data)])"
  using assms
  by (auto simp: publish_callback_response Let_def js_truthy_get js_nullish_def split: sum.splits)

text \<open>
  C7. The failure record the error branch was written to produce: were \<^verbatim>\<open>arn\<close>
  bound, the callback would resolve with \<^verbatim>\<open>{device, transmitted: false}\<close> and a
  \<^verbatim>\<open>response\<close> field holding \<^verbatim>\<open>err.stack\<close> when that is truthy.
\<close>

theorem callback_error_with_arn:
  assumes "device_record device = Inr dev" and "\<not> js_nullish err" and "g ''arn'' = Some a"
  shows "snd (publish_callback g device err data) =
           Inr (JObj ([(''device'', dev), (''transmitted'', JBool False)] @
                 (if js_truthy (js_prop err ''stack'') then [(''response'', js_prop err ''stack'')] else [])))"
  using assms by (simp add: publish_callback_response js_lookup_var_def js_get_eq_prop)

text \<open>
  C19. The \<^verbatim>\<open>deviceToken\<close> an outcome records for a \<^verbatim>\<open>Buffer\<close> token is its
  lower-case hex form: two characters per byte, and decoding it gives back the bytes
  of the token.
\<close>

theorem outcome_token_roundtrip:
  assumes "obj_prop kvs ''deviceToken'' = JBuf bs"
  shows "\<exists>h. device_record (JObj kvs) =
      Inr (JObj [(''deviceType'', obj_prop kvs ''deviceType''), (''deviceToken'', JStr h)])
    \<and> hex_decode h = Some bs \<and> length h = 2 * length bs"
  using assms by (simp add: device_record_JObj hex_decode_encode length_hex_encode)

text \<open>
  C20. Other token forms: \<^verbatim>\<open>toString('hex')\<close> on a string token returns the
  string unchanged, so the outcome records it verbatim, not in hex; on a number token it
  reads \<^verbatim>\<open>'hex'\<close> as a radix and throws a \<^verbatim>\<open>RangeError\<close>, so the callback throws
  before logging or resolving, on success and on error alike.
\<close>

theorem callback_token_forms:
  "(obj_prop kvs ''deviceToken'' = JStr s \<longrightarrow>
      device_record (JObj kvs) = Inr (JObj [(''deviceType'', obj_prop kvs ''deviceType''), (''deviceToken'', JStr s)]))
   \<and> (obj_prop kvs ''deviceToken'' = JNum n \<longrightarrow>
      publish_callback g (JObj kvs) err data = ([], Inl (RangeError ''toString() radix must be between 2 and 36'')))"
  by (simp add: device_record_JObj publish_callback_response)

text \<open>
  C21. What the callback logs: on success one verbose line naming the message id, when
  \<^verbatim>\<open>data.MessageId\<close> is truthy, and nothing otherwise; on a transport error nothing
  when \<^verbatim>\<open>arn\<close> is unbound (the read throws first), and otherwise an error line with
  \<^verbatim>\<open>arn\<close> followed by a verbose line with the error.
\<close>

theorem callback_logs:
  assumes "device_record device = Inr dev"
  shows "(js_nullish err \<longrightarrow> fst (publish_callback g device err data) =
            (if js_truthy (js_prop data ''MessageId'')
             then [LogVerbose [JStr LOG_PREFIX, JStr (''Successfully sent push to '' @ js_to_string (js_prop data ''MessageId''))]]
             else []))
    \<and> (\<not> js_nullish err \<longrightarrow> g ''arn'' = None \<longrightarrow> fst (publish_callback g device err data) = [])
    \<and> (\<not> js_nullish err \<longrightarrow> g ''arn'' = Some a \<longrightarrow> fst (publish_callback g device err data) =
          [LogError [JStr LOG_PREFIX, JStr ''Error sending push: '', a],
           LogVerbose [JStr LOG_PREFIX, JStr ''Error details: '', err]])"
  using assms callback_success_logs [OF assms]
  by (simp add: publish_callback_response js_lookup_var_def)

text \<open>
  C27. The type of an outcome: whatever the callback resolves with is an object whose
  first member is \<^verbatim>\<open>device\<close>, itself \<^verbatim>\<open>{deviceType, deviceToken}\<close> with a string
  token, whose second is the boolean \<^verbatim>\<open>transmitted\<close>, true exactly when
  \<^verbatim>\<open>err\<close> is \<^verbatim>\<open>null\<close> or \<^verbatim>\<open>undefined\<close>, and which has at most one more member,
  \<^verbatim>\<open>response\<close>.
\<close>

theorem callback_outcome_type:
  assumes "snd (publish_callback g device err data) = Inr v"
  shows "\<exists>dt h rest. v = JObj ((''device'', JObj [(''deviceType'', dt), (''deviceToken'', JStr h)])
             # (''transmitted'', JBool (js_nullish err)) # rest)
           \<and> map fst rest \<in> {[], [''response'']}"
proof (cases "device_record device")
  case (Inl e)
  with assms show ?thesis by (simp add: publish_callback_response)
next
  case (Inr dev)
  from device_record_shape [OF Inr] obtain dt h where dev: "dev = JObj [(''deviceType'', dt), (''deviceToken'', JStr h)]"
    by blast
  show ?thesis
  proof (cases "js_nullish err")
    case True
    with assms Inr dev show ?thesis
      by (auto simp: publish_callback_response split: sum.splits if_splits)
  next
    case False
    with assms Inr dev show ?thesis
      by (auto simp: publish_callback_response js_lookup_var_def js_get_eq_prop split: option.splits if_splits)
  qed
qed

subsection \<open>Witnesses\<close>

definition example_device :: jsval where
  "example_device = JObj [(''deviceType'', JStr ''ios''), (''deviceToken'', JStr ''tok1'')]"

definition example_error :: jsval where
  "example_error = JObj [(''code'', JStr ''EndpointDisabled''), (''stack'', JStr ''Error: disabled'')]"

lemma example_device_record:
  "device_record example_device = Inr (JObj [(''deviceType'', JStr ''ios''), (''deviceToken'', JStr ''tok1'')])"
  by (simp add: device_record_def example_device_def obj_prop_def)

lemma example_error_not_nullish: "\<not> js_nullish example_error"
  by (simp add: example_error_def js_nullish_def)

theorem callback_error_throws_witness:
  "publish_callback Map.empty example_device example_error JNull =
     ([], Inl (ReferenceError ''arn is not defined''))"
  by (rule callback_error_throws [OF example_device_record example_error_not_nullish]) simp

theorem callback_success_witness:
  "snd (publish_callback Map.empty example_device JNull (JObj [(''MessageId'', JStr ''m1'')])) =
     Inr (JObj [(''device'', JObj [(''deviceType'', JStr ''ios''), (''deviceToken'', JStr ''tok1'')]),
                (''transmitted'', JBool True), (''response'', JObj [(''MessageId'', JStr ''m1'')])])"
  by (rule callback_success [OF example_device_record]) (simp add: js_nullish_def)

theorem callback_error_with_arn_witness:
  "snd (publish_callback (Map.empty(''arn'' \<mapsto> JStr ''x'')) example_device example_error JNull) =
     Inr (JObj [(''device'', JObj [(''deviceType'', JStr ''ios''), (''deviceToken'', JStr ''tok1'')]),
                (''transmitted'', JBool False), (''response'', JStr ''Error: disabled'')])"
proof -
  have "snd (publish_callback (Map.empty(''arn'' \<mapsto> JStr ''x'')) example_device example_error JNull) =
     Inr (JObj ([(''device'', JObj [(''deviceType'', JStr ''ios''), (''deviceToken'', JStr ''tok1'')]),
                 (''transmitted'', JBool False)] @
           (if js_truthy (js_prop example_error ''stack'') then [(''response'', js_prop example_error ''stack'')] else [])))"
    by (rule callback_error_with_arn [OF example_device_record example_error_not_nullish]) simp
  then show ?thesis by (simp add: example_error_def obj_prop_def)
qed

theorem outcome_token_roundtrip_witness:
  "\<exists>h. device_record (JObj [(''deviceType'', JStr ''android''), (''deviceToken'', JBuf [0xab, 0x01])]) =
      Inr (JObj [(''deviceType'', JStr ''android''), (''deviceToken'', JStr h)])
    \<and> hex_decode h = Some [0xab, 0x01] \<and> length h = 4"
  using outcome_token_roundtrip [of "[(''deviceType'', JStr ''android''), (''deviceToken'', JBuf [0xab, 0x01])]"
      "[0xab, 0x01]"]
  by (simp add: obj_prop_def)

theorem callback_token_forms_witness:
  "device_record example_device = Inr (JObj [(''deviceType'', JStr ''ios''), (''deviceToken'', JStr ''tok1'')])
   \<and> publish_callback Map.empty (JObj [(''deviceType'', JStr ''ios''), (''deviceToken'', JNum 42)]) JNull JNull =
      ([], Inl (RangeError ''toString() radix must be between 2 and 36''))"
proof -
  have s: "obj_prop [(''deviceType'', JStr ''ios''), (''deviceToken'', JStr ''tok1'')] ''deviceToken'' = JStr ''tok1''"
    and n: "obj_prop [(''deviceType'', JStr ''ios''), (''deviceToken'', JNum 42)] ''deviceToken'' = JNum 42"
    by (simp_all add: obj_prop_def)
  show ?thesis
    using callback_token_forms [of "[(''deviceType'', JStr ''ios''), (''deviceToken'', JStr ''tok1'')]" "''tok1''"]
          callback_token_forms [of "[(''deviceType'', JStr ''ios''), (''deviceToken'', JNum 42)]" _ 42]
          s n
    by (simp add: example_device_def obj_prop_def)
qed

theorem callback_logs_witness:
  "fst (publish_callback Map.empty example_device JNull (JObj [(''MessageId'', JStr ''m1'')])) =
     [LogVerbose [JStr LOG_PREFIX, JStr ''Successfully sent push to m1'']]"
  using callback_logs [OF example_device_record, of JNull Map.empty "JObj [(''MessageId'', JStr ''m1'')]"]
  by (simp add: js_nullish_def obj_prop_def)

theorem callback_outcome_type_witness:
  "snd (publish_callback Map.empty example_device JNull (JObj [(''MessageId'', JStr ''m1'')])) =
     Inr (JObj [(''device'', JObj [(''deviceType'', JStr ''ios''), (''deviceToken'', JStr ''tok1'')]),
                (''transmitted'', JBool True), (''response'', JObj [(''MessageId'', JStr ''m1'')])])
   \<and> (\<exists>dt h rest. JObj [(''device'', JObj [(''deviceType'', JStr ''ios''), (''deviceToken'', JStr ''tok1'')]),
                (''transmitted'', JBool True), (''response'', JObj [(''MessageId'', JStr ''m1'')])] =
        JObj ((''device'', JObj [(''deviceType'', dt), (''deviceToken'', JStr h)])
             # (''transmitted'', JBool (js_nullish JNull)) # rest)
        \<and> map fst rest \<in> {[], [''response'']})"
proof -
  have r: "snd (publish_callback Map.empty example_device JNull (JObj [(''MessageId'', JStr ''m1'')])) =
     Inr (JObj [(''device'', JObj [(''deviceType'', JStr ''ios''), (''deviceToken'', JStr ''tok1'')]),
                (''transmitted'', JBool True), (''response'', JObj [(''MessageId'', JStr ''m1'')])])"
    by (simp add: publish_callback_def example_device_def obj_prop_def js_nullish_def)
  show ?thesis using callback_outcome_type [OF r] r by blast
qed

end
