(* ===== verification/Parse_Promise.thy ===== *)
theory Parse_Promise
  imports JS_Values
begin

text \<open>
  The two operations of the Parse SDK's promises that \<^verbatim>\<open>SNS.send\<close> relies on:
  \<^verbatim>\<open>promise.resolve(v)\<close>, which settles a pending promise and throws when the promise
  is already settled, and \<^verbatim>\<open>Parse.Promise.when(promises)\<close>, which joins an array of
  promises. \<^verbatim>\<open>when\<close> allocates a results array of the input's length and a counter
  \<^verbatim>\<open>total\<close> set to that length, registers on the \<open>i\<close>-th promise a callback
  that writes \<^verbatim>\<open>results[i]\<close> and decrements \<^verbatim>\<open>total\<close>, and resolves its own promise
  with the results array once \<^verbatim>\<open>total <= 0\<close>; an empty input is resolved at once
  with the empty array. A rejected input records its error in an \<^verbatim>\<open>errors\<close> array
  and sets \<^verbatim>\<open>hadError\<close>; when the last input settles, the joined promise is rejected
  with the errors array if any input was rejected, and resolved with the results
  otherwise. The adapter never rejects a promise; the rejection path is modelled so that
  the contract of \<^verbatim>\<open>when\<close> is stated in full (\<open>when_spec\<close>).

  The abstract contract for the adapter is a barrier: the joined promise is resolved
  exactly when every slot is filled, and then with the slots in input order.
  \<open>join_inv\<close> relates the counter implementation to it, and
  \<open>when_resolve_one_refines\<close> shows that one completion keeps the relation. The
  general contract \<open>when_rel\<close> relates the join to the states of its input
  promises, rejected ones included.
\<close>

datatype 'a promise_state = Pending | Resolved 'a | Rejected 'a

definition promise_value :: "'a promise_state \<Rightarrow> 'a option" where
  "promise_value p = (case p of Resolved v \<Rightarrow> Some v | _ \<Rightarrow> None)"

definition promise_error :: "'a promise_state \<Rightarrow> 'a option" where
  "promise_error p = (case p of Rejected e \<Rightarrow> Some e | _ \<Rightarrow> None)"

lemma promise_value_simps [simp]:
  "promise_value Pending = None" "promise_value (Resolved v) = Some v" "promise_value (Rejected e) = None"
  by (simp_all add: promise_value_def)

lemma promise_error_simps [simp]:
  "promise_error Pending = None" "promise_error (Resolved v) = None" "promise_error (Rejected e) = Some e"
  by (simp_all add: promise_error_def)

text \<open>\<^verbatim>\<open>promise.resolve(v)\<close> and \<^verbatim>\<open>promise.reject(e)\<close>: a settled promise throws.\<close>

definition promise_resolve :: "'a promise_state \<Rightarrow> 'a \<Rightarrow> js_error + 'a promise_state" where
  "promise_resolve p v =
     (case p of
        Pending \<Rightarrow> Inr (Resolved v)
      | Resolved _ \<Rightarrow> Inl (JSError ''A promise was resolved even though it had already been resolved.'')
      | Rejected _ \<Rightarrow> Inl (JSError ''A promise was resolved even though it had already been rejected.''))"

definition promise_reject :: "'a promise_state \<Rightarrow> 'a \<Rightarrow> js_error + 'a promise_state" where
  "promise_reject p e =
     (case p of
        Pending \<Rightarrow> Inr (Rejected e)
      | Resolved _ \<Rightarrow> Inl (JSError ''A promise was rejected even though it had already been resolved.'')
      | Rejected _ \<Rightarrow> Inl (JSError ''A promise was rejected even though it had already been rejected.''))"

record 'a join_state =
  results :: "'a option list"
  errors :: "'a option list"
  remaining :: int
  had_error :: bool
  aggregate :: "'a option list promise_state"

definition when_init :: "nat \<Rightarrow> 'a join_state" where
  "when_init n =
     \<lparr>results = replicate n None, errors = replicate n None, remaining = int n,
      had_error = False, aggregate = (if n = 0 then Resolved [] else Pending)\<rparr>"

text \<open>
  \<^verbatim>\<open>resolveOne\<close>, shared by both callbacks \<^verbatim>\<open>when\<close> registers on an input:
  decrement \<^verbatim>\<open>total\<close> and, once it is \<^verbatim>\<open><= 0\<close>, reject the joined promise with the
  errors or resolve it with the results. Settling the joined promise a second time would
  throw inside the callback; the exception is absorbed by the promise the callback
  belongs to.
\<close>

definition settle_or_keep :: "js_error + 'a promise_state \<Rightarrow> 'a promise_state \<Rightarrow> 'a promise_state" where
  "settle_or_keep r p = (case r of Inl _ \<Rightarrow> p | Inr p' \<Rightarrow> p')"

definition when_count_down :: "'a join_state \<Rightarrow> 'a join_state" where
  "when_count_down j =
     (let t = remaining j - 1;
          agg = (if t \<le> 0
                 then (if had_error j
                       then settle_or_keep (promise_reject (aggregate j) (errors j)) (aggregate j)
                       else settle_or_keep (promise_resolve (aggregate j) (results j)) (aggregate j))
                 else aggregate j)
      in j\<lparr>remaining := t, aggregate := agg\<rparr>)"

text \<open>The fulfilment callback on input \<open>i\<close>: \<^verbatim>\<open>results[i] = result; resolveOne()\<close>.\<close>

definition when_resolve_one :: "nat \<Rightarrow> 'a \<Rightarrow> 'a join_state \<Rightarrow> 'a join_state" where
  "when_resolve_one i v j = when_count_down (j\<lparr>results := (results j)[i := Some v]\<rparr>)"

text \<open>The rejection callback on input \<open>i\<close>:
  \<^verbatim>\<open>errors[i] = error; hadError = true; resolveOne()\<close>.\<close>

definition when_reject_one :: "nat \<Rightarrow> 'a \<Rightarrow> 'a join_state \<Rightarrow> 'a join_state" where
  "when_reject_one i e j = when_count_down (j\<lparr>errors := (errors j)[i := Some e], had_error := True\<rparr>)"

text \<open>How input \<open>i\<close> settles, and the callback of \<^verbatim>\<open>then\<close> that runs.\<close>

datatype 'a settlement = Fulfilled 'a | Failed 'a

fun settled_state :: "'a settlement \<Rightarrow> 'a promise_state" where
  "settled_state (Fulfilled v) = Resolved v"
| "settled_state (Failed e) = Rejected e"

fun when_settle :: "nat \<Rightarrow> 'a settlement \<Rightarrow> 'a join_state \<Rightarrow> 'a join_state" where
  "when_settle i (Fulfilled v) j = when_resolve_one i v j"
| "when_settle i (Failed e) j = when_reject_one i e j"

subsection \<open>The barrier contract and the counter implementation\<close>

definition barrier :: "'a option list \<Rightarrow> 'a option list promise_state" where
  "barrier rs = (if None \<in> set rs then Pending else Resolved rs)"

definition join_inv :: "'a join_state \<Rightarrow> bool" where
  "join_inv j \<longleftrightarrow> remaining j = int (count_list (results j) None) \<and> aggregate j = barrier (results j)
     \<and> errors j = replicate (length (results j)) None \<and> \<not> had_error j"

text \<open>
  The full contract of \<^verbatim>\<open>when\<close> over the states of its inputs: pending while an
  input is pending; then rejected with the errors array (one slot per input) if an input
  was rejected, and resolved with the results array otherwise. \<open>when_rel\<close> relates
  the implementation's arrays, counter and flag to the input states.
\<close>

definition when_spec :: "'a promise_state list \<Rightarrow> 'a option list promise_state" where
  "when_spec ps =
     (if Pending \<in> set ps then Pending
      else if list_ex (\<lambda>p. promise_error p \<noteq> None) ps then Rejected (map promise_error ps)
      else Resolved (map promise_value ps))"

definition when_rel :: "'a promise_state list \<Rightarrow> 'a join_state \<Rightarrow> bool" where
  "when_rel ps j \<longleftrightarrow> results j = map promise_value ps \<and> errors j = map promise_error ps
     \<and> remaining j = int (count_list ps Pending)
     \<and> had_error j = list_ex (\<lambda>p. promise_error p \<noteq> None) ps \<and> aggregate j = when_spec ps"

lemma join_inv_init: "join_inv (when_init n)"
  by (cases n) (auto simp: join_inv_def when_init_def barrier_def)

lemma results_when_init [simp]: "results (when_init n) = replicate n None"
  by (simp add: when_init_def)

lemma when_count_down_fields [simp]:
  "results (when_count_down j) = results j" "errors (when_count_down j) = errors j"
  "had_error (when_count_down j) = had_error j" "remaining (when_count_down j) = remaining j - 1"
  by (simp_all add: when_count_down_def Let_def)

lemma results_when_resolve_one [simp]: "results (when_resolve_one i v j) = (results j)[i := Some v]"
  by (simp add: when_resolve_one_def)

lemma aggregate_when_count_down:
  assumes "aggregate j = Pending"
  shows "aggregate (when_count_down j) =
    (if remaining j - 1 \<le> 0 then (if had_error j then Rejected (errors j) else Resolved (results j))
     else Pending)"
  using assms by (simp add: when_count_down_def Let_def settle_or_keep_def promise_resolve_def
                            promise_reject_def)

lemma when_resolve_one_refines:
  assumes "join_inv j" and "i < length (results j)" and "results j ! i = None"
  shows "join_inv (when_resolve_one i v j)"
proof -
  let ?rs = "(results j)[i := Some v]"
  have cnt: "count_list ?rs None = count_list (results j) None - 1"
    using assms(2,3) by (rule count_None_update_Some)
  have pos: "0 < count_list (results j) None"
    using assms(2,3) by (rule count_None_pos)
  have pend: "aggregate j = Pending"
    using assms(1,2,3) by (auto simp: join_inv_def barrier_def in_set_conv_nth)
  have rem: "remaining j - 1 = int (count_list ?rs None)"
    using assms(1) cnt pos by (simp add: join_inv_def of_nat_diff)
  have "remaining j - 1 \<le> 0 \<longleftrightarrow> None \<notin> set ?rs"
    using rem by (simp add: count_list_0_iff)
  then show ?thesis
    using assms(1) rem pend
    by (auto simp: join_inv_def when_resolve_one_def aggregate_when_count_down barrier_def)
qed

subsection \<open>The contract of \<^verbatim>\<open>when\<close>, rejection included\<close>

lemma list_ex_update_from:
  "i < length xs \<Longrightarrow> \<not> P (xs ! i) \<Longrightarrow> list_ex P (xs[i := x]) \<longleftrightarrow> list_ex P xs \<or> P x"
proof (induction xs arbitrary: i)
  case Nil then show ?case by simp
next
  case (Cons y ys) then show ?case by (cases i) auto
qed

lemma when_rel_init: "when_rel (replicate n Pending) (when_init n)"
  by (cases n) (simp_all add: when_rel_def when_init_def when_spec_def promise_value_def
                              promise_error_def map_replicate_const list_ex_iff)

text \<open>\<^verbatim>\<open>resolveOne\<close> after input \<open>i\<close>, pending so far, settled to \<open>q\<close> and its
  callback wrote the arrays and the flag accordingly.\<close>

lemma when_rel_count_down:
  assumes rel: "when_rel ps j" and i: "i < length ps" "ps ! i = Pending" and q: "q \<noteq> Pending"
    and j': "results j' = map promise_value (ps[i := q])" "errors j' = map promise_error (ps[i := q])"
      "had_error j' = list_ex (\<lambda>p. promise_error p \<noteq> None) (ps[i := q])"
      "remaining j' = remaining j" "aggregate j' = aggregate j"
  shows "when_rel (ps[i := q]) (when_count_down j')"
proof -
  have cnt: "count_list (ps[i := q]) Pending = count_list ps Pending - 1"
    using i q by (rule count_list_update_away)
  have pos: "0 < count_list ps Pending" using i by (rule count_list_pos)
  have pend: "aggregate j = Pending"
    using rel i by (auto simp: when_rel_def when_spec_def in_set_conv_nth)
  have rem: "remaining j - 1 = int (count_list (ps[i := q]) Pending)"
    using rel cnt pos by (simp add: when_rel_def of_nat_diff)
  then have "remaining j - 1 \<le> 0 \<longleftrightarrow> Pending \<notin> set (ps[i := q])"
    by (simp add: count_list_0_iff)
  with rem pend j' show ?thesis
    by (simp add: when_rel_def when_spec_def aggregate_when_count_down)
qed

lemma when_rel_settle:
  assumes rel: "when_rel ps j" and i: "i < length ps" "ps ! i = Pending"
  shows "when_rel (ps[i := settled_state r]) (when_settle i r j)"
proof -
  from rel have r: "results j = map promise_value ps" "errors j = map promise_error ps"
    "had_error j = list_ex (\<lambda>p. promise_error p \<noteq> None) ps"
    by (simp_all add: when_rel_def)
  from i have u: "(map promise_value ps)[i := None] = map promise_value ps"
    "(map promise_error ps)[i := None] = map promise_error ps"
    by (simp_all add: list_update_same_conv)
  show ?thesis
  proof (cases r)
    case (Fulfilled v)
    have "when_rel (ps[i := Resolved v]) (when_count_down (j\<lparr>results := (results j)[i := Some v]\<rparr>))"
      using rel i r u by (intro when_rel_count_down) (simp_all add: map_update list_ex_update_from)
    with Fulfilled show ?thesis by (simp add: when_resolve_one_def)
  next
    case (Failed e)
    have "when_rel (ps[i := Rejected e])
        (when_count_down (j\<lparr>errors := (errors j)[i := Some e], had_error := True\<rparr>))"
      using rel i r u by (intro when_rel_count_down) (simp_all add: map_update list_ex_update_from)
    with Failed show ?thesis by (simp add: when_reject_one_def)
  qed
qed

lemma when_rel_fold:
  "when_rel ps j \<Longrightarrow> distinct (map fst evs) \<Longrightarrow> \<forall>(i, r)\<in>set evs. i < length ps \<and> ps ! i = Pending \<Longrightarrow>
   when_rel (fold (\<lambda>(i, r) qs. qs[i := settled_state r]) evs ps) (fold (\<lambda>(i, r). when_settle i r) evs j)"
proof (induction evs arbitrary: ps j)
  case Nil
  then show ?case by simp
next
  case (Cons ev evs)
  obtain i r where ev: "ev = (i, r)" by fastforce
  with Cons.prems have "i < length ps" "ps ! i = Pending" by auto
  with Cons.prems(1) have "when_rel (ps[i := settled_state r]) (when_settle i r j)"
    by (rule when_rel_settle)
  moreover have "\<forall>(k, q)\<in>set evs. k < length (ps[i := settled_state r]) \<and> ps[i := settled_state r] ! k = Pending"
  proof (intro ballI, clarify)
    fix k q assume kq: "(k, q) \<in> set evs"
    have "i \<notin> fst ` set evs" using Cons.prems(2) ev by simp
    with kq have "k \<noteq> i" by force
    moreover from kq Cons.prems(3) have "k < length ps" "ps ! k = Pending" by auto
    ultimately show "k < length (ps[i := settled_state r]) \<and> ps[i := settled_state r] ! k = Pending"
      by simp
  qed
  ultimately show ?case using Cons.IH Cons.prems(2) ev by simp
qed

text \<open>The contract from the initial join: any settlement order, each input once.\<close>

lemma when_contract:
  "distinct (map fst evs) \<Longrightarrow> \<forall>(i, r)\<in>set evs. i < n \<Longrightarrow>
   aggregate (fold (\<lambda>(i, r). when_settle i r) evs (when_init n))
     = when_spec (fold (\<lambda>(i, r) qs. qs[i := settled_state r]) evs (replicate n Pending))"
  using when_rel_fold [OF when_rel_init, of evs n] by (fastforce simp: when_rel_def)

end
