(* ===== verification/SNS_Send.thy ===== *)
theory SNS_Send
  imports SNS_Publish Parse_Promise
begin

text \<open>
  The dispatch coordinator \<^verbatim>\<open>SNS.prototype.send\<close> (\<^verbatim>\<open>src/src/SNS.js\<close> lines
  114--122) with \<^verbatim>\<open>publishToSNS\<close> (lines 67--105), and the asynchronous completions
  that follow it. The state of one dispatch records what the code creates: the
  \<^verbatim>\<open>sns.publish\<close> calls issued (client and parameters), the callbacks still awaited
  from the transport (each with the device its closure captured and the index of the
  promise it resolves), the promises allocated by \<^verbatim>\<open>new Parse.Promise()\<close> in
  allocation order, the state of \<^verbatim>\<open>Parse.Promise.when\<close> once it is called, the
  exceptions that escaped a callback, and the log. \<^verbatim>\<open>send\<close> runs synchronously
  and returns; afterwards the transport invokes the awaited callbacks one at a time,
  in any order: \<open>deliver\<close> is one such invocation, and \<open>dispatch_step\<close> the
  nondeterministic choice of callback and of the transport's \<^verbatim>\<open>(err, data)\<close>.
  A promise's resolution runs the \<^verbatim>\<open>when\<close> callback registered on it in the same
  step; the callbacks of different promises write disjoint slots, so no interleaving
  is lost by this.
\<close>

record dispatch =
  published :: "(sns_client \<times> jsval) list"
  inflight :: "(nat \<times> jsval) list"
  promises :: "jsval promise_state list"
  join :: "jsval join_state option"
  uncaught :: "js_error list"
  logs :: "log_entry list"

definition dispatch_empty :: dispatch where
  "dispatch_empty =
     \<lparr>published = [], inflight = [], promises = [], join = None, uncaught = [], logs = []\<rparr>"

text \<open>
  \<^verbatim>\<open>publishToSNS(sns, device, payload, messageAttributes)\<close>: allocate the promise,
  build \<^verbatim>\<open>params\<close> (which reads \<^verbatim>\<open>device.deviceToken\<close> and may throw), issue
  \<^verbatim>\<open>sns.publish\<close> with the callback, return the promise.
\<close>

definition publishToSNS :: "sns_client \<Rightarrow> jsval \<Rightarrow> jsval \<Rightarrow> jsval \<Rightarrow> dispatch \<Rightarrow> js_error option \<times> dispatch" where
  "publishToSNS client device payload messageAttributes s =
     (let i = length (promises s);
          s1 = s\<lparr>promises := promises s @ [Pending]\<rparr>
      in case publish_params device payload messageAttributes of
           Inl e \<Rightarrow> (Some e, s1)
         | Inr params \<Rightarrow>
             (None, s1\<lparr>published := published s1 @ [(client, params)],
                       inflight := inflight s1 @ [(i, device)]\<rparr>))"

text \<open>\<^verbatim>\<open>devices.map(device => publishToSNS(...))\<close>: in order, stopping at an exception.\<close>

fun publish_each :: "sns_client \<Rightarrow> jsval \<Rightarrow> jsval \<Rightarrow> jsval list \<Rightarrow> dispatch \<Rightarrow> js_error option \<times> dispatch" where
  "publish_each client payload attrs [] s = (None, s)"
| "publish_each client payload attrs (d # ds) s =
     (case publishToSNS client d payload attrs s of
        (Some e, s') \<Rightarrow> (Some e, s')
      | (None, s') \<Rightarrow> publish_each client payload attrs ds s')"

text \<open>
  \<^verbatim>\<open>send(data, devices)\<close>: build the payload and the attributes once, publish to every
  device, then join the promises. The result is the exception \<^verbatim>\<open>send\<close> threw, if any,
  and the state it leaves; the promise it returns is the join's \<open>aggregate\<close>.
\<close>

definition send :: "collaborators \<Rightarrow> adapter \<Rightarrow> jsval \<Rightarrow> jsval list \<Rightarrow> js_error option \<times> dispatch" where
  "send env this data devices =
     (case generatePayload env data of
        Inl e \<Rightarrow> (Some e, dispatch_empty)
      | Inr payload \<Rightarrow>
          let messageAttributes = generateMessageAttributes data in
          (case publish_each (sns this) payload messageAttributes devices dispatch_empty of
             (Some e, s) \<Rightarrow> (Some e, s)
           | (None, s) \<Rightarrow> (None, s\<lparr>join := Some (when_init (length (promises s)))\<rparr>)))"

text \<open>
  The transport invokes the callback awaiting at promise index \<open>i\<close> with
  \<^verbatim>\<open>(err, data)\<close>. The callback is no longer awaited afterwards. If it throws, the
  exception escapes to the transport; if it reaches \<^verbatim>\<open>promise.resolve(v)\<close>, the
  promise is settled and the \<^verbatim>\<open>when\<close> callback on it fills slot \<open>i\<close>.
\<close>

definition deliver :: "global_env \<Rightarrow> nat \<Rightarrow> jsval \<Rightarrow> jsval \<Rightarrow> dispatch \<Rightarrow> dispatch option" where
  "deliver g i err data s =
     (case map_of (inflight s) i of
        None \<Rightarrow> None
      | Some device \<Rightarrow>
          let (ls, r) = publish_callback g device err data;
              s1 = s\<lparr>inflight := filter (\<lambda>(k, _). k \<noteq> i) (inflight s), logs := logs s @ ls\<rparr>
          in Some (case r of
                Inl e \<Rightarrow> s1\<lparr>uncaught := uncaught s1 @ [e]\<rparr>
              | Inr v \<Rightarrow>
                  (case promise_resolve (promises s ! i) v of
                     Inl e \<Rightarrow> s1\<lparr>uncaught := uncaught s1 @ [e]\<rparr>
                   | Inr p \<Rightarrow> s1\<lparr>promises := (promises s)[i := p],
                                  join := map_option (when_resolve_one i v) (join s)\<rparr>)))"

inductive dispatch_step :: "global_env \<Rightarrow> dispatch \<Rightarrow> dispatch \<Rightarrow> bool" for g where
  deliver: "deliver g i err data s = Some s' \<Longrightarrow> dispatch_step g s s'"

inductive_cases dispatch_stepE: "dispatch_step g s s'"

text \<open>Deliveries in a given order, each with the transport's reply for its index.\<close>

fun deliver_all :: "global_env \<Rightarrow> (nat \<Rightarrow> jsval \<times> jsval) \<Rightarrow> nat list \<Rightarrow> dispatch \<Rightarrow> dispatch option" where
  "deliver_all g reply [] s = Some s"
| "deliver_all g reply (i # is) s =
     (case deliver g i (fst (reply i)) (snd (reply i)) s of
        None \<Rightarrow> None
      | Some s' \<Rightarrow> deliver_all g reply is s')"

subsection \<open>What send leaves behind\<close>

definition params_for :: "jsval \<Rightarrow> jsval \<Rightarrow> jsval \<Rightarrow> jsval" where
  "params_for device payload attrs =
     JObj [(''Message'', json_stringify_val payload),
           (''MessageStructure'', JStr ''json''),
           (''TargetArn'', js_prop device ''deviceToken''),
           (''MessageAttributes'', attrs)]"

lemma publish_params_ok:
  "\<not> js_nullish d \<Longrightarrow> publish_params d p a = Inr (params_for d p a)"
  by (simp add: publish_params_def params_for_def js_get_eq_prop)

lemma publish_params_nullish:
  "js_nullish d \<Longrightarrow> publish_params d p a = Inl (TypeError (''Cannot read properties of '' @
      (if d = JNull then ''null'' else ''undefined'') @ '' (reading deviceToken)''))"
  by (auto simp: publish_params_def js_nullish_def)

lemma publish_each_ok:
  assumes "\<forall>d\<in>set ds. \<not> js_nullish d"
  shows "publish_each c p a ds s =
    (None, s\<lparr>published := published s @ map (\<lambda>d. (c, params_for d p a)) ds,
             inflight := inflight s @ zip [length (promises s)..<length (promises s) + length ds] ds,
             promises := promises s @ replicate (length ds) Pending\<rparr>)"
  using assms
proof (induction ds arbitrary: s)
  case Nil
  then show ?case by simp
next
  case (Cons d ds)
  then show ?case
    by (simp add: publishToSNS_def publish_params_ok Let_def upt_conv_Cons del: upt_Suc)
qed

text \<open>The state \<^verbatim>\<open>send\<close> leaves when it returns normally.\<close>

definition send_state :: "adapter \<Rightarrow> jsval \<Rightarrow> jsval \<Rightarrow> jsval list \<Rightarrow> dispatch" where
  "send_state this payload data devices =
     \<lparr>published = map (\<lambda>d. (sns this, params_for d payload (generateMessageAttributes data))) devices,
      inflight = zip [0..<length devices] devices,
      promises = replicate (length devices) Pending,
      join = Some (when_init (length devices)),
      uncaught = [], logs = []\<rparr>"

lemma publish_each_fails:
  "\<exists>d\<in>set ds. js_nullish d \<Longrightarrow> \<exists>e s'. publish_each c p a ds s = (Some e, s')"
proof (induction ds arbitrary: s)
  case Nil
  then show ?case by simp
next
  case (Cons d ds)
  show ?case
  proof (cases "js_nullish d")
    case True
    then show ?thesis by (simp add: publishToSNS_def publish_params_nullish Let_def)
  next
    case False
    with Cons.prems have "\<exists>d\<in>set ds. js_nullish d" by simp
    with False Cons.IH show ?thesis by (simp add: publishToSNS_def publish_params_ok Let_def)
  qed
qed

lemma send_ok:
  "send env this data devices = (None, s0) \<longleftrightarrow>
   (\<exists>payload. generatePayload env data = Inr payload \<and> (\<forall>d\<in>set devices. \<not> js_nullish d)
      \<and> s0 = send_state this payload data devices)"
proof (cases "generatePayload env data")
  case (Inl e)
  then show ?thesis by (simp add: send_def)
next
  case (Inr payload)
  show ?thesis
  proof (cases "\<forall>d\<in>set devices. \<not> js_nullish d")
    case True
    then show ?thesis using Inr
      by (auto simp: send_def publish_each_ok send_state_def dispatch_empty_def)
  next
    case False
    then obtain e s' where "publish_each (sns this) payload (generateMessageAttributes data) devices dispatch_empty = (Some e, s')"
      using publish_each_fails by blast
    with Inr False show ?thesis by (simp add: send_def)
  qed
qed

subsection \<open>The dispatch invariant\<close>

text \<open>
  What holds between \<^verbatim>\<open>send\<close> and any later sequence of completions: one promise
  per device; no callback awaited twice; an awaited callback holds its own device and
  its promise is pending; the join is in place, satisfies the barrier relation, and
  its slots are the values of the promises; no promise is rejected.
\<close>

definition dispatch_inv :: "jsval list \<Rightarrow> dispatch \<Rightarrow> bool" where
  "dispatch_inv devices s \<longleftrightarrow>
     length (promises s) = length devices
   \<and> distinct (map fst (inflight s))
   \<and> (\<forall>(i, d) \<in> set (inflight s). i < length devices \<and> d = devices ! i \<and> promises s ! i = Pending)
   \<and> (\<exists>j. join s = Some j \<and> join_inv j \<and> results j = map promise_value (promises s))
   \<and> (\<forall>p \<in> set (promises s). promise_error p = None)"

lemma send_state_inv: "dispatch_inv devices (send_state this payload data devices)"
  by (auto simp: dispatch_inv_def send_state_def join_inv_init set_zip promise_value_def promise_error_def
                 map_replicate_const)

lemma distinct_map_fst_filter: "distinct (map fst xs) \<Longrightarrow> distinct (map fst (filter P xs))"
  by (induction xs) auto

lemma map_promise_value_update:
  "map promise_value (ps[i := Resolved v]) = (map promise_value ps)[i := Some v]"
  by (simp add: map_update promise_value_def)

lemma no_rejection_update:
  "\<forall>p \<in> set ps. promise_error p = None \<Longrightarrow> \<forall>p \<in> set (ps[i := Resolved v]). promise_error p = None"
  by (auto simp: promise_error_def dest!: set_update_subset_insert [THEN subsetD])

lemma deliver_inv:
  assumes inv: "dispatch_inv devices s" and del: "deliver g i err data s = Some s'"
  shows "dispatch_inv devices s'"
proof -
  from del obtain d where d: "map_of (inflight s) i = Some d"
    by (auto simp: deliver_def split: option.splits)
  then have "(i, d) \<in> set (inflight s)" by (rule map_of_SomeD)
  with inv have i: "i < length devices" and pend: "promises s ! i = Pending"
    by (auto simp: dispatch_inv_def)
  obtain ls r where cb: "publish_callback g d err data = (ls, r)" by fastforce
  let ?fl = "filter (\<lambda>(k, _). k \<noteq> i) (inflight s)"
  show ?thesis
  proof (cases r)
    case (Inl e)
    with del d cb have "s' = s\<lparr>inflight := ?fl, logs := logs s @ ls, uncaught := uncaught s @ [e]\<rparr>"
      by (simp add: deliver_def)
    with inv show ?thesis by (auto simp: dispatch_inv_def distinct_map_fst_filter)
  next
    case (Inr v)
    with del d cb pend have s': "s' = s\<lparr>inflight := ?fl, logs := logs s @ ls,
        promises := (promises s)[i := Resolved v], join := map_option (when_resolve_one i v) (join s)\<rparr>"
      by (simp add: deliver_def promise_resolve_def)
    from inv obtain j where j: "join s = Some j" "join_inv j" "results j = map promise_value (promises s)"
      by (auto simp: dispatch_inv_def)
    have "join_inv (when_resolve_one i v j)"
      using j inv i pend by (intro when_resolve_one_refines) (auto simp: dispatch_inv_def promise_value_def)
    with s' j inv show ?thesis
      by (auto simp: dispatch_inv_def distinct_map_fst_filter map_promise_value_update no_rejection_update)
  qed
qed

lemma reach_inv:
  "(dispatch_step g)\<^sup>*\<^sup>* s0 s \<Longrightarrow> dispatch_inv devices s0 \<Longrightarrow> dispatch_inv devices s"
  by (induction rule: rtranclp_induct) (auto elim!: dispatch_stepE intro: deliver_inv)

subsection \<open>One delivery and sequences of deliveries\<close>

lemma map_of_filter_other:
  "k \<noteq> i \<Longrightarrow> map_of (filter (\<lambda>(k', _). k' \<noteq> i) xs) k = map_of xs k"
  by (induction xs) auto

lemma map_of_filter_self: "map_of (filter (\<lambda>(k', _). k' \<noteq> i) xs) i = None"
  by (induction xs) auto

lemma deliver_frame:
  assumes "deliver g k err data s = Some s'"
  shows "(\<exists>d. map_of (inflight s) k = Some d) \<and> map_of (inflight s') k = None
    \<and> (\<forall>i. i \<noteq> k \<longrightarrow> promises s' ! i = promises s ! i \<and> map_of (inflight s') i = map_of (inflight s) i)
    \<and> length (promises s') = length (promises s)
    \<and> set (uncaught s) \<subseteq> set (uncaught s') \<and> published s' = published s"
  using assms
  by (auto simp: deliver_def map_of_filter_other map_of_filter_self Let_def
           split: option.splits prod.splits sum.splits)

lemma dispatch_inv_aggregate:
  "dispatch_inv devices s \<Longrightarrow> join s = Some j \<Longrightarrow> aggregate j = barrier (map promise_value (promises s))"
  by (auto simp: dispatch_inv_def join_inv_def)

lemma inflight_lookup:
  "dispatch_inv devices s \<Longrightarrow> map_of (inflight s) i = Some d \<Longrightarrow>
     i < length devices \<and> d = devices ! i \<and> promises s ! i = Pending"
  by (auto simp: dispatch_inv_def dest: map_of_SomeD)

lemma deliver_throws:
  assumes "deliver g i err data s = Some s'" and "map_of (inflight s) i = Some d"
    and "snd (publish_callback g d err data) = Inl e"
  shows "promises s' = promises s \<and> e \<in> set (uncaught s')"
  using assms by (auto simp: deliver_def Let_def split: prod.splits)

lemma deliver_resolves:
  assumes "map_of (inflight s) i = Some d" and "promises s ! i = Pending"
    and "snd (publish_callback g d err data) = Inr v"
  shows "\<exists>s'. deliver g i err data s = Some s' \<and> promises s' = (promises s)[i := Resolved v]
     \<and> inflight s' = filter (\<lambda>(k, _). k \<noteq> i) (inflight s)"
  using assms by (auto simp: deliver_def Let_def promise_resolve_def split: prod.splits)

lemma orphan_stays_pending:
  assumes "(dispatch_step g)\<^sup>*\<^sup>* s s'" and "map_of (inflight s) i = None" and "promises s ! i = Pending"
  shows "map_of (inflight s') i = None \<and> promises s' ! i = Pending \<and> set (uncaught s) \<subseteq> set (uncaught s')"
  using assms
proof (induction rule: rtranclp_induct)
  case base
  then show ?case by simp
next
  case (step t u)
  then obtain k err data where del: "deliver g k err data t = Some u" by (auto elim: dispatch_stepE)
  from step have t: "map_of (inflight t) i = None" "promises t ! i = Pending" "set (uncaught s) \<subseteq> set (uncaught t)"
    by auto
  from deliver_frame [OF del] t(1) have "i \<noteq> k" by auto
  with deliver_frame [OF del] t show ?case by auto
qed

lemma deliver_all_resolves:
  assumes "dispatch_inv devices s" and "distinct order" and "set order \<subseteq> fst ` set (inflight s)"
    and "\<forall>i\<in>set order. snd (publish_callback g (devices ! i) (fst (reply i)) (snd (reply i))) = Inr (outcome i)"
  shows "\<exists>s'. deliver_all g reply order s = Some s' \<and> dispatch_inv devices s'
     \<and> length (promises s') = length (promises s)
     \<and> (\<forall>k < length (promises s). promises s' ! k = (if k \<in> set order then Resolved (outcome k) else promises s ! k))"
  using assms
proof (induction order arbitrary: s)
  case Nil
  then show ?case by simp
next
  case (Cons i rest)
  from Cons.prems(3) obtain d where mem: "(i, d) \<in> set (inflight s)" by auto
  with Cons.prems(1) have look: "map_of (inflight s) i = Some d"
    by (simp add: dispatch_inv_def map_of_is_SomeI)
  from inflight_lookup [OF Cons.prems(1) look] have i: "i < length devices" "d = devices ! i" "promises s ! i = Pending"
    by auto
  from Cons.prems(4) i(2) have cb: "snd (publish_callback g d (fst (reply i)) (snd (reply i))) = Inr (outcome i)"
    by simp
  from deliver_resolves [OF look i(3) cb] obtain s1 where
    s1: "deliver g i (fst (reply i)) (snd (reply i)) s = Some s1"
        "promises s1 = (promises s)[i := Resolved (outcome i)]"
        "inflight s1 = filter (\<lambda>(k, _). k \<noteq> i) (inflight s)"
    by blast
  have inv1: "dispatch_inv devices s1" using deliver_inv [OF Cons.prems(1) s1(1)] .
  have sub: "set rest \<subseteq> fst ` set (inflight s1)"
    using Cons.prems(2,3) s1(3) by force
  from Cons.IH [OF inv1 _ sub] Cons.prems(2,4) obtain s' where
    s': "deliver_all g reply rest s1 = Some s'" "dispatch_inv devices s'"
        "length (promises s') = length (promises s1)"
        "\<forall>k < length (promises s1). promises s' ! k = (if k \<in> set rest then Resolved (outcome k) else promises s1 ! k)"
    by auto
  show ?case
    using s1 s' by (auto simp: nth_list_update)
qed

lemma publish_each_append_ok:
  assumes "\<forall>d\<in>set ds. \<not> js_nullish d"
  shows "publish_each c p a (ds @ rest) s =
    publish_each c p a rest
      (s\<lparr>published := published s @ map (\<lambda>d. (c, params_for d p a)) ds,
          inflight := inflight s @ zip [length (promises s)..<length (promises s) + length ds] ds,
          promises := promises s @ replicate (length ds) Pending\<rparr>)"
  using assms
proof (induction ds arbitrary: s)
  case Nil
  then show ?case by simp
next
  case (Cons d ds)
  then show ?case
    by (simp add: publishToSNS_def publish_params_ok Let_def upt_conv_Cons del: upt_Suc)
qed

lemma send_state_inflight_keys: "fst ` set (inflight (send_state this p data devices)) = {..<length devices}"
  by (simp add: send_state_def image_set atLeast0LessThan)

subsection \<open>Properties of the dispatch\<close>

lemma send_resolves_all:
  assumes "send env this data devices = (None, s0)"
    and "distinct order" and "set order = {..<length devices}"
    and "\<forall>i<length devices. snd (publish_callback g (devices ! i) (fst (reply i)) (snd (reply i))) = Inr (outcome i)"
  shows "\<exists>s j. deliver_all g reply order s0 = Some s \<and> join s = Some j
     \<and> aggregate j = Resolved (map (\<lambda>i. Some (outcome i)) [0..<length devices])"
proof -
  from assms(1) obtain payload where s0: "s0 = send_state this payload data devices"
    by (auto simp: send_ok)
  have inv0: "dispatch_inv devices s0" by (simp add: s0 send_state_inv)
  have keys: "set order \<subseteq> fst ` set (inflight s0)"
    using assms(3) by (simp add: s0 send_state_inflight_keys)
  have cbs: "\<forall>i\<in>set order. snd (publish_callback g (devices ! i) (fst (reply i)) (snd (reply i))) = Inr (outcome i)"
    using assms(3,4) by auto
  have len0: "length (promises s0) = length devices" by (simp add: s0 send_state_def)
  from deliver_all_resolves [OF inv0 assms(2) keys cbs] obtain s where
    s: "deliver_all g reply order s0 = Some s" "dispatch_inv devices s"
       "length (promises s) = length (promises s0)"
       "\<forall>k < length (promises s0). promises s ! k = (if k \<in> set order then Resolved (outcome k) else promises s0 ! k)"
    by blast
  have ps: "promises s = map (\<lambda>i. Resolved (outcome i)) [0..<length devices]"
    using s(3,4) len0 assms(3) by (intro nth_equalityI) auto
  from s(2) obtain j where j: "join s = Some j" by (auto simp: dispatch_inv_def)
  have "aggregate j = barrier (map promise_value (promises s))"
    using dispatch_inv_aggregate [OF s(2) j] .
  also have "\<dots> = Resolved (map (\<lambda>i. Some (outcome i)) [0..<length devices])"
    by (auto simp: ps barrier_def promise_value_def comp_def)
  finally show ?thesis using s(1) j by blast
qed

text \<open>
  C1. Completion in any order: after \<^verbatim>\<open>send\<close> returns, if the transport calls the
  callbacks back in any order (a permutation of the devices) and every callback
  reaches \<^verbatim>\<open>promise.resolve\<close>, the promise \<^verbatim>\<open>send\<close> returned is resolved
  with one outcome per device, in the order of the input devices, each outcome being
  the one its own callback produced.
\<close>

theorem send_completes_any_order:
  assumes "send env this data devices = (None, s0)"
    and "distinct order" and "set order = {..<length devices}"
    and "\<forall>i<length devices. snd (publish_callback g (devices ! i) (fst (reply i)) (snd (reply i))) = Inr (outcome i)"
  shows "\<exists>s j. deliver_all g reply order s0 = Some s \<and> join s = Some j
     \<and> aggregate j = Resolved (map (\<lambda>i. Some (outcome i)) [0..<length devices])"
  using assms by (rule send_resolves_all)

text \<open>
  C2. One failed delivery blocks the whole dispatch: once the transport reports an
  error for a device, in a process whose global object has no \<^verbatim>\<open>arn\<close>, that
  device's promise stays pending in every later state, the promise \<^verbatim>\<open>send\<close>
  returned is never resolved, and a \<^verbatim>\<open>ReferenceError\<close> has escaped to the transport.
\<close>

theorem failed_delivery_blocks_aggregate:
  assumes "send env this data devices = (None, s0)"
    and "(dispatch_step g)\<^sup>*\<^sup>* s0 s1"
    and "deliver g i err resp s1 = Some s2"
    and "device_ok (devices ! i)" and "\<not> js_nullish err" and "g ''arn'' = None"
    and "(dispatch_step g)\<^sup>*\<^sup>* s2 s3"
  shows "promises s3 ! i = Pending \<and> (\<exists>j. join s3 = Some j \<and> aggregate j = Pending)
     \<and> ReferenceError ''arn is not defined'' \<in> set (uncaught s3)"
proof -
  from assms(1) obtain payload where s0: "s0 = send_state this payload data devices"
    by (auto simp: send_ok)
  have inv1: "dispatch_inv devices s1" using reach_inv [OF assms(2)] by (simp add: s0 send_state_inv)
  from deliver_frame [OF assms(3)] obtain d where look: "map_of (inflight s1) i = Some d"
    and gone: "map_of (inflight s2) i = None" by blast
  from inflight_lookup [OF inv1 look] have i: "i < length devices" "d = devices ! i" "promises s1 ! i = Pending"
    by auto
  from assms(4) i(2) obtain dev where dev: "device_record d = Inr dev" by (auto simp: device_ok_def)
  have cb: "snd (publish_callback g d err resp) = Inl (ReferenceError ''arn is not defined'')"
    using dev assms(5,6) by (rule callback_error_result [where g = g])
  from deliver_throws [OF assms(3) look cb] i(3) have s2: "promises s2 ! i = Pending"
    "ReferenceError ''arn is not defined'' \<in> set (uncaught s2)" by auto
  from orphan_stays_pending [OF assms(7) gone s2(1)] s2(2) have s3: "promises s3 ! i = Pending"
    "ReferenceError ''arn is not defined'' \<in> set (uncaught s3)" by auto
  have "(dispatch_step g)\<^sup>*\<^sup>* s0 s3"
    using assms(2,3,7) by (meson dispatch_step.deliver rtranclp.rtrancl_into_rtrancl rtranclp_trans)
  then have inv3: "dispatch_inv devices s3" using reach_inv by (simp add: s0 send_state_inv)
  then obtain j where j: "join s3 = Some j" by (auto simp: dispatch_inv_def)
  have len: "i < length (promises s3)" using inv3 i(1) by (simp add: dispatch_inv_def)
  have "None \<in> set (map promise_value (promises s3))"
    using len s3(1) by (force simp: in_set_conv_nth promise_value_def)
  then have "aggregate j = Pending"
    using dispatch_inv_aggregate [OF inv3 j] by (simp add: barrier_def)
  with s3 j show ?thesis by blast
qed


text \<open>
  C3. In every state reachable after \<^verbatim>\<open>send\<close>: there is one promise per device; no
  callback is awaited twice; each awaited callback holds its own device and its
  promise is still pending; and the promise \<^verbatim>\<open>send\<close> returned is resolved exactly
  when every device's promise is, with their values in device order.
\<close>

theorem reachable_dispatch_inv:
  assumes "send env this data devices = (None, s0)" and "(dispatch_step g)\<^sup>*\<^sup>* s0 s"
  shows "length (promises s) = length devices
    \<and> distinct (map fst (inflight s))
    \<and> (\<forall>(i, d) \<in> set (inflight s). d = devices ! i \<and> promises s ! i = Pending)
    \<and> (\<exists>j. join s = Some j \<and> aggregate j = barrier (map promise_value (promises s)))"
proof -
  from assms(1) obtain payload where s0: "s0 = send_state this payload data devices"
    by (auto simp: send_ok)
  have inv: "dispatch_inv devices s" using reach_inv [OF assms(2)] by (simp add: s0 send_state_inv)
  then obtain j where j: "join s = Some j" by (auto simp: dispatch_inv_def)
  show ?thesis using inv dispatch_inv_aggregate [OF inv j] j by (auto simp: dispatch_inv_def)
qed

text \<open>
  C4. Isolation: a completion for one device changes neither the promise nor the
  awaited callback of any other device, nor the publish calls issued.
\<close>

theorem deliver_isolation:
  assumes "deliver g i err data s = Some s'" and "k \<noteq> i"
  shows "promises s' ! k = promises s ! k \<and> map_of (inflight s') k = map_of (inflight s) k
     \<and> published s' = published s"
  using deliver_frame [OF assms(1)] assms(2) by auto

text \<open>
  C8. When \<^verbatim>\<open>send\<close> returns normally, the payload was built once and exactly one
  \<^verbatim>\<open>sns.publish\<close> call was issued per device, in input order, on the adapter's
  client, each with the whole serialised bundle as \<^verbatim>\<open>Message\<close>, structure
  \<^verbatim>\<open>json\<close>, the device's token as \<^verbatim>\<open>TargetArn\<close> and the attribute set; every
  callback is awaited, and the returned promise is pending unless there are no devices.
\<close>

theorem send_publishes_each_device:
  assumes "send env this data devices = (None, s0)"
  shows "\<exists>payload. generatePayload env data = Inr payload
    \<and> published s0 = map (\<lambda>d. (sns this,
         JObj [(''Message'', json_stringify_val payload), (''MessageStructure'', JStr ''json''),
               (''TargetArn'', js_prop d ''deviceToken''),
               (''MessageAttributes'', generateMessageAttributes data)])) devices
    \<and> inflight s0 = zip [0..<length devices] devices \<and> uncaught s0 = []
    \<and> (\<exists>j. join s0 = Some j \<and> aggregate j = (if devices = [] then Resolved [] else Pending))"
  using assms by (auto simp: send_ok send_state_def params_for_def when_init_def)

text \<open>
  C9. A \<^verbatim>\<open>null\<close> or \<^verbatim>\<open>undefined\<close> entry in the device list makes \<^verbatim>\<open>send\<close>
  throw a \<^verbatim>\<open>TypeError\<close> after the devices before it were already published (their
  callbacks stay awaited) and before \<^verbatim>\<open>Parse.Promise.when\<close> is reached: the
  caller gets no promise, and the remaining devices are never attempted.
\<close>

theorem send_aborts_at_nullish_device:
  assumes "generatePayload env data = Inr payload"
    and "\<forall>d\<in>set ds1. \<not> js_nullish d" and "js_nullish d"
  shows "\<exists>e. send env this data (ds1 @ d # ds2) = (Some (TypeError e),
           \<lparr>published = map (\<lambda>d. (sns this, params_for d payload (generateMessageAttributes data))) ds1,
            inflight = zip [0..<length ds1] ds1, promises = replicate (Suc (length ds1)) Pending,
            join = None, uncaught = [], logs = []\<rparr>)"
  using assms
  by (simp add: send_def publish_each_append_ok dispatch_empty_def publishToSNS_def
                publish_params_nullish Let_def replicate_append_same)

text \<open>
  C28. An exception of the payload builder (a \<^verbatim>\<open>null\<close> request, or an encoder
  that throws) propagates out of \<^verbatim>\<open>send\<close> synchronously, before any promise is
  allocated or any \<^verbatim>\<open>sns.publish\<close> call is made, whatever the devices.
\<close>

theorem send_payload_error:
  assumes "generatePayload env data = Inl e"
  shows "send env this data devices = (Some e, dispatch_empty)
     \<and> published dispatch_empty = [] \<and> promises dispatch_empty = [] \<and> join dispatch_empty = None"
  using assms by (simp add: send_def dispatch_empty_def)

subsection \<open>Witnesses\<close>

definition example_adapter :: adapter where
  "example_adapter = \<lparr>sns = \<lparr>client_config = []\<rparr>\<rparr>"

definition example_device' :: jsval where
  "example_device' = JObj [(''deviceType'', JStr ''android''), (''deviceToken'', JBuf [0xab, 0x01])]"

definition example_ok_reply :: "nat \<Rightarrow> jsval \<times> jsval" where
  "example_ok_reply i = (JNull, JObj [(''MessageId'', JStr ''m1'')])"

definition example_outcome :: "nat \<Rightarrow> jsval" where
  "example_outcome i =
     JObj [(''device'', if i = 0 then JObj [(''deviceType'', JStr ''ios''), (''deviceToken'', JStr ''tok1'')]
                        else JObj [(''deviceType'', JStr ''android''), (''deviceToken'', JStr (hex_encode [0xab, 0x01]))]),
           (''transmitted'', JBool True), (''response'', JObj [(''MessageId'', JStr ''m1'')])]"

lemma example_send:
  obtains payload where "generatePayload example_env example_request = Inr payload"
    "\<And>devs. \<forall>d\<in>set devs. \<not> js_nullish d \<Longrightarrow>
       send example_env example_adapter example_request devs = (None, send_state example_adapter payload example_request devs)"
proof -
  obtain kvs where p: "generatePayload example_env example_request = Inr (JObj kvs)"
    using example_payload_Inr(1) by blast
  show ?thesis
    by (rule that [OF p]) (simp add: send_ok p)
qed

lemma example_devices_ok: "\<forall>d\<in>set [example_device, example_device']. \<not> js_nullish d"
  by (simp add: example_device_def example_device'_def js_nullish_def)

theorem send_completes_any_order_witness:
  "\<exists>s0. send example_env example_adapter example_request [example_device, example_device'] = (None, s0)
     \<and> (\<exists>s j. deliver_all Map.empty example_ok_reply [1, 0] s0 = Some s \<and> join s = Some j
         \<and> aggregate j = Resolved (map (\<lambda>i. Some (example_outcome i)) [0..<length [example_device, example_device']]))"
proof -
  obtain payload where send: "send example_env example_adapter example_request [example_device, example_device'] =
      (None, send_state example_adapter payload example_request [example_device, example_device'])"
    using example_send example_devices_ok by metis
  have cbs: "\<forall>i<length [example_device, example_device'].
      snd (publish_callback Map.empty ([example_device, example_device'] ! i)
        (fst (example_ok_reply i)) (snd (example_ok_reply i))) = Inr (example_outcome i)"
  proof (intro allI impI)
    fix i assume "i < length [example_device, example_device']"
    then have "i = 0 \<or> i = 1" by auto
    then show "snd (publish_callback Map.empty ([example_device, example_device'] ! i)
        (fst (example_ok_reply i)) (snd (example_ok_reply i))) = Inr (example_outcome i)"
      by (auto simp: publish_callback_def example_device_def example_device'_def example_ok_reply_def
                     example_outcome_def obj_prop_def js_nullish_def)
  qed
  have ord: "distinct [1::nat, 0]" "set [1::nat, 0] = {..<length [example_device, example_device']}"
    by auto
  show ?thesis using send_completes_any_order [OF send ord cbs] send by blast
qed


lemma example_send_state:
  obtains payload where "generatePayload example_env example_request = Inr payload"
    "send example_env example_adapter example_request [example_device] =
       (None, send_state example_adapter payload example_request [example_device])"
    "send example_env example_adapter example_request [example_device, example_device'] =
       (None, send_state example_adapter payload example_request [example_device, example_device'])"
proof -
  obtain payload where p: "generatePayload example_env example_request = Inr payload"
    and s: "\<And>devs. \<forall>d\<in>set devs. \<not> js_nullish d \<Longrightarrow>
       send example_env example_adapter example_request devs = (None, send_state example_adapter payload example_request devs)"
    using example_send by blast
  have "\<forall>d\<in>set [example_device]. \<not> js_nullish d" using example_devices_ok by simp
  from that [OF p s [OF this] s [OF example_devices_ok]] show ?thesis .
qed

lemma example_deliver_exists:
  "\<exists>s'. deliver Map.empty 0 err data (send_state this payload req (example_device # devs)) = Some s'"
  by (simp add: deliver_def send_state_def upt_conv_Cons Let_def split: prod.split del: upt_Suc)

theorem failed_delivery_blocks_aggregate_witness:
  "\<exists>s0 s2. send example_env example_adapter example_request [example_device] = (None, s0)
     \<and> deliver Map.empty 0 example_error JNull s0 = Some s2
     \<and> promises s2 ! 0 = Pending \<and> (\<exists>j. join s2 = Some j \<and> aggregate j = Pending)
     \<and> ReferenceError ''arn is not defined'' \<in> set (uncaught s2)"
proof -
  obtain payload where send: "send example_env example_adapter example_request [example_device] =
       (None, send_state example_adapter payload example_request [example_device])"
    using example_send_state by blast
  obtain s2 where del: "deliver Map.empty 0 example_error JNull
      (send_state example_adapter payload example_request [example_device]) = Some s2"
    using example_deliver_exists by blast
  have ok: "device_ok ([example_device] ! 0)" using example_device_record by (simp add: device_ok_def)
  have "promises s2 ! 0 = Pending \<and> (\<exists>j. join s2 = Some j \<and> aggregate j = Pending)
     \<and> ReferenceError ''arn is not defined'' \<in> set (uncaught s2)"
    by (rule failed_delivery_blocks_aggregate [OF send rtranclp.rtrancl_refl del ok example_error_not_nullish _
        rtranclp.rtrancl_refl]) simp
  then show ?thesis using send del by blast
qed

theorem reachable_dispatch_inv_witness:
  "\<exists>s0. send example_env example_adapter example_request [example_device, example_device'] = (None, s0)
     \<and> length (promises s0) = length [example_device, example_device']
     \<and> distinct (map fst (inflight s0))
     \<and> (\<forall>(i, d) \<in> set (inflight s0). d = [example_device, example_device'] ! i \<and> promises s0 ! i = Pending)
     \<and> (\<exists>j. join s0 = Some j \<and> aggregate j = barrier (map promise_value (promises s0)))"
proof -
  obtain payload where send: "send example_env example_adapter example_request [example_device, example_device'] =
       (None, send_state example_adapter payload example_request [example_device, example_device'])"
    using example_send_state by blast
  show ?thesis using reachable_dispatch_inv [OF send rtranclp.rtrancl_refl] send by blast
qed

theorem deliver_isolation_witness:
  "\<exists>s0 s'. send example_env example_adapter example_request [example_device, example_device'] = (None, s0)
     \<and> deliver Map.empty 0 example_error JNull s0 = Some s' \<and> (1::nat) \<noteq> 0
     \<and> promises s' ! 1 = promises s0 ! 1 \<and> map_of (inflight s') 1 = map_of (inflight s0) 1
     \<and> published s' = published s0"
proof -
  obtain payload where send: "send example_env example_adapter example_request [example_device, example_device'] =
       (None, send_state example_adapter payload example_request [example_device, example_device'])"
    using example_send_state by blast
  obtain s' where del: "deliver Map.empty 0 example_error JNull
      (send_state example_adapter payload example_request [example_device, example_device']) = Some s'"
    using example_deliver_exists by blast
  have ne: "(1::nat) \<noteq> 0" by simp
  show ?thesis using deliver_isolation [OF del ne] send del by blast
qed

theorem send_publishes_each_device_witness:
  "\<exists>s0. send example_env example_adapter example_request [example_device, example_device'] = (None, s0)
    \<and> (\<exists>payload. generatePayload example_env example_request = Inr payload
    \<and> published s0 = map (\<lambda>d. (sns example_adapter,
         JObj [(''Message'', json_stringify_val payload), (''MessageStructure'', JStr ''json''),
               (''TargetArn'', js_prop d ''deviceToken''),
               (''MessageAttributes'', generateMessageAttributes example_request)])) [example_device, example_device']
    \<and> inflight s0 = zip [0..<length [example_device, example_device']] [example_device, example_device']
    \<and> uncaught s0 = []
    \<and> (\<exists>j. join s0 = Some j \<and> aggregate j = (if [example_device, example_device'] = [] then Resolved [] else Pending)))"
proof -
  obtain payload where send: "send example_env example_adapter example_request [example_device, example_device'] =
       (None, send_state example_adapter payload example_request [example_device, example_device'])"
    using example_send_state by blast
  show ?thesis using send_publishes_each_device [OF send] send by blast
qed

theorem send_aborts_at_nullish_device_witness:
  "\<exists>payload e. generatePayload example_env example_request = Inr payload
     \<and> send example_env example_adapter example_request ([example_device] @ JNull # []) = (Some (TypeError e),
           \<lparr>published = map (\<lambda>d. (sns example_adapter, params_for d payload (generateMessageAttributes example_request))) [example_device],
            inflight = zip [0..<length [example_device]] [example_device],
            promises = replicate (Suc (length [example_device])) Pending,
            join = None, uncaught = [], logs = []\<rparr>)"
proof -
  obtain payload where p: "generatePayload example_env example_request = Inr payload"
    using example_send_state by blast
  have ok: "\<forall>d\<in>set [example_device]. \<not> js_nullish d" using example_devices_ok by simp
  have nl: "js_nullish JNull" by (simp add: js_nullish_def)
  show ?thesis using send_aborts_at_nullish_device [OF p ok nl, of example_adapter "[]"] p by blast
qed

theorem send_payload_error_witness:
  "send (example_env\<lparr>generateGCMPayload := (\<lambda>d pid t e. Inl (JSError ''encoder failed''))\<rparr>)
      example_adapter example_request [example_device] = (Some (JSError ''encoder failed''), dispatch_empty)
   \<and> published dispatch_empty = [] \<and> promises dispatch_empty = [] \<and> join dispatch_empty = None"
proof -
  have "generatePayload (example_env\<lparr>generateGCMPayload := (\<lambda>d pid t e. Inl (JSError ''encoder failed''))\<rparr>)
      example_request = Inl (JSError ''encoder failed'')"
    by (simp add: generatePayload_def example_request_def obj_prop_def)
  then show ?thesis by (rule send_payload_error)
qed

end
