(* ===== verification/SNS_Runs.thy ===== *)
theory SNS_Runs
  imports SNS_Send
begin

text \<open>
  Runs of the dispatch after \<^verbatim>\<open>send\<close> returns: sequences of completions chosen by
  the transport. Every completion consumes one awaited callback, so every run is finite,
  and a run can be continued while some callback is awaited. Together with C1 and C2
  the lemmas below say when the promise \<^verbatim>\<open>send\<close> returned is settled at the end of a
  run, what it holds when the global object binds \<^verbatim>\<open>arn\<close>, and that it is never
  rejected.
\<close>

lemma length_filter_key:
  "map_of xs i = Some d \<Longrightarrow> length (filter (\<lambda>(k, _). k \<noteq> i) xs) < length xs"
proof (induction xs)
  case Nil
  then show ?case by simp
next
  case (Cons x xs)
  then show ?case
    by (cases x) (auto split: if_splits intro: le_less_trans [OF length_filter_le])
qed

lemma deliver_inflight_shrinks:
  "deliver g i err data s = Some s' \<Longrightarrow> length (inflight s') < length (inflight s)"
  by (auto simp: deliver_def Let_def length_filter_key split: option.splits prod.splits sum.splits)

text \<open>
  C22. Termination of the asynchronous phase: there is no infinite sequence of
  completions. Each completion consumes the callback it invokes, and a callback that is
  no longer awaited cannot be invoked again.
\<close>

theorem dispatch_terminates: "wf {(s', s). dispatch_step g s s'}"
proof (rule wf_subset [OF wf_measure [of "\<lambda>s. length (inflight s)"]])
  show "{(s', s). dispatch_step g s s'} \<subseteq> measure (\<lambda>s. length (inflight s))"
    by (auto elim!: dispatch_stepE dest: deliver_inflight_shrinks)
qed

subsection \<open>Counting what is still open\<close>

lemma length_filter_key_distinct:
  "distinct (map fst xs) \<Longrightarrow> map_of xs i = Some d \<Longrightarrow>
     length (filter (\<lambda>(k, _). k \<noteq> i) xs) = length xs - 1"
proof (induction xs)
  case Nil
  then show ?case by simp
next
  case (Cons x xs)
  obtain k v where x: "x = (k, v)" by fastforce
  show ?case
  proof (cases "k = i")
    case True
    with Cons.prems x have "i \<notin> fst ` set xs" by simp
    then have "filter (\<lambda>(k, _). k \<noteq> i) xs = xs"
      by (induction xs) (auto simp: rev_image_eqI)
    with True x show ?thesis by simp
  next
    case False
    with Cons x have "length (filter (\<lambda>(k, _). k \<noteq> i) xs) = length xs - 1" by simp
    moreover from False Cons.prems x have "xs \<noteq> []" by auto
    ultimately show ?thesis using False x by simp
  qed
qed

lemma count_list_nth_pos: "i < length xs \<Longrightarrow> 0 < count_list xs (xs ! i)"
  by (metis count_list_0_iff nth_mem not_gr0)

lemma count_list_update_other:
  "i < length xs \<Longrightarrow> xs ! i = x \<Longrightarrow> y \<noteq> x \<Longrightarrow> count_list (xs[i := y]) x = count_list xs x - 1"
proof (induction xs arbitrary: i)
  case Nil
  then show ?case by simp
next
  case (Cons z zs)
  then show ?case
    using count_list_nth_pos by (cases i) fastforce+
qed

text \<open>
  Every pending promise is accounted for: its callback is still awaited, or it threw.
\<close>

definition open_count_inv :: "dispatch \<Rightarrow> bool" where
  "open_count_inv s \<longleftrightarrow> count_list (promises s) Pending = length (inflight s) + length (uncaught s)"

lemma send_state_open: "open_count_inv (send_state this payload data devices)"
  by (simp add: open_count_inv_def send_state_def)

lemma deliver_open:
  assumes inv: "dispatch_inv devices s" and oc: "open_count_inv s"
    and del: "deliver g i err data s = Some s'"
  shows "open_count_inv s'"
proof -
  from del obtain d where d: "map_of (inflight s) i = Some d"
    by (auto simp: deliver_def split: option.splits)
  from inflight_lookup [OF inv d] have i: "i < length (promises s)" and pend: "promises s ! i = Pending"
    using inv by (auto simp: dispatch_inv_def)
  have dist: "distinct (map fst (inflight s))" using inv by (simp add: dispatch_inv_def)
  let ?fl = "filter (\<lambda>(k, _). k \<noteq> i) (inflight s)"
  have fl: "length ?fl = length (inflight s) - 1" and ne: "0 < length (inflight s)"
    using length_filter_key_distinct [OF dist d] d by auto
  obtain ls r where cb: "publish_callback g d err data = (ls, r)" by fastforce
  show ?thesis
  proof (cases r)
    case (Inl e)
    with del d cb have "s' = s\<lparr>inflight := ?fl, logs := logs s @ ls, uncaught := uncaught s @ [e]\<rparr>"
      by (simp add: deliver_def)
    with oc fl ne show ?thesis by (simp add: open_count_inv_def)
  next
    case (Inr v)
    with del d cb pend have s': "s' = s\<lparr>inflight := ?fl, logs := logs s @ ls,
        promises := (promises s)[i := Resolved v], join := map_option (when_resolve_one i v) (join s)\<rparr>"
      by (simp add: deliver_def promise_resolve_def)
    have "count_list ((promises s)[i := Resolved v]) Pending = count_list (promises s) Pending - 1"
      using i pend by (simp add: count_list_update_other)
    with s' oc fl ne show ?thesis by (simp add: open_count_inv_def; linarith)
  qed
qed

lemma reach_open:
  "(dispatch_step g)\<^sup>*\<^sup>* s0 s \<Longrightarrow> dispatch_inv devices s0 \<Longrightarrow> open_count_inv s0 \<Longrightarrow> open_count_inv s"
proof (induction rule: rtranclp_induct)
  case base
  then show ?case by simp
next
  case (step t u)
  have "dispatch_inv devices t" using reach_inv [OF step.hyps(1) step.prems(1)] .
  with step show ?case by (auto elim!: dispatch_stepE intro: deliver_open)
qed

lemma barrier_pending_iff:
  assumes "\<forall>p \<in> set ps. promise_error p = None"
  shows "barrier (map promise_value ps) = Pending \<longleftrightarrow> Pending \<in> set ps"
proof -
  have "promise_value p = None \<longleftrightarrow> p = Pending" if "p \<in> set ps" for p
    using assms that by (cases p) (auto simp: promise_value_def promise_error_def)
  then show ?thesis by (force simp: barrier_def)
qed

text \<open>
  C23. Settlement at the end of a run: once no callback is awaited, the promise
  \<^verbatim>\<open>send\<close> returned is settled if and only if no completion callback threw.
\<close>

theorem quiescent_settles:
  assumes "send env this data devices = (None, s0)" and "(dispatch_step g)\<^sup>*\<^sup>* s0 s"
    and "inflight s = []"
  shows "\<exists>j. join s = Some j \<and> (aggregate j \<noteq> Pending \<longleftrightarrow> uncaught s = [])"
proof -
  from assms(1) obtain payload where s0: "s0 = send_state this payload data devices"
    by (auto simp: send_ok)
  have inv: "dispatch_inv devices s" using reach_inv [OF assms(2)] by (simp add: s0 send_state_inv)
  have oc: "open_count_inv s"
    using assms(2) unfolding s0 by (rule reach_open) (rule send_state_inv, rule send_state_open)
  then have "Pending \<in> set (promises s) \<longleftrightarrow> uncaught s \<noteq> []"
    using assms(3) count_list_0_iff [of "promises s" Pending] by (simp add: open_count_inv_def)
  moreover obtain j where j: "join s = Some j" using inv by (auto simp: dispatch_inv_def)
  moreover have "\<forall>p \<in> set (promises s). promise_error p = None" using inv by (simp add: dispatch_inv_def)
  ultimately show ?thesis
    using dispatch_inv_aggregate [OF inv j] barrier_pending_iff by auto
qed

subsection \<open>Runs in a process that binds \<^verbatim>\<open>arn\<close>\<close>

lemma callbacks_resolve_with_arn:
  assumes "g ''arn'' = Some a" and "\<forall>i<length devices. device_ok (devices ! i)"
  obtains outcome where "\<forall>i<length devices.
      snd (publish_callback g (devices ! i) (fst (reply i)) (snd (reply i))) = Inr (outcome i)
      \<and> device_record (devices ! i) = Inr (js_prop (outcome i) ''device'')
      \<and> js_prop (outcome i) ''transmitted'' = JBool (js_nullish (fst (reply i)))"
proof -
  define outcome where "outcome i = (case snd (publish_callback g (devices ! i) (fst (reply i)) (snd (reply i))) of
                                       Inr v \<Rightarrow> v | Inl _ \<Rightarrow> JUndefined)" for i
  have "snd (publish_callback g (devices ! i) (fst (reply i)) (snd (reply i))) = Inr (outcome i)
      \<and> device_record (devices ! i) = Inr (js_prop (outcome i) ''device'')
      \<and> js_prop (outcome i) ''transmitted'' = JBool (js_nullish (fst (reply i)))"
    if "i < length devices" for i
  proof -
    from that assms(2) obtain dev where dev: "device_record (devices ! i) = Inr dev"
      by (auto simp: device_ok_def)
    from callback_resolves_with_arn [where g = g and err = "fst (reply i)" and data = "snd (reply i)", OF dev assms(1)] dev
    show ?thesis by (auto simp: outcome_def)
  qed
  then show ?thesis using that by blast
qed

lemma send_outcomes_with_arn:
  assumes "send env this data devices = (None, s0)"
    and "distinct order" and "set order = {..<length devices}"
    and "g ''arn'' = Some a" and "\<forall>i<length devices. device_ok (devices ! i)"
  shows "\<exists>s j outs. deliver_all g reply order s0 = Some s \<and> join s = Some j
     \<and> aggregate j = Resolved (map Some outs) \<and> length outs = length devices
     \<and> (\<forall>i<length devices. device_record (devices ! i) = Inr (js_prop (outs ! i) ''device'')
          \<and> js_prop (outs ! i) ''transmitted'' = JBool (js_nullish (fst (reply i))))"
proof -
  obtain outcome where cb: "\<forall>i<length devices.
      snd (publish_callback g (devices ! i) (fst (reply i)) (snd (reply i))) = Inr (outcome i)
      \<and> device_record (devices ! i) = Inr (js_prop (outcome i) ''device'')
      \<and> js_prop (outcome i) ''transmitted'' = JBool (js_nullish (fst (reply i)))"
    using assms(4,5) by (rule callbacks_resolve_with_arn)
  then have "\<forall>i<length devices. snd (publish_callback g (devices ! i) (fst (reply i)) (snd (reply i))) = Inr (outcome i)"
    by blast
  from send_resolves_all [OF assms(1-3) this] obtain s j where
    "deliver_all g reply order s0 = Some s" "join s = Some j"
    "aggregate j = Resolved (map (\<lambda>i. Some (outcome i)) [0..<length devices])" by blast
  with cb show ?thesis
    by (intro exI [of _ s] exI [of _ j] exI [of _ "map outcome [0..<length devices]"]) (auto simp: comp_def)
qed

text \<open>
  C24. The contract of the specification (section 4.3 and property 4) holds exactly
  when the error branch can reach \<^verbatim>\<open>promise.resolve\<close>: in a process whose global
  object binds \<^verbatim>\<open>arn\<close>, for devices the callback can describe, every completion
  order with any transport replies resolves the promise \<^verbatim>\<open>send\<close> returned with one
  outcome per device in input order, each naming its own device and flagged
  \<^verbatim>\<open>transmitted\<close> exactly when that device's transport reported no error.
\<close>

theorem send_completes_with_arn:
  assumes "send env this data devices = (None, s0)"
    and "distinct order" and "set order = {..<length devices}"
    and "g ''arn'' = Some a" and "\<forall>i<length devices. device_ok (devices ! i)"
  shows "\<exists>s j outs. deliver_all g reply order s0 = Some s \<and> join s = Some j
     \<and> aggregate j = Resolved (map Some outs) \<and> length outs = length devices
     \<and> (\<forall>i<length devices. device_record (devices ! i) = Inr (js_prop (outs ! i) ''device'')
          \<and> js_prop (outs ! i) ''transmitted'' = JBool (js_nullish (fst (reply i))))"
  using assms by (rule send_outcomes_with_arn)

subsection \<open>Bounds\<close>

lemma callback_logs_length: "length (fst (publish_callback g d err data)) \<le> 2"
  by (simp add: publish_callback_response Let_def split: sum.splits option.splits)

lemma inflight_length_le: "dispatch_inv devices s \<Longrightarrow> length (inflight s) \<le> length devices"
proof -
  assume inv: "dispatch_inv devices s"
  then have "distinct (map fst (inflight s))" and "set (map fst (inflight s)) \<subseteq> {..<length devices}"
    by (auto simp: dispatch_inv_def)
  then show ?thesis
    using card_mono [OF finite_lessThan, of "set (map fst (inflight s))" "length devices"]
          distinct_card [of "map fst (inflight s)"] by simp
qed

definition log_bound_inv :: "jsval list \<Rightarrow> dispatch \<Rightarrow> bool" where
  "log_bound_inv devices s \<longleftrightarrow> length (logs s) \<le> 2 * (length devices - length (inflight s))"

lemma deliver_log_bound:
  assumes inv: "dispatch_inv devices s" and lb: "log_bound_inv devices s"
    and del: "deliver g i err data s = Some s'"
  shows "log_bound_inv devices s'"
proof -
  from del obtain d where d: "map_of (inflight s) i = Some d"
    by (auto simp: deliver_def split: option.splits)
  have dist: "distinct (map fst (inflight s))" using inv by (simp add: dispatch_inv_def)
  have ne: "0 < length (inflight s)" using d by (cases "inflight s") auto
  have le: "length (inflight s) \<le> length devices" using inflight_length_le [OF inv] .
  have fr: "inflight s' = filter (\<lambda>(k, _). k \<noteq> i) (inflight s)"
    and lg: "logs s' = logs s @ fst (publish_callback g d err data)"
    using del d by (auto simp: deliver_def Let_def split: prod.splits sum.splits)
  have "length (inflight s') = length (inflight s) - 1"
    using fr length_filter_key_distinct [OF dist d] by simp
  moreover have "length devices - (length (inflight s) - 1) = length devices - length (inflight s) + 1"
    using ne le by linarith
  ultimately show ?thesis using lg callback_logs_length [of g d err data] lb
    by (simp add: log_bound_inv_def)
qed

lemma reach_log_bound:
  "(dispatch_step g)\<^sup>*\<^sup>* s0 s \<Longrightarrow> dispatch_inv devices s0 \<Longrightarrow> log_bound_inv devices s0 \<Longrightarrow> log_bound_inv devices s"
proof (induction rule: rtranclp_induct)
  case base
  then show ?case by simp
next
  case (step t u)
  have "dispatch_inv devices t" using reach_inv [OF step.hyps(1) step.prems(1)] .
  with step show ?case by (auto elim!: dispatch_stepE intro: deliver_log_bound)
qed

text \<open>
  C26. Bounds in every state reachable after \<^verbatim>\<open>send\<close>: the counter of
  \<^verbatim>\<open>Parse.Promise.when\<close> stays between 0 and the number of devices (it never goes
  negative, so the joined promise is resolved at most once); at most one exception per
  completed device has escaped; and the log holds at most two records per completed
  device.
\<close>

theorem dispatch_bounds:
  assumes "send env this data devices = (None, s0)" and "(dispatch_step g)\<^sup>*\<^sup>* s0 s"
  shows "\<exists>j. join s = Some j \<and> 0 \<le> remaining j \<and> remaining j \<le> int (length devices)
     \<and> length (uncaught s) \<le> length devices - length (inflight s)
     \<and> length (logs s) \<le> 2 * (length devices - length (inflight s))"
proof -
  from assms(1) obtain payload where s0: "s0 = send_state this payload data devices"
    by (auto simp: send_ok)
  have inv: "dispatch_inv devices s" using reach_inv [OF assms(2)] by (simp add: s0 send_state_inv)
  have oc: "open_count_inv s"
    using assms(2) unfolding s0 by (rule reach_open) (rule send_state_inv, rule send_state_open)
  have lb: "log_bound_inv devices s"
    using assms(2) unfolding s0 by (rule reach_log_bound) (rule send_state_inv, simp add: log_bound_inv_def send_state_def)
  from inv obtain j where j: "join s = Some j" "join_inv j" "results j = map promise_value (promises s)"
    and len: "length (promises s) = length devices"
    by (auto simp: dispatch_inv_def)
  have "remaining j = int (count_list (results j) None)" using j(2) by (simp add: join_inv_def)
  moreover have "count_list (results j) None \<le> length devices"
    using j(3) len count_le_length [of "results j" None] by simp
  moreover have "count_list (promises s) Pending \<le> length devices"
    using len count_le_length [of "promises s" Pending] by simp
  ultimately show ?thesis
    using j(1) oc lb by (simp add: open_count_inv_def log_bound_inv_def)
qed

subsection \<open>No rejection\<close>

text \<open>C31. The adapter never rejects: in every state reachable after \<^verbatim>\<open>send\<close>, under
  any transport replies and any global bindings, no device's promise is rejected, the
  join has recorded no error, and the promise \<^verbatim>\<open>send\<close> returned is not rejected.
  A transport error is either captured into a resolved outcome or escapes the callback;
  it never reaches the caller of \<^verbatim>\<open>send\<close> as a rejection.\<close>

theorem send_never_rejects:
  assumes "send env this data devices = (None, s0)" and "(dispatch_step g)\<^sup>*\<^sup>* s0 s"
  shows "(\<forall>p \<in> set (promises s). promise_error p = None)
    \<and> (\<exists>j. join s = Some j \<and> \<not> had_error j \<and> promise_error (aggregate j) = None)"
proof -
  from assms(1) obtain payload where s0: "s0 = send_state this payload data devices"
    by (auto simp: send_ok)
  have inv: "dispatch_inv devices s" using reach_inv [OF assms(2)] by (simp add: s0 send_state_inv)
  then obtain j where j: "join s = Some j" "join_inv j" by (auto simp: dispatch_inv_def)
  have "promise_error (barrier rs) = None" for rs :: "jsval option list"
    by (simp add: barrier_def promise_error_def)
  with j inv show ?thesis by (auto simp: dispatch_inv_def join_inv_def)
qed

subsection \<open>Witnesses\<close>

text \<open>The run used by several witnesses: \<^verbatim>\<open>send\<close> to one device, whose publish call
  fails; the callback throws on the unbound \<^verbatim>\<open>arn\<close>.\<close>

lemma example_failed_run:
  obtains payload s where
    "send example_env example_adapter example_request [example_device] =
       (None, send_state example_adapter payload example_request [example_device])"
    "deliver Map.empty 0 example_error JNull (send_state example_adapter payload example_request [example_device]) = Some s"
    "(dispatch_step Map.empty)\<^sup>*\<^sup>* (send_state example_adapter payload example_request [example_device]) s"
    "uncaught s \<noteq> []" "inflight s = []"
proof -
  obtain payload where send: "send example_env example_adapter example_request [example_device] =
       (None, send_state example_adapter payload example_request [example_device])"
    using example_send_state by blast
  let ?s0 = "send_state example_adapter payload example_request [example_device]"
  obtain s where del: "deliver Map.empty 0 example_error JNull ?s0 = Some s"
    using example_deliver_exists by blast
  have look: "map_of (inflight ?s0) 0 = Some example_device" by (simp add: send_state_def)
  have cb: "snd (publish_callback Map.empty example_device example_error JNull) =
      Inl (ReferenceError ''arn is not defined'')"
    using example_device_record example_error_not_nullish by (rule callback_error_result) simp
  have "uncaught s \<noteq> []" using deliver_throws [OF del look cb] by auto
  moreover have "inflight s = []"
    using del by (auto simp: deliver_def send_state_def Let_def split: prod.splits sum.splits)
  moreover have "(dispatch_step Map.empty)\<^sup>*\<^sup>* ?s0 s"
    using del by (blast intro: dispatch_step.deliver)
  ultimately show ?thesis using that send del by blast
qed

theorem quiescent_settles_witness:
  "\<exists>s0 s j. send example_env example_adapter example_request [example_device] = (None, s0)
     \<and> (dispatch_step Map.empty)\<^sup>*\<^sup>* s0 s \<and> inflight s = []
     \<and> join s = Some j \<and> uncaught s \<noteq> [] \<and> aggregate j = Pending"
proof -
  obtain payload s where send: "send example_env example_adapter example_request [example_device] =
       (None, send_state example_adapter payload example_request [example_device])"
    and steps: "(dispatch_step Map.empty)\<^sup>*\<^sup>* (send_state example_adapter payload example_request [example_device]) s"
    and thrown: "uncaught s \<noteq> []" and empty: "inflight s = []"
    by (rule example_failed_run)
  from quiescent_settles [OF send steps empty] thrown obtain j where
    "join s = Some j" "aggregate j = Pending" by blast
  then show ?thesis using send steps empty thrown by blast
qed

theorem send_completes_with_arn_witness:
  "\<exists>s0. send example_env example_adapter example_request [example_device, example_device'] = (None, s0)
    \<and> (\<exists>s j outs. deliver_all (Map.empty(''arn'' \<mapsto> JStr ''x''))
            (\<lambda>i. if i = 0 then (example_error, JNull) else example_ok_reply i) [1, 0] s0 = Some s
         \<and> join s = Some j \<and> aggregate j = Resolved (map Some outs) \<and> length outs = 2
         \<and> js_prop (outs ! 0) ''transmitted'' = JBool False \<and> js_prop (outs ! 1) ''transmitted'' = JBool True)"
proof -
  obtain payload where send: "send example_env example_adapter example_request [example_device, example_device'] =
       (None, send_state example_adapter payload example_request [example_device, example_device'])"
    using example_send_state by blast
  have ord: "distinct [1::nat, 0]" "set [1::nat, 0] = {..<length [example_device, example_device']}"
    by auto
  have arn: "(Map.empty(''arn'' \<mapsto> JStr ''x'')) ''arn'' = Some (JStr ''x'')" by simp
  have ok: "\<forall>i<length [example_device, example_device']. device_ok ([example_device, example_device'] ! i)"
  proof (intro allI impI)
    fix i assume "i < length [example_device, example_device']"
    then have "i = 0 \<or> i = 1" by auto
    then show "device_ok ([example_device, example_device'] ! i)"
      by (auto simp: device_ok_def device_record_def example_device_def example_device'_def obj_prop_def)
  qed
  from send_completes_with_arn [where g = "Map.empty(''arn'' \<mapsto> JStr ''x'')"
      and reply = "\<lambda>i. if i = 0 then (example_error, JNull) else example_ok_reply i", OF send ord arn ok]
  obtain s j outs where r: "deliver_all (Map.empty(''arn'' \<mapsto> JStr ''x''))
            (\<lambda>i. if i = 0 then (example_error, JNull) else example_ok_reply i) [1, 0]
            (send_state example_adapter payload example_request [example_device, example_device']) = Some s"
      "join s = Some j" "aggregate j = Resolved (map Some outs)" "length outs = 2"
      "\<forall>i<2. js_prop (outs ! i) ''transmitted'' =
          JBool (js_nullish (fst (if i = 0 then (example_error, JNull) else example_ok_reply i)))"
    by auto
  have "js_prop (outs ! 0) ''transmitted'' = JBool False" "js_prop (outs ! 1) ''transmitted'' = JBool True"
    using r(5) example_error_not_nullish by (auto simp: example_ok_reply_def js_nullish_def)
  then show ?thesis using send r(1-4) by blast
qed

theorem dispatch_bounds_witness:
  "\<exists>s0 s j. send example_env example_adapter example_request [example_device] = (None, s0)
     \<and> deliver Map.empty 0 example_error JNull s0 = Some s \<and> join s = Some j
     \<and> 0 \<le> remaining j \<and> remaining j \<le> 1 \<and> length (uncaught s) \<le> 1 - length (inflight s)
     \<and> length (logs s) \<le> 2 * (1 - length (inflight s))"
proof -
  obtain payload s where send: "send example_env example_adapter example_request [example_device] =
       (None, send_state example_adapter payload example_request [example_device])"
    and del: "deliver Map.empty 0 example_error JNull
      (send_state example_adapter payload example_request [example_device]) = Some s"
    and steps: "(dispatch_step Map.empty)\<^sup>*\<^sup>* (send_state example_adapter payload example_request [example_device]) s"
    by (rule example_failed_run)
  from dispatch_bounds [OF send steps] send del show ?thesis by auto
qed

theorem send_never_rejects_witness:
  "\<exists>s0 s j. send example_env example_adapter example_request [example_device] = (None, s0)
     \<and> deliver Map.empty 0 example_error JNull s0 = Some s \<and> uncaught s \<noteq> []
     \<and> (\<forall>p \<in> set (promises s). promise_error p = None)
     \<and> join s = Some j \<and> \<not> had_error j \<and> promise_error (aggregate j) = None"
proof -
  obtain payload s where send: "send example_env example_adapter example_request [example_device] =
       (None, send_state example_adapter payload example_request [example_device])"
    and del: "deliver Map.empty 0 example_error JNull
      (send_state example_adapter payload example_request [example_device]) = Some s"
    and steps: "(dispatch_step Map.empty)\<^sup>*\<^sup>* (send_state example_adapter payload example_request [example_device]) s"
    and thrown: "uncaught s \<noteq> []"
    by (rule example_failed_run)
  from send_never_rejects [OF send steps] send del thrown show ?thesis by blast
qed

end
