(* ===== verification/Dispatch_Refinement.thy ===== *)
theory Dispatch_Refinement
  imports SNS_Runs
begin

text \<open>
  The specification's model of the dispatch (section 9 of the design: "a join over a
  fixed-size set of independent tasks, each writing its result into a pre-sized slot,
  the aggregate completing when the last slot is filled") as an abstract transition
  system, and the proof that the dispatch refines it. The abstract state is the list of
  slots; a step fills one empty slot \<open>i\<close> with an outcome that the completion of
  device \<open>i\<close> produces; the observable is the barrier over the slots. The abstraction
  function reads a dispatch state's slots off its promises.
\<close>

inductive barrier_fill :: "global_env \<Rightarrow> jsval list \<Rightarrow> jsval option list \<Rightarrow> jsval option list \<Rightarrow> bool"
  for g devices where
  fill: "i < length slots \<Longrightarrow> slots ! i = None \<Longrightarrow>
         snd (publish_callback g (devices ! i) err data) = Inr v \<Longrightarrow>
         barrier_fill g devices slots (slots[i := Some v])"

inductive_cases barrier_fillE: "barrier_fill g devices slots slots'"

definition abs_dispatch :: "dispatch \<Rightarrow> jsval option list" where
  "abs_dispatch s = map promise_value (promises s)"

lemma abs_send_state: "abs_dispatch (send_state this payload data devices) = replicate (length devices) None"
  by (simp add: abs_dispatch_def send_state_def promise_value_def)

lemma deliver_refines_step:
  assumes inv: "dispatch_inv devices s" and del: "deliver g i err data s = Some s'"
  shows "abs_dispatch s' = abs_dispatch s \<or> barrier_fill g devices (abs_dispatch s) (abs_dispatch s')"
proof -
  from del obtain d where d: "map_of (inflight s) i = Some d"
    by (auto simp: deliver_def split: option.splits)
  from inflight_lookup [OF inv d] have i: "i < length devices" "d = devices ! i" "promises s ! i = Pending"
    by auto
  have len: "length (promises s) = length devices" using inv by (simp add: dispatch_inv_def)
  obtain ls r where cb: "publish_callback g d err data = (ls, r)" by fastforce
  show ?thesis
  proof (cases r)
    case (Inl e)
    with del d cb have "promises s' = promises s" by (auto simp: deliver_def)
    then show ?thesis by (simp add: abs_dispatch_def)
  next
    case (Inr v)
    with del d cb i(3) have "promises s' = (promises s)[i := Resolved v]"
      by (auto simp: deliver_def promise_resolve_def)
    then have "abs_dispatch s' = (abs_dispatch s)[i := Some v]"
      by (simp add: abs_dispatch_def map_promise_value_update)
    moreover have "barrier_fill g devices (abs_dispatch s) ((abs_dispatch s)[i := Some v])"
    proof (rule barrier_fill.fill)
      show "i < length (abs_dispatch s)" using i(1) len by (simp add: abs_dispatch_def)
      show "abs_dispatch s ! i = None" using i(1,3) len by (simp add: abs_dispatch_def promise_value_def)
      show "snd (publish_callback g (devices ! i) err data) = Inr v" using cb Inr i(2) by simp
    qed
    ultimately show ?thesis by simp
  qed
qed

text \<open>
  C25. Refinement of the specification's barrier: every run of completions after
  \<^verbatim>\<open>send\<close>, read through the abstraction, is a run of the abstract barrier from
  all slots empty (up to stuttering, for completions that throw), so each slot is filled
  at most once and only with an outcome the completion of its own device produces; and
  the promise \<^verbatim>\<open>send\<close> returned is the barrier over the abstract slots.
\<close>

theorem dispatch_refines_barrier:
  assumes "send env this data devices = (None, s0)" and "(dispatch_step g)\<^sup>*\<^sup>* s0 s"
  shows "(barrier_fill g devices)\<^sup>*\<^sup>* (replicate (length devices) None) (abs_dispatch s)
     \<and> (\<exists>j. join s = Some j \<and> aggregate j = barrier (abs_dispatch s))"
proof -
  from assms(1) obtain payload where s0: "s0 = send_state this payload data devices"
    by (auto simp: send_ok)
  have "(barrier_fill g devices)\<^sup>*\<^sup>* (abs_dispatch s0) (abs_dispatch s)"
    using assms(2)
  proof (induction rule: rtranclp_induct)
    case base
    then show ?case by simp
  next
    case (step t u)
    have inv: "dispatch_inv devices t" using reach_inv [OF step.hyps(1)] by (simp add: s0 send_state_inv)
    from step.hyps(2) obtain i err data where "deliver g i err data t = Some u" by (auto elim: dispatch_stepE)
    from deliver_refines_step [OF inv this] step.IH show ?case
      by (auto intro: rtranclp.rtrancl_into_rtrancl)
  qed
  moreover have inv: "dispatch_inv devices s" using reach_inv [OF assms(2)] by (simp add: s0 send_state_inv)
  then obtain j where "join s = Some j" by (auto simp: dispatch_inv_def)
  ultimately show ?thesis
    using dispatch_inv_aggregate [OF inv] abs_send_state [of this payload data devices]
    by (auto simp: s0 abs_dispatch_def)
qed

subsection \<open>Witness\<close>

theorem dispatch_refines_barrier_witness:
  "\<exists>s0 s1. send example_env example_adapter example_request [example_device] = (None, s0)
     \<and> deliver Map.empty 0 JNull (JObj [(''MessageId'', JStr ''m1'')]) s0 = Some s1
     \<and> (barrier_fill Map.empty [example_device])\<^sup>*\<^sup>* [None] (abs_dispatch s1)
     \<and> (\<exists>j. join s1 = Some j \<and> aggregate j = barrier (abs_dispatch s1))"
proof -
  obtain payload where send: "send example_env example_adapter example_request [example_device] =
       (None, send_state example_adapter payload example_request [example_device])"
    using example_send_state by blast
  obtain s1 where del: "deliver Map.empty 0 JNull (JObj [(''MessageId'', JStr ''m1'')])
      (send_state example_adapter payload example_request [example_device]) = Some s1"
    using example_deliver_exists by blast
  have steps: "(dispatch_step Map.empty)\<^sup>*\<^sup>* (send_state example_adapter payload example_request [example_device]) s1"
    using del by (blast intro: dispatch_step.deliver)
  from dispatch_refines_barrier [OF send steps] send del show ?thesis by auto
qed

end
