(* ===== verification/JSON_Parse.thy ===== *)
theory JSON_Parse
  imports JSON
begin

text \<open>
  The reading side of the \<^verbatim>\<open>Message\<close> parameter. With
  \<^verbatim>\<open>MessageStructure: 'json'\<close> (\<^verbatim>\<open>src/src/SNS.js\<close> line 72) Amazon SNS parses
  \<^verbatim>\<open>Message\<close> as a JSON object whose members are strings, one per platform, and
  delivers to each endpoint the string under its platform's key (or under
  \<^verbatim>\<open>default\<close>). \<open>parse_str_object\<close> is that reader, following RFC 8259 on
  this fragment: insignificant whitespace, string literals with the escapes
  \<^verbatim>\<open>\\b \\t \\n \\f \\r \\" \\\\ \\/\<close> and \<^verbatim>\<open>\\uXXXX\<close> (here for code points below 256,
  the range of the model's characters), unescaped control characters refused, and
  any member value other than a string refused. The lemmas show that it inverts
  \<open>json_stringify\<close> on every object whose values are strings or
  \<^verbatim>\<open>undefined\<close>, the shape of the payload bundle, and that the members read back
  are exactly the string-valued entries.
\<close>


subsection \<open>The reader\<close>

definition json_ws :: "char \<Rightarrow> bool" where
  "json_ws c \<longleftrightarrow> of_char c \<in> {9, 10, 13, 32::nat}"

definition skip_ws :: "string \<Rightarrow> string" where
  "skip_ws cs = dropWhile json_ws cs"

definition json_hex_value :: "char \<Rightarrow> nat option" where
  "json_hex_value c = (let n = of_char c in
     if 48 \<le> n \<and> n < 58 then Some (n - 48)
     else if 97 \<le> n \<and> n < 103 then Some (n - 87)
     else if 65 \<le> n \<and> n < 71 then Some (n - 55) else None)"

fun parse_hex4 :: "string \<Rightarrow> (nat \<times> string) option" where
  "parse_hex4 (a # b # c # d # rest) =
     (case (json_hex_value a, json_hex_value b, json_hex_value c, json_hex_value d) of
        (Some x, Some y, Some z, Some w) \<Rightarrow> Some (((x * 16 + y) * 16 + z) * 16 + w, rest)
      | _ \<Rightarrow> None)"
| "parse_hex4 _ = None"

definition json_unescape :: "string \<Rightarrow> (char \<times> string) option" where
  "json_unescape cs = (case cs of
       [] \<Rightarrow> None
     | e # rest \<Rightarrow>
         if e = CHR ''b'' then Some (char_of (8::nat), rest)
         else if e = CHR ''t'' then Some (char_of (9::nat), rest)
         else if e = CHR ''n'' then Some (char_of (10::nat), rest)
         else if e = CHR ''f'' then Some (char_of (12::nat), rest)
         else if e = CHR ''r'' then Some (char_of (13::nat), rest)
         else if e = dquote then Some (dquote, rest)
         else if e = bslash then Some (bslash, rest)
         else if e = CHR ''/'' then Some (CHR ''/'', rest)
         else if e = CHR ''u'' then
           (case parse_hex4 rest of
              Some (n, r) \<Rightarrow> if n < 256 then Some (char_of n, r) else None
            | None \<Rightarrow> None)
         else None)"

lemma parse_hex4_length: "parse_hex4 cs = Some (n, r) \<Longrightarrow> length r < length cs"
  by (induction cs rule: parse_hex4.induct) (auto split: option.splits)

lemma json_unescape_length: "json_unescape cs = Some (c, r) \<Longrightarrow> length r < length cs"
  by (auto simp: json_unescape_def split: list.splits if_splits option.splits prod.splits
           dest!: parse_hex4_length)

function parse_str :: "string \<Rightarrow> (string \<times> string) option" where
  "parse_str [] = None"
| "parse_str (c # cs) =
     (if c = dquote then Some ([], cs)
      else if c = bslash then
        (case json_unescape cs of
           None \<Rightarrow> None
         | Some (ch, rest) \<Rightarrow> map_option (apfst (Cons ch)) (parse_str rest))
      else if of_char c < (32::nat) then None
      else map_option (apfst (Cons c)) (parse_str cs))"
  by pat_completeness auto
termination
  by (relation "measure length") (auto dest: json_unescape_length)

lemma parse_str_length: "parse_str cs = Some (s, r) \<Longrightarrow> length r < length cs"
proof (induction cs arbitrary: s rule: parse_str.induct)
  case 1
  then show ?case by simp
next
  case (2 c cs)
  then show ?case
    by (auto split: if_splits option.splits prod.splits)
       (metis json_unescape_length less_SucI less_trans)
qed



lemma dquote_lit: "dquote = CHR 0x22"
  unfolding dquote_def by code_simp

lemma bslash_lit: "bslash = CHR 0x5C"
  unfolding bslash_def by code_simp

lemma bslash_neq_dquote [simp]: "bslash \<noteq> dquote"
  by (simp add: dquote_lit bslash_lit)

lemma char_of_lits:
  "char_of (8::nat) = CHR 0x08" "char_of (9::nat) = CHR 0x09" "char_of (10::nat) = CHR 0x0A"
  "char_of (12::nat) = CHR 0x0C" "char_of (13::nat) = CHR 0x0D" "char_of (34::nat) = CHR 0x22"
  "char_of (92::nat) = CHR 0x5C"
  by code_simp+

lemma json_hex_value_hex_digit: "d < 16 \<Longrightarrow> json_hex_value (hex_digit d) = Some d"
  by (auto simp: json_hex_value_def hex_digit_def Let_def)

lemma parse_str_bslash:
  "json_unescape cs = Some (x, r) \<Longrightarrow> parse_str (bslash # cs) = map_option (apfst (Cons x)) (parse_str r)"
  by (simp add: dquote_def bslash_def)

lemma json_unescape_u00:
  assumes "n < 32"
  shows "json_unescape (CHR ''u'' # CHR ''0'' # CHR ''0'' # hex_digit (n div 16) # hex_digit (n mod 16) # r)
           = Some (char_of n, r)"
proof -
  have "n div 16 < 16" "n mod 16 < 16" using assms by simp_all
  moreover have "json_hex_value CHR ''0'' = Some 0" by (simp add: json_hex_value_def)
  ultimately have "parse_hex4 (CHR ''0'' # CHR ''0'' # hex_digit (n div 16) # hex_digit (n mod 16) # r) = Some (n, r)"
    by (simp add: json_hex_value_hex_digit)
  with assms show ?thesis by (simp add: json_unescape_def dquote_lit bslash_lit)
qed

lemma parse_str_escape_char_of:
  assumes lt: "n < (256::nat)"
  shows "parse_str (json_escape_char (char_of n) @ r) = map_option (apfst (Cons (char_of n))) (parse_str r)"
proof -
  have e: "json_escape_char (char_of n) =
     (if n = 8 then [bslash, CHR ''b'']
     else if n = 9 then [bslash, CHR ''t'']
     else if n = 10 then [bslash, CHR ''n'']
     else if n = 12 then [bslash, CHR ''f'']
     else if n = 13 then [bslash, CHR ''r'']
     else if n = 34 then [bslash, dquote]
     else if n = 92 then [bslash, bslash]
     else if n < 32 then [bslash, CHR ''u'', CHR ''0'', CHR ''0'', hex_digit (n div 16), hex_digit (n mod 16)]
     else [char_of n])"
    using lt by (simp add: json_escape_char_def Let_def)
  have plain: "\<not> n < 32 \<Longrightarrow> n \<noteq> 34 \<Longrightarrow> n \<noteq> 92 \<Longrightarrow>
      parse_str (char_of n # r) = map_option (apfst (Cons (char_of n))) (parse_str r)"
    using lt by (simp add: dquote_def bslash_def)
  show ?thesis
    unfolding e using json_unescape_u00 [of n r] plain
    by (simp add: parse_str_bslash json_unescape_def dquote_lit bslash_lit char_of_lits)
qed

lemma parse_str_escape_char:
  "parse_str (json_escape_char c @ r) = map_option (apfst (Cons c)) (parse_str r)"
  using parse_str_escape_char_of [of "of_char c" r] by simp

lemma parse_str_quote: "parse_str (tl (json_quote s) @ r) = Some (s, r)"
proof -
  have "parse_str (concat (map json_escape_char s) @ dquote # r) = Some (s, r)"
    by (induction s) (simp_all add: parse_str_escape_char)
  then show ?thesis by (simp add: json_quote_def)
qed

definition parse_key_value :: "string \<Rightarrow> ((string \<times> string) \<times> string) option" where
  "parse_key_value cs =
     (case skip_ws cs of
        c # r1 \<Rightarrow>
          if c \<noteq> dquote then None
          else (case parse_str r1 of
            None \<Rightarrow> None
          | Some (k, r2) \<Rightarrow>
              (case skip_ws r2 of
                 c2 # r3 \<Rightarrow>
                   if c2 \<noteq> CHR '':'' then None
                   else (case skip_ws r3 of
                     c3 # r4 \<Rightarrow>
                       if c3 \<noteq> dquote then None
                       else (case parse_str r4 of
                         None \<Rightarrow> None
                       | Some (v, r5) \<Rightarrow> Some ((k, v), r5))
                   | [] \<Rightarrow> None)
               | [] \<Rightarrow> None))
      | [] \<Rightarrow> None)"

lemma length_skip_ws: "length (skip_ws cs) \<le> length cs"
  by (simp add: skip_ws_def length_dropWhile_le)

lemma parse_key_value_length:
  assumes "parse_key_value cs = Some (kv, r)"
  shows "length r < length cs"
proof -
  from assms obtain c r1 k r2 c2 r3 c3 r4 v where
    s1: "skip_ws cs = c # r1" and p1: "parse_str r1 = Some (k, r2)" and s2: "skip_ws r2 = c2 # r3"
    and s3: "skip_ws r3 = c3 # r4" and p2: "parse_str r4 = Some (v, r)"
    by (auto simp: parse_key_value_def split: list.splits if_splits option.splits)
  have "length r < length r4" "length r2 < length r1"
    using p1 p2 by (auto dest: parse_str_length)
  moreover have "Suc (length r1) \<le> length cs" "Suc (length r3) \<le> length r2" "Suc (length r4) \<le> length r3"
    using length_skip_ws [of cs] length_skip_ws [of r2] length_skip_ws [of r3] s1 s2 s3 by simp_all
  ultimately show ?thesis by linarith
qed

lemma parse_members_step:
  assumes "parse_key_value cs = Some (kv, r)" and "skip_ws r = c # r'"
  shows "length r' < length cs"
proof -
  have "length r < length cs" using assms(1) by (rule parse_key_value_length)
  moreover have "Suc (length r') \<le> length r" using length_skip_ws [of r] assms(2) by simp
  ultimately show ?thesis by simp
qed

function parse_members :: "string \<Rightarrow> ((string \<times> string) list \<times> string) option" where
  "parse_members cs =
     (case parse_key_value cs of
        None \<Rightarrow> None
      | Some (kv, r) \<Rightarrow>
          (case skip_ws r of
             [] \<Rightarrow> None
           | c # r' \<Rightarrow>
               if c = CHR '','' then map_option (apfst (Cons kv)) (parse_members r')
               else if c = CHR ''}'' then Some ([kv], r')
               else None))"
  by pat_completeness auto
termination
  by (relation "measure length") (auto dest: parse_members_step)

definition parse_str_object :: "string \<Rightarrow> (string \<times> string) list option" where
  "parse_str_object cs =
     (case skip_ws cs of
        c # r \<Rightarrow>
          if c \<noteq> CHR ''{'' then None
          else (case skip_ws r of
            c' # r' \<Rightarrow>
              if c' = CHR ''}'' then (if skip_ws r' = [] then Some [] else None)
              else (case parse_members r of
                None \<Rightarrow> None
              | Some (kvs, rest) \<Rightarrow> if skip_ws rest = [] then Some kvs else None)
          | [] \<Rightarrow> None)
      | [] \<Rightarrow> None)"

text \<open>
  The members of an object as the reader returns them, and the string-valued entries
  of a model object, in order.
\<close>

definition member_text :: "string \<times> string \<Rightarrow> string" where
  "member_text kv = json_quote (fst kv) @ '':'' @ json_quote (snd kv)"

fun str_members :: "(string \<times> jsval) list \<Rightarrow> (string \<times> string) list" where
  "str_members [] = []"
| "str_members ((k, JStr s) # kvs) = (k, s) # str_members kvs"
| "str_members (_ # kvs) = str_members kvs"

definition str_or_undef :: "jsval \<Rightarrow> bool" where
  "str_or_undef v = (case v of JUndefined \<Rightarrow> True | JStr _ \<Rightarrow> True | _ \<Rightarrow> False)"

subsection \<open>The reader inverts the serialiser\<close>

lemma skip_ws_Cons: "\<not> json_ws c \<Longrightarrow> skip_ws (c # r) = c # r"
  by (simp add: skip_ws_def)

lemma not_json_ws_lits [simp]:
  "\<not> json_ws dquote" "\<not> json_ws CHR '':''" "\<not> json_ws CHR '',''" "\<not> json_ws CHR ''{''" "\<not> json_ws CHR ''}''"
  by (simp_all add: json_ws_def dquote_lit)

lemma dquote_neq_brace [simp]: "dquote \<noteq> CHR ''}''"
  by (simp add: dquote_lit)

lemma skip_ws_Nil [simp]: "skip_ws [] = []"
  by (simp add: skip_ws_def)

lemma json_quote_Cons: "json_quote s @ r = dquote # tl (json_quote s) @ r"
  by (simp add: json_quote_def)

lemma parse_key_value_quote:
  "parse_key_value (json_quote k @ CHR '':'' # json_quote v @ r) = Some ((k, v), r)"
  by (simp add: parse_key_value_def json_quote_Cons [of k] json_quote_Cons [of v] skip_ws_Cons
                parse_str_quote del: append.simps)

declare parse_members.simps [simp del]

lemma parse_members_kv:
  "parse_key_value cs = Some (kv, r) \<Longrightarrow> parse_members cs =
     (case skip_ws r of
        [] \<Rightarrow> None
      | c # r' \<Rightarrow>
          if c = CHR '','' then map_option (apfst (Cons kv)) (parse_members r')
          else if c = CHR ''}'' then Some ([kv], r')
          else None)"
  by (subst parse_members.simps) simp

lemma parse_key_value_member_text:
  "parse_key_value (member_text kv @ r) = Some (kv, r)"
  by (cases kv) (simp add: member_text_def parse_key_value_quote)

lemma parse_members_text:
  "kss \<noteq> [] \<Longrightarrow> parse_members (join_sep '','' (map member_text kss) @ CHR ''}'' # r) = Some (kss, r)"
proof (induction kss)
  case Nil
  then show ?case by simp
next
  case (Cons kv kss)
  show ?case
  proof (cases kss)
    case Nil
    then show ?thesis
      using parse_members_kv [OF parse_key_value_member_text [of kv "CHR ''}'' # r"]]
      by (simp add: skip_ws_Cons)
  next
    case (Cons kv' kss')
    then have ih: "parse_members (join_sep '','' (map member_text kss) @ CHR ''}'' # r) = Some (kss, r)"
      using Cons.IH by simp
    have "join_sep '','' (map member_text (kv # kss)) @ CHR ''}'' # r =
        member_text kv @ CHR '','' # (join_sep '','' (map member_text kss) @ CHR ''}'' # r)"
      using Cons by simp
    then show ?thesis
      using parse_members_kv [OF parse_key_value_member_text] ih by (simp add: skip_ws_Cons)
  qed
qed

lemma parse_str_object_text:
  "parse_str_object (''{'' @ join_sep '','' (map member_text kss) @ ''}'') = Some kss"
proof (cases kss)
  case Nil
  then show ?thesis by (simp add: parse_str_object_def skip_ws_Cons)
next
  case (Cons kv kss')
  have pm: "parse_members (join_sep '','' (map member_text kss) @ CHR ''}'' # []) = Some (kss, [])"
    using Cons by (intro parse_members_text) simp
  obtain r where r: "join_sep '','' (map member_text kss) @ ''}'' = dquote # r"
    using Cons by (cases kss') (auto simp: member_text_def json_quote_def)
  have "CHR ''{'' # join_sep '','' (map member_text kss) @ ''}'' = CHR ''{'' # dquote # r"
    using r by simp
  then show ?thesis
    using pm r by (simp add: parse_str_object_def skip_ws_Cons)
qed

lemma str_or_undef_stringify_val: "str_or_undef (json_stringify_val v)"
  by (simp add: json_stringify_val_def str_or_undef_def split: option.split)

lemma json_members_str:
  "\<forall>(k, v) \<in> set kvs. str_or_undef v \<Longrightarrow> json_members kvs = map member_text (str_members kvs)"
  by (induction kvs rule: str_members.induct) (auto simp: str_or_undef_def member_text_def)

lemma parse_stringify_str_object:
  assumes "\<forall>(k, v) \<in> set kvs. str_or_undef v"
  shows "\<exists>m. json_stringify_val (JObj kvs) = JStr m \<and> parse_str_object m = Some (str_members kvs)"
  using assms parse_str_object_text [of "str_members kvs"]
  by (simp add: json_stringify_val_def json_members_str)

lemma str_members_keys:
  assumes "distinct (map fst kvs)" and "\<forall>(k, v) \<in> set kvs. str_or_undef v"
  shows "map fst (str_members kvs) = filter (\<lambda>k. obj_prop kvs k \<noteq> JUndefined) (map fst kvs)"
  using assms
proof (induction kvs)
  case Nil
  then show ?case by simp
next
  case (Cons kv kvs)
  obtain k v where kv: "kv = (k, v)" by fastforce
  have f: "filter (\<lambda>k'. obj_prop (kv # kvs) k' \<noteq> JUndefined) (map fst kvs) =
        filter (\<lambda>k'. obj_prop kvs k' \<noteq> JUndefined) (map fst kvs)"
    using Cons.prems(1) kv by (intro filter_cong) (auto simp: obj_prop_def)
  from Cons.prems(2) kv have "v = JUndefined \<or> (\<exists>s. v = JStr s)"
    by (auto simp: str_or_undef_def split: jsval.splits)
  then show ?case using Cons f kv by (auto simp: obj_prop_def)
qed

lemma str_members_subset: "(k, s) \<in> set (str_members kvs) \<Longrightarrow> (k, JStr s) \<in> set kvs"
  by (induction kvs rule: str_members.induct) auto

lemma str_members_values:
  "distinct (map fst kvs) \<Longrightarrow> (k, s) \<in> set (str_members kvs) \<Longrightarrow> obj_prop kvs k = JStr s"
  by (metis map_of_is_SomeI obj_prop_def option.simps(5) str_members_subset)

end
