(* ===== verification/SNS_Module.thy ===== *)
theory SNS_Module
  imports JS_Values
begin

text \<open>
  The CommonJS module wiring of the compiled adapter \<^verbatim>\<open>src/lib/SNS.js\<close>: the
  \<^verbatim>\<open>__esModule\<close> flag (lines 3--5), the imports through Babel's
  \<^verbatim>\<open>_interopRequireDefault\<close> (lines 9--31), the function object \<^verbatim>\<open>SNS\<close> with its
  prototype and \<^verbatim>\<open>send\<close> method (lines 36, 132), and the two export statements
  (lines 144--145). Node runs the module body with a local variable \<^verbatim>\<open>exports\<close> and
  a field \<^verbatim>\<open>module.exports\<close> that start out as the same object; the body writes
  through both, so the model keeps an explicit heap of objects and references into it.
  Function objects are heap objects; their code is not modelled here.
\<close>

datatype mval = MUndefined | MBool bool | MStr string | MRef nat

type_synonym mobj = "(string \<times> mval) list"

record mstate =
  heap :: "mobj list"
  module_exports :: mval
  exports_var :: mval

definition m_alloc :: "mobj \<Rightarrow> mstate \<Rightarrow> mval \<times> mstate" where
  "m_alloc obj st = (MRef (length (heap st)), st\<lparr>heap := heap st @ [obj]\<rparr>)"

fun m_truthy :: "mval \<Rightarrow> bool" where
  "m_truthy MUndefined = False"
| "m_truthy (MBool b) = b"
| "m_truthy (MStr s) = (s \<noteq> [])"
| "m_truthy (MRef a) = True"

text \<open>Property read; a reference outside the heap reads as \<^verbatim>\<open>undefined\<close>.\<close>

definition m_get :: "mstate \<Rightarrow> mval \<Rightarrow> string \<Rightarrow> js_error + mval" where
  "m_get st v k =
     (case v of
        MUndefined \<Rightarrow> Inl (TypeError (''Cannot read properties of undefined (reading '' @ k @ '')''))
      | MRef a \<Rightarrow> Inr (if a < length (heap st)
                      then (case map_of (heap st ! a) k of None \<Rightarrow> MUndefined | Some w \<Rightarrow> w)
                      else MUndefined)
      | _ \<Rightarrow> Inr MUndefined)"

definition m_prop :: "mstate \<Rightarrow> mval \<Rightarrow> string \<Rightarrow> mval" where
  "m_prop st v k = (case m_get st v k of Inl _ \<Rightarrow> MUndefined | Inr w \<Rightarrow> w)"

text \<open>Property write in strict mode (\<^verbatim>\<open>Object.defineProperty\<close> is the same write here).\<close>

definition m_set :: "mstate \<Rightarrow> mval \<Rightarrow> string \<Rightarrow> mval \<Rightarrow> js_error + mstate" where
  "m_set st v k w =
     (case v of
        MUndefined \<Rightarrow> Inl (TypeError (''Cannot set properties of undefined (setting '' @ k @ '')''))
      | MRef a \<Rightarrow> Inr (if a < length (heap st)
                      then st\<lparr>heap := (heap st)[a := assoc_set k w (heap st ! a)]\<rparr>
                      else st)
      | _ \<Rightarrow> Inl (TypeError (''Cannot create property '' @ k @ '' on primitive'')))"

text \<open>Line 31: \<^verbatim>\<open>obj && obj.__esModule ? obj : { default: obj }\<close>.\<close>

definition interopRequireDefault :: "mstate \<Rightarrow> mval \<Rightarrow> mval \<times> mstate" where
  "interopRequireDefault st obj =
     (if m_truthy obj \<and> m_truthy (m_prop st obj ''__esModule'') then (obj, st)
      else m_alloc [(''default'', obj)] st)"

text \<open>
  Lines 9--29: each default import is \<^verbatim>\<open>var _m = require(name); var _m2 =
  _interopRequireDefault(_m);\<close>, in this order; the named import of
  \<^verbatim>\<open>./PushAdapterUtils\<close> is bound without the helper.
\<close>

definition lib_import_names :: "string list" where
  "lib_import_names = [''parse'', ''npmlog'', ''aws-sdk'', ''./APNS'', ''./GCM'']"

fun lib_imports :: "(string \<Rightarrow> mval) \<Rightarrow> string list \<Rightarrow> mstate \<Rightarrow> (string \<times> mval) list \<times> mstate" where
  "lib_imports req [] st = ([], st)"
| "lib_imports req (n # ns) st =
     (let (v, st1) = interopRequireDefault st (req n);
          (bs, st2) = lib_imports req ns st1
      in ((n, v) # bs, st2))"

text \<open>Lines 3--5: \<^verbatim>\<open>Object.defineProperty(exports, "__esModule", { value: true })\<close>.\<close>

definition lib_define_esModule :: "mstate \<Rightarrow> js_error + mstate" where
  "lib_define_esModule st = m_set st (exports_var st) ''__esModule'' (MBool True)"

text \<open>
  Line 36: the declaration \<^verbatim>\<open>function SNS(args)\<close>, instantiated before the body runs:
  a fresh prototype object, the function object holding it, and the prototype's
  \<^verbatim>\<open>constructor\<close> pointing back. The result is the prototype, the function and the state.
\<close>

definition lib_declare_SNS :: "mstate \<Rightarrow> js_error + (mval \<times> mval \<times> mstate)" where
  "lib_declare_SNS st0 =
     (let (p, st1) = m_alloc [] st0;
          (f, st2) = m_alloc [(''prototype'', p)] st1
      in ebind (m_set st2 p ''constructor'' f) (\<lambda>st3. Inr (p, f, st3)))"

text \<open>Line 132: \<^verbatim>\<open>SNS.prototype.send = function (data, devices) {...}\<close>.\<close>

definition lib_install_send :: "mval \<Rightarrow> mstate \<Rightarrow> js_error + mstate" where
  "lib_install_send p st = (let (sendfn, st1) = m_alloc [] st in m_set st1 p ''send'' sendfn)"

text \<open>
  The module body, in statement order after the declarations: lines 3--5, the imports of
  lines 9--29, line 132, then the exports: line 144 replaces \<^verbatim>\<open>module.exports\<close> by
  \<^verbatim>\<open>SNS\<close> and line 145 assigns \<^verbatim>\<open>exports.default\<close> through the local variable, which
  still names the original exports object. The result is the import bindings, the
  reference to \<^verbatim>\<open>SNS\<close>, and the state after the body.
\<close>

definition lib_module_body ::
    "(string \<Rightarrow> mval) \<Rightarrow> mstate \<Rightarrow> js_error + ((string \<times> mval) list \<times> mval \<times> mstate)" where
  "lib_module_body req st0 =
     ebind (lib_declare_SNS st0) (\<lambda>(p, f, st3).
     ebind (lib_define_esModule st3) (\<lambda>st4.
     let (bs, st5) = lib_imports req lib_import_names st4
     in ebind (lib_install_send p st5) (\<lambda>st7.
        let st8 = st7\<lparr>module_exports := f\<rparr>
        in ebind (m_set st8 (exports_var st8) ''default'' f) (\<lambda>st9.
           Inr (bs @ [(''./PushAdapterUtils'', req ''./PushAdapterUtils'')], f, st9)))))"

text \<open>Node's initial module state: \<^verbatim>\<open>module.exports\<close> and \<^verbatim>\<open>exports\<close> are one empty object.\<close>

definition node_module_init :: "mobj list \<Rightarrow> mstate" where
  "node_module_init h = \<lparr>heap = h @ [[]], module_exports = MRef (length h), exports_var = MRef (length h)\<rparr>"

subsection \<open>Lemmas on the heap operations\<close>

lemma m_set_MRef:
  "a < length (heap st) \<Longrightarrow> m_set st (MRef a) k w = Inr (st\<lparr>heap := (heap st)[a := assoc_set k w (heap st ! a)]\<rparr>)"
  by (simp add: m_set_def)

lemma m_prop_MRef:
  "a < length (heap st) \<Longrightarrow> m_prop st (MRef a) k = (case map_of (heap st ! a) k of None \<Rightarrow> MUndefined | Some w \<Rightarrow> w)"
  by (simp add: m_prop_def m_get_def)

lemma interop_cases:
  "interopRequireDefault st obj =
     (if m_truthy obj \<and> m_truthy (m_prop st obj ''__esModule'') then (obj, st)
      else (MRef (length (heap st)), st\<lparr>heap := heap st @ [[(''default'', obj)]]\<rparr>))"
  by (simp add: interopRequireDefault_def m_alloc_def)

lemma interop_default_gen:
  assumes "interopRequireDefault st obj = (v, st')"
  shows "m_prop st' v ''default'' =
           (if m_truthy obj \<and> m_truthy (m_prop st obj ''__esModule'') then m_prop st obj ''default'' else obj)
    \<and> (\<exists>new. heap st' = heap st @ new) \<and> module_exports st' = module_exports st \<and> exports_var st' = exports_var st"
  using assms by (auto simp: interop_cases m_prop_def m_get_def split: if_splits)

subsection \<open>The module body\<close>

lemma lib_imports_frame:
  "lib_imports req ns st = (bs, st') \<Longrightarrow>
     (\<exists>new. heap st' = heap st @ new) \<and> module_exports st' = module_exports st
     \<and> exports_var st' = exports_var st \<and> map fst bs = ns"
proof (induction ns arbitrary: st bs st')
  case Nil
  then show ?case by simp
next
  case (Cons n ns)
  obtain v st1 where i: "interopRequireDefault st (req n) = (v, st1)" by fastforce
  obtain bs' st2 where r: "lib_imports req ns st1 = (bs', st2)" by fastforce
  from Cons.prems i r have bs: "bs = (n, v) # bs'" and st': "st' = st2" by simp_all
  from interop_default_gen [OF i] Cons.IH [OF r] show ?case using bs st' by auto
qed

text \<open>The state after lines 3--5 of the body, from Node's initial state over heap \<open>h\<close>.\<close>

abbreviation lib_state_after_prologue :: "mobj list \<Rightarrow> mstate" where
  "lib_state_after_prologue h \<equiv>
     \<lparr>heap = h @ [[(''__esModule'', MBool True)], [(''constructor'', MRef (Suc (Suc (length h))))],
                  [(''prototype'', MRef (Suc (length h)))]],
      module_exports = MRef (length h), exports_var = MRef (length h)\<rparr>"

lemma lib_module_body_shape:
  "\<exists>bs st5 new. lib_imports req lib_import_names (lib_state_after_prologue h) = (bs, st5)
     \<and> heap st5 = heap (lib_state_after_prologue h) @ new
     \<and> module_exports st5 = MRef (length h) \<and> exports_var st5 = MRef (length h)
     \<and> lib_module_body req (node_module_init h) =
        Inr (bs @ [(''./PushAdapterUtils'', req ''./PushAdapterUtils'')], MRef (Suc (Suc (length h))),
             st5\<lparr>module_exports := MRef (Suc (Suc (length h))),
                   heap := (heap st5 @ [[]])
                     [Suc (length h) := [(''constructor'', MRef (Suc (Suc (length h)))), (''send'', MRef (length (heap st5)))],
                      length h := [(''__esModule'', MBool True), (''default'', MRef (Suc (Suc (length h))))]]\<rparr>)"
proof -
  obtain bs st5 where imp: "lib_imports req lib_import_names (lib_state_after_prologue h) = (bs, st5)" by fastforce
  from lib_imports_frame [OF imp] obtain new where
    st5: "heap st5 = heap (lib_state_after_prologue h) @ new" "module_exports st5 = MRef (length h)"
         "exports_var st5 = MRef (length h)"
    by auto
  have "lib_module_body req (node_module_init h) =
        Inr (bs @ [(''./PushAdapterUtils'', req ''./PushAdapterUtils'')], MRef (Suc (Suc (length h))),
             st5\<lparr>module_exports := MRef (Suc (Suc (length h))),
                   heap := (heap st5 @ [[]])
                     [Suc (length h) := [(''constructor'', MRef (Suc (Suc (length h)))), (''send'', MRef (length (heap st5)))],
                      length h := [(''__esModule'', MBool True), (''default'', MRef (Suc (Suc (length h))))]]\<rparr>)"
    using imp st5 by (simp add: lib_module_body_def lib_declare_SNS_def lib_define_esModule_def lib_install_send_def
                               node_module_init_def m_alloc_def m_set_MRef nth_append list_update_append)
  with imp st5 show ?thesis by blast
qed

text \<open>
  C30. What the compiled module exports. The body never throws; afterwards
  \<^verbatim>\<open>module.exports\<close> is the function \<^verbatim>\<open>SNS\<close>, whose prototype carries
  \<^verbatim>\<open>send\<close>, but \<^verbatim>\<open>SNS.default\<close> and \<^verbatim>\<open>SNS.__esModule\<close> are \<^verbatim>\<open>undefined\<close>:
  lines 3 and 145 write them on the original exports object, which line 144 has already
  replaced. \<^verbatim>\<open>require('./SNS').default\<close> is therefore \<^verbatim>\<open>undefined\<close>, while a
  Babel-compiled importer, which goes through \<^verbatim>\<open>_interopRequireDefault\<close>, finds
  \<^verbatim>\<open>SNS\<close> as its default.
\<close>

theorem lib_module_exports:
  "\<exists>bs f st. lib_module_body req (node_module_init h) = Inr (bs, f, st)
     \<and> module_exports st = f \<and> f \<noteq> exports_var st
     \<and> m_prop st f ''default'' = MUndefined \<and> m_prop st f ''__esModule'' = MUndefined
     \<and> m_prop st (exports_var st) ''default'' = f \<and> m_prop st (exports_var st) ''__esModule'' = MBool True
     \<and> m_prop st (m_prop st f ''prototype'') ''send'' \<noteq> MUndefined
     \<and> m_prop (snd (interopRequireDefault st f)) (fst (interopRequireDefault st f)) ''default'' = f"
proof -
  from lib_module_body_shape [of req h] obtain bs st5 new where
    st5: "heap st5 = heap (lib_state_after_prologue h) @ new" "exports_var st5 = MRef (length h)"
    and body: "lib_module_body req (node_module_init h) =
        Inr (bs @ [(''./PushAdapterUtils'', req ''./PushAdapterUtils'')], MRef (Suc (Suc (length h))),
             st5\<lparr>module_exports := MRef (Suc (Suc (length h))),
                   heap := (heap st5 @ [[]])
                     [Suc (length h) := [(''constructor'', MRef (Suc (Suc (length h)))), (''send'', MRef (length (heap st5)))],
                      length h := [(''__esModule'', MBool True), (''default'', MRef (Suc (Suc (length h))))]]\<rparr>)"
    by blast
  let ?f = "MRef (Suc (Suc (length h)))"
  let ?st9 = "st5\<lparr>module_exports := ?f,
                   heap := (heap st5 @ [[]])
                     [Suc (length h) := [(''constructor'', ?f), (''send'', MRef (length (heap st5)))],
                      length h := [(''__esModule'', MBool True), (''default'', ?f)]]\<rparr>"
  have h9: "heap ?st9 ! Suc (Suc (length h)) = [(''prototype'', MRef (Suc (length h)))]"
    "heap ?st9 ! length h = [(''__esModule'', MBool True), (''default'', ?f)]"
    "heap ?st9 ! Suc (length h) = [(''constructor'', ?f), (''send'', MRef (length (heap st5)))]"
    "Suc (Suc (length h)) < length (heap ?st9)"
    using st5 by (simp_all add: nth_append list_update_append)
  have "m_prop (snd (interopRequireDefault ?st9 ?f)) (fst (interopRequireDefault ?st9 ?f)) ''default'' = ?f"
    using interop_default_gen [of ?st9 ?f] h9 by (force simp: m_prop_MRef)
  then show ?thesis using body h9 st5 by (simp add: m_prop_MRef)
qed

end
