(* ===== verification/SNS_Compiled.thy ===== *)
theory SNS_Compiled
  imports SNS_Config
begin

text \<open>
  The compiled constructor of \<^verbatim>\<open>src/lib/SNS.js\<close> (lines 36--47) and the Babel helper
  \<^verbatim>\<open>_typeof\<close> (line 7) its guard calls. Babel replaces \<^verbatim>\<open>typeof args\<close> by
  \<^verbatim>\<open>_typeof(args)\<close>, which picks, once at load time, either the native operator (when
  \<^verbatim>\<open>Symbol\<close> is a function and \<^verbatim>\<open>Symbol.iterator\<close> a symbol) or a polyfill that
  reports \<^verbatim>\<open>'symbol'\<close> for objects constructed by a polyfilled \<^verbatim>\<open>Symbol\<close>. The
  theory shows that the compiled constructor agrees with the source constructor
  \<open>SNS_Config.SNS\<close> in every environment.
\<close>

text \<open>The three states of the global \<^verbatim>\<open>Symbol\<close> that line 7 distinguishes.\<close>

datatype symbol_env = NativeSymbol | PolyfilledSymbol | NoSymbol

definition symbol_is_function :: "symbol_env \<Rightarrow> bool" where
  "symbol_is_function env \<longleftrightarrow> env \<noteq> NoSymbol"

definition iterator_is_symbol :: "symbol_env \<Rightarrow> bool" where
  "iterator_is_symbol env \<longleftrightarrow> env = NativeSymbol"

text \<open>
  The value of \<^verbatim>\<open>obj.constructor\<close> as an identity: the built-in constructors the
  model's values inherit, or an own \<^verbatim>\<open>constructor\<close> property. A property read on
  \<^verbatim>\<open>null\<close> or \<^verbatim>\<open>undefined\<close> throws (\<open>None\<close>).
\<close>

datatype ctor = CtorObject | CtorArray | CtorBuffer | CtorString | CtorNumber
  | CtorBoolean | CtorSymbol | CtorOwn jsval

fun js_constructor :: "jsval \<Rightarrow> ctor option" where
  "js_constructor JUndefined = None"
| "js_constructor JNull = None"
| "js_constructor (JBool _) = Some CtorBoolean"
| "js_constructor (JNum _) = Some CtorNumber"
| "js_constructor JNaN = Some CtorNumber"
| "js_constructor (JStr _) = Some CtorString"
| "js_constructor (JBuf _) = Some CtorBuffer"
| "js_constructor (JArr _) = Some CtorArray"
| "js_constructor (JObj kvs) =
     Some (case map_of kvs ''constructor'' of None \<Rightarrow> CtorObject | Some v \<Rightarrow> CtorOwn v)"

text \<open>
  Line 7: \<^verbatim>\<open>typeof Symbol === "function" && typeof Symbol.iterator === "symbol"\<close>
  selects \<^verbatim>\<open>typeof obj\<close>; otherwise
  \<^verbatim>\<open>obj && typeof Symbol === "function" && obj.constructor === Symbol ? "symbol" : typeof obj\<close>,
  whose \<^verbatim>\<open>&&\<close> chain reads \<^verbatim>\<open>obj.constructor\<close> only on a truthy \<^verbatim>\<open>obj\<close>.
\<close>

definition lib_typeof :: "symbol_env \<Rightarrow> jsval \<Rightarrow> string" where
  "lib_typeof env obj =
     (if symbol_is_function env \<and> iterator_is_symbol env then js_typeof obj
      else if js_truthy obj \<and> symbol_is_function env \<and> js_constructor obj = Some CtorSymbol
      then ''symbol'' else js_typeof obj)"

text \<open>
  Lines 36--47: the constructor with the compiled guard
  \<^verbatim>\<open>(typeof args === 'undefined' ? 'undefined' : _typeof(args)) !== 'object'\<close>; the
  rest is the source's statements (the imports are the bindings of \<open>SNS_Module\<close>).
\<close>

definition lib_SNS :: "symbol_env \<Rightarrow> jsval \<Rightarrow> aws_config \<Rightarrow> (js_error + adapter) \<times> aws_config" where
  "lib_SNS env args cfg =
     (if (if js_typeof args = ''undefined'' then ''undefined'' else lib_typeof env args) \<noteq> ''object''
      then (Inl sns_config_error, cfg)
      else case js_get args ''accessKey'' of
        Inl e \<Rightarrow> (Inl e, cfg)
      | Inr ak \<Rightarrow>
          if \<not> js_truthy ak then (Inl sns_config_error, cfg)
          else case js_get args ''secretKey'' of
            Inl e \<Rightarrow> (Inl e, cfg)
          | Inr sk \<Rightarrow>
              if \<not> js_truthy sk then (Inl sns_config_error, cfg)
              else case js_get args ''region'' of
                Inl e \<Rightarrow> (Inl e, cfg)
              | Inr r \<Rightarrow>
                  let cfg' = aws_config_update
                               [(''accessKeyId'', ak), (''secretAccessKey'', sk),
                                (''region'', js_or r (JStr DEFAULT_REGION))] cfg
                  in (Inr \<lparr>sns = \<lparr>client_config = cfg'\<rparr>\<rparr>, cfg'))"

subsection \<open>The helper is the native operator on the model's values\<close>

text \<open>No value of the model was constructed by \<^verbatim>\<open>Symbol\<close>.\<close>

lemma js_constructor_not_Symbol: "js_constructor v \<noteq> Some CtorSymbol"
  by (cases v) (simp_all split: option.split)

lemma lib_typeof_eq: "lib_typeof env v = js_typeof v"
  by (simp add: lib_typeof_def js_constructor_not_Symbol)

lemma lib_guard_eq:
  "(if js_typeof v = ''undefined'' then ''undefined'' else lib_typeof env v) = js_typeof v"
  by (simp add: lib_typeof_eq)

text \<open>The compiled constructor behaves as the source constructor: on every argument,
  every global configuration and every state of the global \<^verbatim>\<open>Symbol\<close>, it throws the
  same exception or builds the same adapter, and leaves the same configuration.\<close>

lemma lib_SNS_eq_SNS: "lib_SNS env args cfg = SNS args cfg"
  by (simp only: lib_SNS_def SNS_def lib_guard_eq)

end
