(* ===== verification/Spec2Isabelle.thy ===== *)
theory Spec2Isabelle
  imports Dispatch_Refinement JSON_Parse SNS_Module SNS_Compiled
begin

text \<open>
  \<^bold>\<open>A verification development of parse-server-push-adapter's SNS adapter.\<close>

  \<^emph>\<open>The program.\<close> \<^verbatim>\<open>src/src/SNS.js\<close> (and its Babel output \<^verbatim>\<open>src/lib/SNS.js\<close>)
  is a push adapter for Amazon SNS. The constructor \<^verbatim>\<open>SNS(args)\<close> validates the
  credentials, writes them into the process-wide \<^verbatim>\<open>AWS.config\<close> and creates an
  \<^verbatim>\<open>AWS.SNS\<close> client. \<^verbatim>\<open>send(data, devices)\<close> builds one payload bundle
  (\<^verbatim>\<open>generatePayload\<close>: six platform entries, each serialised by
  \<^verbatim>\<open>JSON.stringify\<close>) and one attribute set (\<^verbatim>\<open>generateMessageAttributes\<close>), calls
  \<^verbatim>\<open>publishToSNS\<close> for every device (a new \<^verbatim>\<open>Parse.Promise\<close> and one
  \<^verbatim>\<open>sns.publish\<close> whose callback resolves that promise with the device's outcome),
  and returns \<^verbatim>\<open>Parse.Promise.when\<close> of the promises. The callbacks run later, in
  any order, one per publish call.

  \<^emph>\<open>The theories.\<close>
  \<^item> \<open>SNS_Prelude\<close>: the exception monad \<open>ebind\<close> (a thrown exception is \<open>Inl\<close>),
    association lists as JavaScript objects (\<open>assoc_set\<close> keeps insertion order),
    \<open>join_sep\<close>, and list lemmas on counting empty slots.
  \<^item> \<open>JS_Values\<close>: the JavaScript values the adapter meets (\<open>jsval\<close>, with
    \<^verbatim>\<open>Buffer\<close>), exceptions (\<open>js_error\<close>), truthiness, \<^verbatim>\<open>typeof\<close>,
    \<^verbatim>\<open>x != null\<close>, property reads and writes in strict mode, \<^verbatim>\<open>ToString\<close>, and the
    receiver-dependent \<^verbatim>\<open>x.toString('hex')\<close>; hex encoding of buffers with its
    inverse (\<open>hex_decode_encode\<close>). Numbers are integers plus \<^verbatim>\<open>NaN\<close>.
  \<^item> \<open>JSON\<close>: \<^verbatim>\<open>JSON.stringify\<close> with QuoteJSONString escaping, omission of
    \<^verbatim>\<open>undefined\<close> members, \<^verbatim>\<open>null\<close> for \<^verbatim>\<open>undefined\<close> array elements and
    \<^verbatim>\<open>NaN\<close>, and \<^verbatim>\<open>Buffer.toJSON\<close>.
  \<^item> \<open>SNS_Config\<close>: the constructor \<open>SNS\<close> (lines 13--25) as a function of the argument
    and of the global configuration; the client (\<open>sns_client\<close>) holds a copy of the
    configuration. C14, C15, C16: which arguments are accepted, the error raised
    otherwise, and the stored credentials and default region; the lemma
    \<open>SNS_null_TypeError\<close> gives the \<^verbatim>\<open>TypeError\<close> of \<^verbatim>\<open>new SNS(null)\<close>.
  \<^item> \<open>SNS_Payload\<close>: \<open>generatePayload\<close> (lines 28--42) and
    \<open>generateMessageAttributes\<close> (lines 45--56). The GCM and APNS encoders,
    \<^verbatim>\<open>randomString\<close> and \<^verbatim>\<open>Date.now\<close> are not in the sources and are fields of a
    \<open>collaborators\<close> record, so that the lemmas (C10--C13) hold for any of them.
  \<^item> \<open>SNS_Publish\<close>: the publish parameters (lines 70--75) and the completion
    callback \<open>publish_callback\<close> (lines 77--102), which returns its log records and
    either the exception it threw or the value it resolved with. Line 86 reads the
    undeclared identifier \<^verbatim>\<open>arn\<close>; the global bindings are a parameter \<open>g\<close>, and
    with no \<^verbatim>\<open>arn\<close> the error branch throws (C5). C6 and C7 give the success record
    and the failure record the branch was meant to produce; C19 and C20 what the record
    holds for each form of device token (hex that decodes back for a \<^verbatim>\<open>Buffer\<close>, the
    string itself for a string, a \<^verbatim>\<open>RangeError\<close> for a number); C21 the log lines.
  \<^item> \<open>Parse_Promise\<close>: \<^verbatim>\<open>promise.resolve\<close>, \<^verbatim>\<open>promise.reject\<close> and
    \<^verbatim>\<open>Parse.Promise.when\<close> of the Parse SDK, modelled from its code (results and errors
    arrays, the \<^verbatim>\<open>total\<close> counter, the \<^verbatim>\<open>hadError\<close> flag, and the fulfilment and
    rejection callbacks sharing \<^verbatim>\<open>resolveOne\<close>, \<open>when_count_down\<close>), and the
    relation \<open>when_rel\<close> to the contract \<open>when_spec\<close> (rejection included), kept by
    either callback (\<open>when_contract\<close>: in every settlement order the joined promise is
    in the state \<open>when_spec\<close> gives). For the adapter, which only resolves,
    \<open>join_inv\<close> relates the counter to the barrier of the design
    (\<open>when_resolve_one_refines\<close>).
  \<^item> \<open>SNS_Send\<close>: \<open>publishToSNS\<close>, \<open>publish_each\<close> (\<^verbatim>\<open>devices.map\<close>) and
    \<open>send\<close> (lines 67--122) as state passing over a \<open>dispatch\<close> record (publish
    calls issued, callbacks awaited with the device their closure captured, promises in
    allocation order, the join, escaped exceptions, log). After \<open>send\<close> returns, the
    transport invokes awaited callbacks in any order with any reply: \<open>deliver\<close> is
    one invocation and \<open>dispatch_step\<close> the step relation; reachable states are its
    reflexive transitive closure. \<open>dispatch_inv\<close> holds after \<open>send\<close> and is kept by
    every step (C3). C1: if every callback reaches \<^verbatim>\<open>promise.resolve\<close>, any
    completion order resolves the returned promise with the outcomes in input order.
    C2: one transport error makes that impossible forever. C4: a completion touches
    only its own device. C8, C9: what \<open>send\<close> publishes, and how a \<^verbatim>\<open>null\<close> device
    aborts it midway.
  \<^item> \<open>SNS_Runs\<close>: runs of completions after \<^verbatim>\<open>send\<close>. Every run is finite (C22),
    and at the end
    of a run the returned promise is settled exactly when no callback threw (C23), by
    the invariant \<open>open_count_inv\<close>: pending promises = awaited callbacks + escaped
    exceptions. C24 shows that the specification's contract (every device
    attempted, failures captured as \<^verbatim>\<open>transmitted: false\<close>, the aggregate always
    completing) holds exactly in a process whose global object binds \<^verbatim>\<open>arn\<close>.
    C31: no reachable state has a rejected promise; the returned promise is never
    rejected.
  \<^item> \<open>Dispatch_Refinement\<close>: the specification's model of the dispatch (a barrier
    over one slot per device, section 9 of the design) as the relation
    \<open>barrier_fill\<close>, the abstraction \<open>abs_dispatch\<close> (slots = the promises' values),
    and the refinement: every run after \<^verbatim>\<open>send\<close> maps to a barrier run from empty
    slots, up to stuttering for throwing completions, and the returned promise is the
    barrier's observable (C25). C26 (in \<open>SNS_Runs\<close>) bounds the \<^verbatim>\<open>when\<close> counter, the
    escaped exceptions and the log; C27 (in \<open>SNS_Publish\<close>) gives the type of an outcome;
    C28 (in \<open>SNS_Send\<close>) the synchronous abort on a payload error.
  \<^item> \<open>JSON_Parse\<close>: the reader Amazon SNS applies to \<^verbatim>\<open>Message\<close> under
    \<^verbatim>\<open>MessageStructure: 'json'\<close> (an object of string members), and the proof that
    it inverts \<open>json_stringify\<close> on objects of strings and \<^verbatim>\<open>undefined\<close>s.
  \<^item> \<open>SNS_Module\<close>: the CommonJS wiring of \<^verbatim>\<open>src/lib/SNS.js\<close> over an explicit heap
    of objects (\<open>mstate\<close>: the heap, \<^verbatim>\<open>module.exports\<close> and the local
    \<^verbatim>\<open>exports\<close>, which alias one object when Node starts the module,
    \<open>node_module_init\<close>). \<open>lib_module_body\<close> composes the statements in source order:
    the \<^verbatim>\<open>__esModule\<close> flag (lines 3--5), the imports through
    \<open>interopRequireDefault\<close> (lines 9--31), the function object \<^verbatim>\<open>SNS\<close> with its
    prototype (line 36), \<^verbatim>\<open>SNS.prototype.send\<close> (line 132) and the exports
    (lines 144--145). C30: the module never throws, exports \<^verbatim>\<open>SNS\<close>,
    but writes \<^verbatim>\<open>default\<close> and \<^verbatim>\<open>__esModule\<close> on the replaced exports object.
  \<^item> \<open>SNS_Compiled\<close>: Babel's \<^verbatim>\<open>_typeof\<close> helper (\<^verbatim>\<open>lib/SNS.js\<close> line 7) for each
    state of the global \<^verbatim>\<open>Symbol\<close> (native, polyfilled, absent), the identity of
    \<^verbatim>\<open>obj.constructor\<close>, and the compiled constructor \<open>lib_SNS\<close> (lines 36--47), whose
    guard goes through the helper. It equals the source constructor \<open>SNS\<close>
    (\<open>lib_SNS_eq_SNS\<close>), but only because the model has no function values: no value
    of the model can have \<^verbatim>\<open>constructor === Symbol\<close>, so the polyfill's
    \<^verbatim>\<open>'symbol'\<close> branch is never taken here.
  \<^item> This theory: the properties that span components: the credentials every publish
    call carries (C17), what SNS reads from each \<^verbatim>\<open>Message\<close> (C18), and the
    end-to-end composition of constructor, dispatch, completions and token encoding
    (C29).

  \<^emph>\<open>Choices.\<close> No fuel or bound is needed: every function is total and structural,
  and the asynchronous part is a relation whose runs are finite lists of completions;
  liveness (C1) is stated for any permutation of the devices as completion order, and
  termination of the asynchronous phase is well-foundedness of the step relation (C22). A
  promise's resolution and the \<^verbatim>\<open>when\<close> callback it triggers are one step; the
  callbacks of different promises write disjoint slots, so this loses no behaviour.

  \<^emph>\<open>Not modelled.\<close> The GCM and APNS encoders, \<^verbatim>\<open>randomString\<close> and the clock:
  their code is not among the sources and the specification gives only their
  signatures, so they are parameters (a \<open>collaborators\<close> record) and every lemma holds
  for all of them. The AWS SDK's request machinery: a publish call is recorded, and its
  reply is arbitrary. The rest of the Parse SDK's promises: \<^verbatim>\<open>then\<close> chains
  other than those \<^verbatim>\<open>when\<close> registers. Fractional and infinite numbers. Symbols as
  values: only the helper that tests for them is modelled. The code of the required
  modules, whose values are a parameter \<open>req\<close> of the module body. JavaScript itself
  is modelled only as far as the adapter uses it (\<open>JS_Values\<close>, \<open>JSON\<close>).

  \<^emph>\<open>Source and compiled file.\<close> \<^verbatim>\<open>src/lib/SNS.js\<close> is Babel's output for
  \<^verbatim>\<open>src/src/SNS.js\<close> and repeats its functions statement for statement (\<^verbatim>\<open>let\<close> becomes
  \<^verbatim>\<open>var\<close>, the arrow's \<^verbatim>\<open>this\<close> becomes the captured \<^verbatim>\<open>_this\<close> of line 133, which
  denotes the same adapter). Each of those functions is therefore one definition,
  mapped to whichever of the two copies it is read from. Only the code Babel adds has
  definitions of its own: the module prologue and exports (\<open>SNS_Module\<close>) and the
  \<^verbatim>\<open>_typeof\<close> guard of the constructor (\<open>SNS_Compiled\<close>).

  \<^emph>\<open>Findings.\<close> The unbound \<^verbatim>\<open>arn\<close> makes every failed delivery leave the
  dispatch pending forever (C2, C5); \<^verbatim>\<open>new SNS(null)\<close> throws a \<^verbatim>\<open>TypeError\<close>
  (\<open>SNS_null_TypeError\<close>);
  a request without \<^verbatim>\<open>data\<close> loses the \<^verbatim>\<open>WNS\<close> and \<^verbatim>\<open>default\<close> entries (C12); a
  \<^verbatim>\<open>null\<close> device aborts \<^verbatim>\<open>send\<close> after earlier devices were published (C9);
  \<^verbatim>\<open>require('./SNS').default\<close> of the compiled module is \<^verbatim>\<open>undefined\<close> (C30).
\<close>

subsection \<open>Properties that span components\<close>

text \<open>The bundle \<^verbatim>\<open>generatePayload\<close> builds is an object of strings and \<^verbatim>\<open>undefined\<close>s.\<close>

lemma generatePayload_str_entries:
  assumes "generatePayload env data = Inr b"
  shows "\<exists>kvs. b = JObj kvs \<and> map fst kvs = platform_keys \<and> distinct (map fst kvs)
    \<and> (\<forall>(k, v) \<in> set kvs. str_or_undef v)"
  using assms by (auto simp: generatePayload_Inr platform_keys_def str_or_undef_stringify_val)

lemma published_message:
  assumes "send env this data devices = (None, s0)" and "(c, p) \<in> set (published s0)"
  shows "\<exists>payload. generatePayload env data = Inr payload \<and> js_prop p ''Message'' = json_stringify_val payload"
  using assms by (auto simp: send_ok send_state_def params_for_def obj_prop_def)

text \<open>
  C17. Every publish call of a dispatch goes to a client that carries the credentials
  the adapter was constructed with: the client's configuration is the global one
  right after construction, with the given access key and secret key.
\<close>

theorem publishes_use_configured_credentials:
  assumes "SNS args cfg = (Inr a, cfg')" and "send env a data devices = (None, s0)"
  shows "\<forall>(c, p) \<in> set (published s0). client_config c = cfg'
           \<and> obj_prop (client_config c) ''accessKeyId'' = js_prop args ''accessKey''
           \<and> obj_prop (client_config c) ''secretAccessKey'' = js_prop args ''secretKey''"
proof -
  from assms(2) obtain payload where "s0 = send_state a payload data devices"
    by (auto simp: send_ok)
  then have "\<forall>(c, p) \<in> set (published s0). c = sns a" by (auto simp: send_state_def)
  with SNS_client_config [OF assms(1)] show ?thesis by auto
qed

theorem publishes_use_configured_credentials_witness:
  "\<exists>a cfg' s0. SNS (JObj [(''accessKey'', JStr ''AK''), (''secretKey'', JStr ''SK'')]) [] = (Inr a, cfg')
     \<and> send example_env a example_request [example_device] = (None, s0)
     \<and> (\<forall>(c, p) \<in> set (published s0). client_config c = cfg'
           \<and> obj_prop (client_config c) ''accessKeyId'' = JStr ''AK''
           \<and> obj_prop (client_config c) ''secretAccessKey'' = JStr ''SK'')"
proof -
  obtain a cfg' where ctor: "SNS (JObj [(''accessKey'', JStr ''AK''), (''secretKey'', JStr ''SK'')]) [] = (Inr a, cfg')"
    by (simp add: SNS_def obj_prop_def Let_def)
  obtain payload where p: "generatePayload example_env example_request = Inr payload"
    using example_payload_Inr(1) by blast
  have ok: "\<forall>d\<in>set [example_device]. \<not> js_nullish d"
    by (simp add: example_device_def js_nullish_def)
  have snd: "send example_env a example_request [example_device] =
      (None, send_state a payload example_request [example_device])"
    using p ok by (simp add: send_ok)
  show ?thesis
    using publishes_use_configured_credentials [OF ctor snd] ctor snd by (auto simp: obj_prop_def)
qed


text \<open>
  C18. What Amazon SNS reads from a publish call: the \<^verbatim>\<open>Message\<close> of every
  \<^verbatim>\<open>sns.publish\<close> issued by \<^verbatim>\<open>send\<close> is a JSON text that parses, as
  \<^verbatim>\<open>MessageStructure: 'json'\<close> requires, to an object of strings; its keys are the
  platform keys whose entry in the bundle is defined, in bundle order, and each
  platform receives exactly the string the bundle holds for it.
\<close>

theorem message_parses_to_bundle:
  assumes "send env this data devices = (None, s0)" and "(c, p) \<in> set (published s0)"
  shows "\<exists>kvs m entries. generatePayload env data = Inr (JObj kvs)
     \<and> js_prop p ''Message'' = JStr m \<and> parse_str_object m = Some entries
     \<and> map fst entries = filter (\<lambda>k. obj_prop kvs k \<noteq> JUndefined) platform_keys
     \<and> (\<forall>(k, s) \<in> set entries. obj_prop kvs k = JStr s)"
proof -
  from published_message [OF assms] obtain payload where
    p: "generatePayload env data = Inr payload" "js_prop p ''Message'' = json_stringify_val payload"
    by blast
  from generatePayload_str_entries [OF p(1)] obtain kvs where
    kvs: "payload = JObj kvs" "map fst kvs = platform_keys" "distinct (map fst kvs)"
         "\<forall>(k, v) \<in> set kvs. str_or_undef v"
    by blast
  from parse_stringify_str_object [OF kvs(4)] obtain m where
    m: "json_stringify_val (JObj kvs) = JStr m" "parse_str_object m = Some (str_members kvs)"
    by blast
  have "map fst (str_members kvs) = filter (\<lambda>k. obj_prop kvs k \<noteq> JUndefined) platform_keys"
    using str_members_keys [OF kvs(3,4)] kvs(2) by simp
  moreover have "\<forall>(k, s) \<in> set (str_members kvs). obj_prop kvs k = JStr s"
    using str_members_values [OF kvs(3)] by blast
  ultimately show ?thesis using p kvs(1) m by auto
qed

theorem message_parses_to_bundle_witness:
  "\<exists>s0 c p. send example_env example_adapter (JObj [(''badge'', JNum 1)]) [example_device] = (None, s0)
     \<and> (c, p) \<in> set (published s0)
     \<and> (\<exists>kvs m entries. generatePayload example_env (JObj [(''badge'', JNum 1)]) = Inr (JObj kvs)
          \<and> js_prop p ''Message'' = JStr m \<and> parse_str_object m = Some entries
          \<and> map fst entries = [''GCM'', ''APNS'', ''APNS_SANDBOX'', ''ADM'']
          \<and> (\<forall>(k, s) \<in> set entries. obj_prop kvs k = JStr s))"
proof -
  let ?req = "JObj [(''badge'', JNum 1)]"
  obtain kvs where pl: "generatePayload example_env ?req = Inr (JObj kvs)"
    using example_payload_Inr(3) by blast
  have ok: "\<forall>d\<in>set [example_device]. \<not> js_nullish d"
    by (simp add: example_device_def js_nullish_def)
  let ?s0 = "send_state example_adapter (JObj kvs) ?req [example_device]"
  have snd: "send example_env example_adapter ?req [example_device] = (None, ?s0)"
    using pl ok by (simp add: send_ok)
  let ?c = "sns example_adapter" and ?p = "params_for example_device (JObj kvs) (generateMessageAttributes ?req)"
  have mem: "(?c, ?p) \<in> set (published ?s0)" by (simp add: send_state_def)
  have keys: "filter (\<lambda>k. obj_prop kvs k \<noteq> JUndefined) platform_keys = [''GCM'', ''APNS'', ''APNS_SANDBOX'', ''ADM'']"
    using pl by (auto simp: generatePayload_Inr platform_keys_def obj_prop_def json_stringify_val_def example_env_def)
  from message_parses_to_bundle [OF snd mem] obtain kvs' m entries where
    r: "generatePayload example_env ?req = Inr (JObj kvs')" "js_prop ?p ''Message'' = JStr m"
       "parse_str_object m = Some entries"
       "map fst entries = filter (\<lambda>k. obj_prop kvs' k \<noteq> JUndefined) platform_keys"
       "\<forall>(k, s) \<in> set entries. obj_prop kvs' k = JStr s"
    by blast
  from r(1) pl have "kvs' = kvs" by simp
  with r keys have "map fst entries = [''GCM'', ''APNS'', ''APNS_SANDBOX'', ''ADM'']"
    "\<forall>(k, s) \<in> set entries. obj_prop kvs k = JStr s" by simp_all
  then have "\<exists>kvs m entries. generatePayload example_env ?req = Inr (JObj kvs)
          \<and> js_prop ?p ''Message'' = JStr m \<and> parse_str_object m = Some entries
          \<and> map fst entries = [''GCM'', ''APNS'', ''APNS_SANDBOX'', ''ADM'']
          \<and> (\<forall>(k, s) \<in> set entries. obj_prop kvs k = JStr s)"
    using pl r(2,3) by (intro exI [of _ kvs] exI [of _ m] exI [of _ entries] conjI) simp_all
  then show ?thesis
    using snd mem by (intro exI [of _ ?s0] exI [of _ ?c] exI [of _ ?p] conjI) simp_all
qed

text \<open>
  C29. End to end, in a process whose global object binds \<^verbatim>\<open>arn\<close>: for an adapter
  built by \<^verbatim>\<open>new SNS(args)\<close> and devices with \<^verbatim>\<open>Buffer\<close> tokens, as the
  specification's interface has them, every publish call carries the constructor's
  credentials, and every completion order resolves the promise \<^verbatim>\<open>send\<close> returned with
  one outcome per device in input order, whose \<^verbatim>\<open>deviceToken\<close> is a hex string that
  decodes back to that device's token.
\<close>

theorem end_to_end_send:
  assumes "SNS args cfg = (Inr a, cfg')" and "send env a data devices = (None, s0)"
    and "distinct order" and "set order = {..<length devices}" and "g ''arn'' = Some x"
    and "\<forall>i<length devices. \<exists>kvs bs. devices ! i = JObj kvs \<and> obj_prop kvs ''deviceToken'' = JBuf bs"
  shows "(\<forall>(c, p) \<in> set (published s0). client_config c = cfg'
            \<and> obj_prop cfg' ''accessKeyId'' = js_prop args ''accessKey'')
     \<and> (\<exists>s j outs. deliver_all g reply order s0 = Some s \<and> join s = Some j
          \<and> aggregate j = Resolved (map Some outs) \<and> length outs = length devices
          \<and> (\<forall>i<length devices. \<exists>h. js_prop (js_prop (outs ! i) ''device'') ''deviceToken'' = JStr h
                 \<and> map_option JBuf (hex_decode h) = Some (js_prop (devices ! i) ''deviceToken'')))"
proof -
  have ok: "\<forall>i<length devices. device_ok (devices ! i)"
    using assms(6) by (auto simp: device_ok_def device_record_JObj)
  from send_outcomes_with_arn [where g = g and reply = reply, OF assms(2-5) ok] obtain s j outs where
    r: "deliver_all g reply order s0 = Some s" "join s = Some j" "aggregate j = Resolved (map Some outs)"
       "length outs = length devices"
       "\<forall>i<length devices. device_record (devices ! i) = Inr (js_prop (outs ! i) ''device'')"
    by blast
  have tok: "\<forall>i<length devices. \<exists>h. js_prop (js_prop (outs ! i) ''device'') ''deviceToken'' = JStr h
                 \<and> map_option JBuf (hex_decode h) = Some (js_prop (devices ! i) ''deviceToken'')"
  proof (intro allI impI)
    fix i assume i: "i < length devices"
    with assms(6) obtain kvs bs where d: "devices ! i = JObj kvs" "obj_prop kvs ''deviceToken'' = JBuf bs"
      by blast
    from r(5) i have "device_record (devices ! i) = Inr (js_prop (outs ! i) ''device'')" by blast
    with d have "JObj [(''deviceType'', obj_prop kvs ''deviceType''), (''deviceToken'', JStr (hex_encode bs))]
        = js_prop (outs ! i) ''device''"
      by (simp add: device_record_JObj)
    then show "\<exists>h. js_prop (js_prop (outs ! i) ''device'') ''deviceToken'' = JStr h
                 \<and> map_option JBuf (hex_decode h) = Some (js_prop (devices ! i) ''deviceToken'')"
      using d by (simp flip: \<open>JObj [(''deviceType'', obj_prop kvs ''deviceType''), (''deviceToken'', JStr (hex_encode bs))]
        = js_prop (outs ! i) ''device''\<close> add: obj_prop_def hex_decode_encode)
  qed
  from assms(2) obtain payload where "s0 = send_state a payload data devices"
    by (auto simp: send_ok)
  then have "\<forall>(c, p) \<in> set (published s0). c = sns a" by (auto simp: send_state_def)
  with SNS_client_config [OF assms(1)] have "\<forall>(c, p) \<in> set (published s0). client_config c = cfg'
            \<and> obj_prop cfg' ''accessKeyId'' = js_prop args ''accessKey''" by auto
  with r tok show ?thesis by blast
qed

theorem end_to_end_send_witness:
  "\<exists>a cfg' s0. SNS (JObj [(''accessKey'', JStr ''AK''), (''secretKey'', JStr ''SK'')]) [] = (Inr a, cfg')
     \<and> send example_env a example_request [example_device'] = (None, s0)
     \<and> (\<forall>(c, p) \<in> set (published s0). client_config c = cfg' \<and> obj_prop cfg' ''accessKeyId'' = JStr ''AK'')
     \<and> (\<exists>s j outs. deliver_all (Map.empty(''arn'' \<mapsto> JStr ''x'')) example_ok_reply [0] s0 = Some s
          \<and> join s = Some j \<and> aggregate j = Resolved (map Some outs) \<and> length outs = 1
          \<and> (\<exists>h. js_prop (js_prop (outs ! 0) ''device'') ''deviceToken'' = JStr h
                 \<and> map_option JBuf (hex_decode h) = Some (JBuf [0xab, 0x01])))"
proof -
  obtain a cfg' where ctor: "SNS (JObj [(''accessKey'', JStr ''AK''), (''secretKey'', JStr ''SK'')]) [] = (Inr a, cfg')"
    by (simp add: SNS_def obj_prop_def Let_def)
  obtain payload where p: "generatePayload example_env example_request = Inr payload"
    using example_payload_Inr(1) by blast
  have snd: "send example_env a example_request [example_device'] =
      (None, send_state a payload example_request [example_device'])"
    using p by (simp add: send_ok example_device'_def js_nullish_def)
  have ord: "distinct [0::nat]" "set [0::nat] = {..<length [example_device']}" by auto
  have arn: "(Map.empty(''arn'' \<mapsto> JStr ''x'')) ''arn'' = Some (JStr ''x'')" by simp
  have toks: "\<forall>i<length [example_device']. \<exists>kvs bs. [example_device'] ! i = JObj kvs
      \<and> obj_prop kvs ''deviceToken'' = JBuf bs"
    by (simp add: example_device'_def obj_prop_def)
  have key: "obj_prop [(''accessKey'', JStr ''AK''), (''secretKey'', JStr ''SK'')] ''accessKey'' = JStr ''AK''"
    by (simp add: obj_prop_def)
  from end_to_end_send [where reply = example_ok_reply and g = "Map.empty(''arn'' \<mapsto> JStr ''x'')", OF ctor snd ord arn toks] key
  show ?thesis using ctor snd by (auto simp: example_device'_def obj_prop_def)
qed

end
